theory Spec2Isabelle
  imports Main
begin

section \<open>Strings as the program sees them\<close>

text \<open>
  JavaScript strings are modelled as \<^typ>\<open>string\<close> (lists of characters). Every name the
  commands accept is ASCII (the name validation rejects anything else), and the case
  conversion below is the ASCII part of \<^verbatim>\<open>String.prototype.toLowerCase\<close>.
\<close>

definition upper_chars :: string where
  "upper_chars = ''ABCDEFGHIJKLMNOPQRSTUVWXYZ''"

definition lower_chars :: string where
  "lower_chars = ''abcdefghijklmnopqrstuvwxyz''"

definition digit_chars :: string where
  "digit_chars = ''0123456789''"

definition is_upper :: "char \<Rightarrow> bool" where
  "is_upper c = (c \<in> set upper_chars)"

definition is_lower :: "char \<Rightarrow> bool" where
  "is_lower c = (c \<in> set lower_chars)"

definition is_digit :: "char \<Rightarrow> bool" where
  "is_digit c = (c \<in> set digit_chars)"

definition is_space :: "char \<Rightarrow> bool" where
  \<comment> \<open>the ASCII white space that \<^verbatim>\<open>trim\<close> removes: tab, LF, VT, FF, CR, space\<close>
  "is_space c = (c \<in> {CHR 0x09, CHR 0x0A, CHR 0x0B, CHR 0x0C, CHR 0x0D, CHR '' ''})"

definition toLowerCase_char :: "char \<Rightarrow> char" where
  "toLowerCase_char c =
     (case map_of (zip upper_chars lower_chars) c of None \<Rightarrow> c | Some d \<Rightarrow> d)"

definition trim :: "string \<Rightarrow> string" where
  "trim s = rev (dropWhile is_space (rev (dropWhile is_space s)))"

definition startsWith :: "string \<Rightarrow> string \<Rightarrow> bool" where
  \<comment> \<open>\<^verbatim>\<open>s.startsWith(p)\<close>\<close>
  "startsWith s p = (take (length p) s = p)"

fun includes_str :: "string \<Rightarrow> string \<Rightarrow> bool" where
  \<comment> \<open>\<^verbatim>\<open>s.includes(p)\<close>: \<open>p\<close> occurs somewhere in \<open>s\<close>\<close>
  "includes_str [] p = (p = [])"
| "includes_str (c # cs) p = (startsWith (c # cs) p \<or> includes_str cs p)"

subsection \<open>\<^verbatim>\<open>split\<close> and \<^verbatim>\<open>join\<close>\<close>

text \<open>
  \<^verbatim>\<open>s.split(sep)\<close> cuts \<open>s\<close> at the occurrences of \<open>sep\<close> found from left to right, each
  search resuming after the previous occurrence; an empty separator cuts between every two
  characters. \<open>acc\<close> holds the current piece, reversed.
\<close>

fun split_from :: "string \<Rightarrow> string \<Rightarrow> string \<Rightarrow> string list" where
  "split_from sep acc [] = [rev acc]"
| "split_from sep acc (c # cs) =
     (if startsWith (c # cs) sep
      then rev acc # split_from sep [] (drop (length sep - 1) cs)
      else split_from sep (c # acc) cs)"

definition split :: "string \<Rightarrow> string \<Rightarrow> string list" where
  "split s sep = (if sep = [] then map (\<lambda>c. [c]) s else split_from sep [] s)"

fun join :: "string list \<Rightarrow> string \<Rightarrow> string" where
  \<comment> \<open>\<^verbatim>\<open>pieces.join(sep)\<close>\<close>
  "join [] sep = []"
| "join [p] sep = p"
| "join (p # q # ps) sep = p @ sep @ join (q # ps) sep"

section \<open>Naming transform (utils/validate.js)\<close>

datatype exit_reason =
    EmptyName string
  | InvalidName string string
  | UnknownType string
  | ConfigNotFound
  | UnknownPattern
  | ApiOnlyNextjs
  | AlreadyExists string string string
  | NotFound string string string

datatype js_exception = TypeError | SyntaxError | ENOENT | ENOTDIR | EISDIR | ENOTEMPTY

text \<open>
  A command either calls \<^verbatim>\<open>process.exit(code)\<close> after printing its error, or an
  exception escapes from it.
\<close>

datatype failure = Exit nat exit_reason | Thrown js_exception

definition PASCAL_CASE_REGEX_test :: "string \<Rightarrow> bool" where
  \<comment> \<open>\<^verbatim>\<open>/^[A-Z][a-zA-Z0-9]*$/.test(name)\<close>; without the \<open>m\<close> flag \<open>$\<close> is the end of input\<close>
  "PASCAL_CASE_REGEX_test name =
     (case name of
        [] \<Rightarrow> False
      | c # cs \<Rightarrow> is_upper c \<and> list_all (\<lambda>d. is_lower d \<or> is_upper d \<or> is_digit d) cs)"

definition validateName :: "string \<Rightarrow> string \<Rightarrow> failure + bool" where
  "validateName name type =
     (if name = [] \<or> length (trim name) = 0 then Inl (Exit 1 (EmptyName type))
      else if \<not> PASCAL_CASE_REGEX_test name then Inl (Exit 1 (InvalidName name type))
      else Inr True)"

definition toCamelCase :: "string \<Rightarrow> string" where
  \<comment> \<open>\<^verbatim>\<open>name.charAt(0).toLowerCase() + name.slice(1)\<close>\<close>
  "toCamelCase name = map toLowerCase_char (take 1 name) @ drop 1 name"

section \<open>Paths (Node's POSIX \<^verbatim>\<open>path\<close> module)\<close>

text \<open>
  The commands build every location with \<^verbatim>\<open>path.join\<close>, which joins its non-empty
  arguments with a slash and normalises the result: empty and \<^verbatim>\<open>.\<close> segments vanish and
  a \<^verbatim>\<open>..\<close> segment removes the segment before it.
\<close>

fun normalize_segments :: "bool \<Rightarrow> string list \<Rightarrow> string list \<Rightarrow> string list" where
  \<comment> \<open>\<open>climb\<close>: the path is relative, so \<^verbatim>\<open>..\<close> may climb above its start; \<open>acc\<close> is reversed\<close>
  "normalize_segments climb acc [] = rev acc"
| "normalize_segments climb acc (s # ss) =
     (if s = [] \<or> s = ''.'' then normalize_segments climb acc ss
      else if s = ''..'' then
        (case acc of
           [] \<Rightarrow> normalize_segments climb (if climb then [''..''] else []) ss
         | a # acc' \<Rightarrow>
             if a = ''..'' then normalize_segments climb (''..'' # acc) ss
             else normalize_segments climb acc' ss)
      else normalize_segments climb (s # acc) ss)"

definition path_normalize :: "string \<Rightarrow> string" where
  "path_normalize p =
     (if p = [] then ''.''
      else
        let isAbsolute = (hd p = CHR ''/'');
            trailingSeparator = (last p = CHR ''/'');
            body = join (normalize_segments (\<not> isAbsolute) [] (split p ''/'')) ''/''
        in if body = [] then (if isAbsolute then ''/'' else if trailingSeparator then ''./'' else ''.'')
           else (if isAbsolute then ''/'' else []) @ body @ (if trailingSeparator then ''/'' else []))"

definition path_join :: "string list \<Rightarrow> string" where
  "path_join args =
     (let joined = join (filter (\<lambda>a. a \<noteq> []) args) ''/''
      in if joined = [] then ''.'' else path_normalize joined)"

definition path_dirname :: "string \<Rightarrow> string" where
  "path_dirname p =
     (if p = [] then ''.''
      else
        let hasRoot = (hd p = CHR ''/'');
            upto_end = dropWhile (\<lambda>c. c \<noteq> CHR ''/'') (dropWhile (\<lambda>c. c = CHR ''/'') (rev (tl p)))
        in if upto_end = [] then (if hasRoot then ''/'' else ''.'')
           else if hasRoot \<and> length upto_end = 1 then ''//''
           else take (length upto_end) p)"

definition path_basename :: "string \<Rightarrow> string" where
  "path_basename p = rev (takeWhile (\<lambda>c. c \<noteq> CHR ''/'') (dropWhile (\<lambda>c. c = CHR ''/'') (rev p)))"

definition path_extname :: "string \<Rightarrow> string" where
  \<comment> \<open>of a directory entry (a name without slash): from its last dot, unless that dot leads the name\<close>
  "path_extname entry =
     (if CHR ''.'' \<notin> set entry then []
      else
        let ext = rev (takeWhile (\<lambda>c. c \<noteq> CHR ''.'') (rev entry))
        in if length entry = Suc (length ext) \<or> entry = ''..'' then [] else CHR ''.'' # ext)"

fun strip_common :: "string list \<Rightarrow> string list \<Rightarrow> string list \<times> string list" where
  "strip_common (a # xs) (b # ys) = (if a = b then strip_common xs ys else (a # xs, b # ys))"
| "strip_common xs ys = (xs, ys)"

definition path_relative :: "string \<Rightarrow> string \<Rightarrow> string" where
  \<comment> \<open>for absolute paths, which is all the commands pass\<close>
  "path_relative from_path to_path =
     (let segs = (\<lambda>p. filter (\<lambda>a. a \<noteq> []) (split (path_normalize p) ''/''));
          (up, down) = strip_common (segs from_path) (segs to_path)
      in join (map (\<lambda>_. ''..'') up @ down) ''/'')"

section \<open>Configuration and structure table\<close>

text \<open>
  \<^verbatim>\<open>.rchitect.json\<close> is read as it is, without validation: the enumerated fields are
  whatever strings the file holds.
\<close>

record config =
  framework :: string
  pattern :: string
  language :: string
  styling :: string
  withTests :: bool
  useClient :: bool

datatype config_file = NoFile | Malformed | Parsed config

text \<open>
  The structure tables (\<^verbatim>\<open>src/structures/react.js\<close> and \<^verbatim>\<open>nextjs.js\<close>) are not among the
  sources at hand; the commands only look a structure up by pattern and call its path
  functions, so the two tables are parameters of everything below. \<open>componentPath\<close> takes
  the name and the atomic level, either of which a caller may leave out; \<open>apiPath\<close> exists
  for Next.js structures only.
\<close>

record path_structure =
  folders :: "string list"
  componentPath :: "string option \<Rightarrow> string option \<Rightarrow> string"
  hookPath :: string
  pagePath :: string
  servicePath :: string
  contextPath :: string
  storePath :: string
  typePath :: string
  featurePath :: string
  apiPath :: "string option"

record tables =
  reactStructures :: "string \<rightharpoonup> path_structure"
  nextjsStructures :: "string \<rightharpoonup> path_structure"

definition structure_of :: "tables \<Rightarrow> config \<Rightarrow> path_structure option" where
  \<comment> \<open>\<^verbatim>\<open>(config.framework === 'react' ? reactStructures : nextjsStructures)[config.pattern]\<close>\<close>
  "structure_of T config =
     (if framework config = ''react'' then reactStructures T else nextjsStructures T) (pattern config)"

record extensions =
  compExt :: string
  scriptExt :: string
  styleExt :: string

definition getExtensions :: "config \<Rightarrow> extensions" where
  "getExtensions config =
     \<lparr> compExt = (if language config = ''typescript'' then ''tsx'' else ''jsx''),
       scriptExt = (if language config = ''typescript'' then ''ts'' else ''js''),
       styleExt = (if styling config = ''scss'' then ''scss'' else ''css'') \<rparr>"

section \<open>Templates (utils/templates.js)\<close>

text \<open>
  A template function returns an object from file name to file body. Only the file names
  take part in path resolution, so the model keeps the keys of that object, in the order
  \<^verbatim>\<open>Object.keys\<close> lists them: assigning to a key that is already there keeps its place.
\<close>

definition assign_key :: "string \<Rightarrow> string list \<Rightarrow> string list" where
  "assign_key k ks = (if k \<in> set ks then ks else ks @ [k])"

definition object_keys :: "string list \<Rightarrow> string list" where
  \<comment> \<open>the keys of an object literal whose properties are written in this order\<close>
  "object_keys ks = foldl (\<lambda>acc k. assign_key k acc) [] ks"

record template_result =
  files :: "string list"
  resolvedName :: string

definition componentTemplate :: "string \<Rightarrow> config \<Rightarrow> string option \<Rightarrow> string list" where
  "componentTemplate name config level =
     (let ext = getExtensions config;
          files = object_keys
            [name @ ''.'' @ compExt ext, name @ ''.module.'' @ styleExt ext, ''index.'' @ scriptExt ext]
      in if withTests config then assign_key (name @ ''.test.'' @ compExt ext) files else files)"

definition hookTemplate :: "string \<Rightarrow> config \<Rightarrow> template_result" where
  "hookTemplate name config =
     (let ext = getExtensions config;
          camel = toCamelCase name;
          hookName = (if startsWith camel ''use'' then camel else ''use'' @ name);
          files = object_keys [hookName @ ''.'' @ scriptExt ext, ''index.'' @ scriptExt ext]
      in \<lparr> files = (if withTests config then assign_key (hookName @ ''.test.'' @ scriptExt ext) files
                     else files),
           resolvedName = hookName \<rparr>)"

definition pageTemplate :: "string \<Rightarrow> config \<Rightarrow> string list" where
  "pageTemplate name config =
     (let ext = getExtensions config;
          files = object_keys
            [name @ ''Page.'' @ compExt ext, name @ ''Page.module.'' @ styleExt ext,
             ''index.'' @ scriptExt ext]
      in if withTests config then assign_key (name @ ''Page.test.'' @ compExt ext) files else files)"

definition serviceTemplate :: "string \<Rightarrow> config \<Rightarrow> template_result" where
  "serviceTemplate name config =
     (let ext = getExtensions config;
          camel = toCamelCase name;
          serviceName = camel @ ''Service'';
          files = object_keys [serviceName @ ''.'' @ scriptExt ext, ''index.'' @ scriptExt ext]
      in \<lparr> files = (if withTests config then assign_key (serviceName @ ''.test.'' @ scriptExt ext) files
                     else files),
           resolvedName = serviceName \<rparr>)"

definition contextTemplate :: "string \<Rightarrow> config \<Rightarrow> template_result" where
  "contextTemplate name config =
     (let ext = getExtensions config;
          contextName = name @ ''Context'';
          files = object_keys [contextName @ ''.'' @ compExt ext, ''index.'' @ scriptExt ext]
      in \<lparr> files = (if withTests config then assign_key (contextName @ ''.test.'' @ compExt ext) files
                     else files),
           resolvedName = contextName \<rparr>)"

definition storeTemplate :: "string \<Rightarrow> config \<Rightarrow> template_result" where
  "storeTemplate name config =
     (let ext = getExtensions config;
          storeName = ''use'' @ name @ ''Store'';
          files = object_keys [storeName @ ''.'' @ scriptExt ext, ''index.'' @ scriptExt ext]
      in \<lparr> files = (if withTests config then assign_key (storeName @ ''.test.'' @ scriptExt ext) files
                     else files),
           resolvedName = storeName \<rparr>)"

definition typeTemplate :: "string \<Rightarrow> config \<Rightarrow> template_result" where
  "typeTemplate name config =
     (let scriptExt = scriptExt (getExtensions config);
          ext = (if language config = ''typescript'' then scriptExt else scriptExt)
      in \<lparr> files = object_keys [name @ ''.types.'' @ ext], resolvedName = name @ ''.types'' \<rparr>)"

definition apiTemplate :: "string \<Rightarrow> config \<Rightarrow> template_result" where
  "apiTemplate name config =
     (let ext = (if language config = ''typescript'' then ''ts'' else ''js'');
          camel = toCamelCase name
      in \<lparr> files = object_keys [''route.'' @ ext], resolvedName = camel \<rparr>)"

definition featureTemplate :: "string \<Rightarrow> config \<Rightarrow> template_result" where
  "featureTemplate name config =
     (let ext = getExtensions config;
          camel = toCamelCase name;
          hookName = ''use'' @ name;
          serviceName = camel @ ''Service'';
          files = object_keys
            [''components/'' @ name @ ''View/'' @ name @ ''View.'' @ compExt ext,
             ''components/'' @ name @ ''View/'' @ name @ ''View.module.'' @ styleExt ext,
             ''components/'' @ name @ ''View/index.'' @ scriptExt ext,
             ''hooks/'' @ hookName @ ''/'' @ hookName @ ''.'' @ scriptExt ext,
             ''hooks/'' @ hookName @ ''/index.'' @ scriptExt ext,
             ''services/'' @ serviceName @ ''/'' @ serviceName @ ''.'' @ scriptExt ext,
             ''services/'' @ serviceName @ ''/index.'' @ scriptExt ext,
             ''types.'' @ scriptExt ext,
             ''index.'' @ scriptExt ext]
      in \<lparr> files =
             (if withTests config
              then assign_key (''hooks/'' @ hookName @ ''/'' @ hookName @ ''.test.'' @ scriptExt ext)
                     (assign_key (''components/'' @ name @ ''View/'' @ name @ ''View.test.'' @ compExt ext)
                        files)
              else files),
           resolvedName = name \<rparr>)"

section \<open>Query handlers (mcp/server.js)\<close>

text \<open>
  A handler returns a payload, which may be the error payload \<^verbatim>\<open>{ error }\<close>, unless an
  exception escapes from it. Reading a file that does not hold JSON raises
  (\<^verbatim>\<open>readJsonSync\<close>), and so does calling a path function of a structure the table does not
  hold. The explanatory note of a resolved path is kept as a tag, without its wording.
\<close>

datatype note_tag =
    AtomDefaulted bool
  | LevelIgnored string string
  | UsePrefixAdded
  | PageSuffixAdded
  | ServiceNormalized string
  | ContextSuffixAdded bool
  | StoreNaming
  | TypePlacement
  | ApiNormalized string
  | FeatureScaffold

record resolved_path = template_result +
  resource_type :: string
  resource_name :: string
  directory :: string
  path_note :: "note_tag option"

datatype resolve_payload = ErrorPayload string | PathPayload resolved_path

definition SUPPORTED :: "string list" where
  "SUPPORTED = [''component'', ''hook'', ''page'', ''service'', ''context'', ''store'', ''type'',
                ''api'', ''feature'']"

definition CONFIG_NOT_FOUND :: string where
  "CONFIG_NOT_FOUND = ''.rchitect.json not found. Run \"rchitect init\" first.''"

definition truthy :: "string option \<Rightarrow> bool" where
  \<comment> \<open>an argument that is neither left out nor the empty string\<close>
  "truthy v = (v \<noteq> None \<and> v \<noteq> Some [])"

definition resolve_component ::
  "path_structure option \<Rightarrow> config \<Rightarrow> string \<Rightarrow> string option \<Rightarrow> failure + resolve_payload" where
  "resolve_component structure config name atomicLevel =
     (let ext = getExtensions config;
          atomic = (pattern config = ''atomic-design'');
          level = (if atomic then (if \<not> truthy atomicLevel then Some ''atom'' else atomicLevel)
                   else if truthy atomicLevel then None else atomicLevel);
          note_tag = (if atomic
                  then (if \<not> truthy atomicLevel then Some (AtomDefaulted (framework config = ''react''))
                        else None)
                  else if truthy atomicLevel
                    then Some (LevelIgnored (the atomicLevel) (pattern config)) else None)
      in case structure of
           None \<Rightarrow> Inl (Thrown TypeError)
         | Some st \<Rightarrow>
             let basePath = (if atomic then componentPath st (Some name) level
                             else componentPath st (Some name) None);
                 files = [name @ ''.'' @ compExt ext, name @ ''.module.'' @ styleExt ext,
                          ''index.'' @ scriptExt ext]
             in Inr (PathPayload
                  \<lparr> files = (if withTests config then files @ [name @ ''.test.'' @ compExt ext] else files),
                    resolvedName = name,
                    resource_type = ''component'', resource_name = name,
                    directory = basePath @ ''/'' @ name,
                    path_note = note_tag \<rparr>))"

definition resolve_hook ::
  "path_structure option \<Rightarrow> config \<Rightarrow> string \<Rightarrow> failure + resolve_payload" where
  "resolve_hook structure config name =
     (let ext = getExtensions config;
          camel = toCamelCase name;
          hookName = (if startsWith camel ''use'' then camel else ''use'' @ name)
      in case structure of
           None \<Rightarrow> Inl (Thrown TypeError)
         | Some st \<Rightarrow>
             let files = [hookName @ ''.'' @ scriptExt ext, ''index.'' @ scriptExt ext]
             in Inr (PathPayload
                  \<lparr> files = (if withTests config then files @ [hookName @ ''.test.'' @ scriptExt ext]
                              else files),
                    resolvedName = hookName,
                    resource_type = ''hook'', resource_name = name,
                    directory = hookPath st @ ''/'' @ hookName,
                    path_note = (if startsWith camel ''use'' then None else Some UsePrefixAdded) \<rparr>))"

definition resolve_page ::
  "path_structure option \<Rightarrow> config \<Rightarrow> string \<Rightarrow> failure + resolve_payload" where
  "resolve_page structure config name =
     (let ext = getExtensions config;
          pageName = name @ ''Page''
      in case structure of
           None \<Rightarrow> Inl (Thrown TypeError)
         | Some st \<Rightarrow>
             let files = [pageName @ ''.'' @ compExt ext, pageName @ ''.module.'' @ styleExt ext,
                          ''index.'' @ scriptExt ext]
             in Inr (PathPayload
                  \<lparr> files = (if withTests config then files @ [pageName @ ''.test.'' @ compExt ext]
                              else files),
                    resolvedName = pageName,
                    resource_type = ''page'', resource_name = name,
                    directory = pagePath st @ ''/'' @ name,
                    path_note = Some PageSuffixAdded \<rparr>))"

definition resolve_service ::
  "path_structure option \<Rightarrow> config \<Rightarrow> string \<Rightarrow> failure + resolve_payload" where
  "resolve_service structure config name =
     (let ext = getExtensions config;
          camel = toCamelCase name;
          serviceName = camel @ ''Service''
      in case structure of
           None \<Rightarrow> Inl (Thrown TypeError)
         | Some st \<Rightarrow>
             let files = [serviceName @ ''.'' @ scriptExt ext, ''index.'' @ scriptExt ext]
             in Inr (PathPayload
                  \<lparr> files = (if withTests config then files @ [serviceName @ ''.test.'' @ scriptExt ext]
                              else files),
                    resolvedName = serviceName,
                    resource_type = ''service'', resource_name = name,
                    directory = servicePath st @ ''/'' @ serviceName,
                    path_note = Some (ServiceNormalized camel) \<rparr>))"

definition resolve_context ::
  "path_structure option \<Rightarrow> config \<Rightarrow> string \<Rightarrow> failure + resolve_payload" where
  "resolve_context structure config name =
     (let ext = getExtensions config;
          contextName = name @ ''Context''
      in case structure of
           None \<Rightarrow> Inl (Thrown TypeError)
         | Some st \<Rightarrow>
             let files = [contextName @ ''.'' @ compExt ext, ''index.'' @ scriptExt ext]
             in Inr (PathPayload
                  \<lparr> files = (if withTests config then files @ [contextName @ ''.test.'' @ compExt ext]
                              else files),
                    resolvedName = contextName,
                    resource_type = ''context'', resource_name = name,
                    directory = contextPath st @ ''/'' @ contextName,
                    path_note = Some (ContextSuffixAdded (framework config = ''nextjs'')) \<rparr>))"

definition resolve_store ::
  "path_structure option \<Rightarrow> config \<Rightarrow> string \<Rightarrow> failure + resolve_payload" where
  "resolve_store structure config name =
     (let ext = getExtensions config;
          storeName = ''use'' @ name @ ''Store''
      in case structure of
           None \<Rightarrow> Inl (Thrown TypeError)
         | Some st \<Rightarrow>
             let files = [storeName @ ''.'' @ scriptExt ext, ''index.'' @ scriptExt ext]
             in Inr (PathPayload
                  \<lparr> files = (if withTests config then files @ [storeName @ ''.test.'' @ scriptExt ext]
                              else files),
                    resolvedName = storeName,
                    resource_type = ''store'', resource_name = name,
                    directory = storePath st @ ''/'' @ storeName,
                    path_note = Some StoreNaming \<rparr>))"

definition resolve_type ::
  "path_structure option \<Rightarrow> config \<Rightarrow> string \<Rightarrow> failure + resolve_payload" where
  "resolve_type structure config name =
     (let ext = getExtensions config;
          typesName = name @ ''.types''
      in case structure of
           None \<Rightarrow> Inl (Thrown TypeError)
         | Some st \<Rightarrow>
             Inr (PathPayload
               \<lparr> files = [typesName @ ''.'' @ scriptExt ext],
                 resolvedName = typesName,
                 resource_type = ''type'', resource_name = name,
                 directory = typePath st,
                 path_note = Some TypePlacement \<rparr>))"

definition resolve_api ::
  "path_structure option \<Rightarrow> config \<Rightarrow> string \<Rightarrow> failure + resolve_payload" where
  "resolve_api structure config name =
     (let ext = getExtensions config;
          camel = toCamelCase name
      in if framework config \<noteq> ''nextjs''
         then Inr (ErrorPayload ''API routes are only supported for Next.js projects.'')
         else case structure of
           None \<Rightarrow> Inl (Thrown TypeError)
         | Some st \<Rightarrow>
             (case apiPath st of
                None \<Rightarrow> Inl (Thrown TypeError)
              | Some api \<Rightarrow>
                  Inr (PathPayload
                    \<lparr> files = [''route.'' @ scriptExt ext],
                      resolvedName = camel,
                      resource_type = ''api'', resource_name = name,
                      directory = api @ ''/'' @ camel,
                      path_note = Some (ApiNormalized camel) \<rparr>)))"

definition resolve_feature ::
  "path_structure option \<Rightarrow> config \<Rightarrow> string \<Rightarrow> failure + resolve_payload" where
  "resolve_feature structure config name =
     (let ext = getExtensions config;
          camel = toCamelCase name
      in case structure of
           None \<Rightarrow> Inl (Thrown TypeError)
         | Some st \<Rightarrow>
             let serviceName = camel @ ''Service'';
                 hookName = ''use'' @ name;
                 files =
                   [''components/'' @ name @ ''View/'' @ name @ ''View.'' @ compExt ext,
                    ''components/'' @ name @ ''View/'' @ name @ ''View.module.'' @ styleExt ext,
                    ''components/'' @ name @ ''View/index.'' @ scriptExt ext,
                    ''hooks/'' @ hookName @ ''/'' @ hookName @ ''.'' @ scriptExt ext,
                    ''hooks/'' @ hookName @ ''/index.'' @ scriptExt ext,
                    ''services/'' @ serviceName @ ''/'' @ serviceName @ ''.'' @ scriptExt ext,
                    ''services/'' @ serviceName @ ''/index.'' @ scriptExt ext,
                    ''types.'' @ scriptExt ext,
                    ''index.'' @ scriptExt ext]
             in Inr (PathPayload
                  \<lparr> files =
                      (if withTests config
                       then files @
                         [''components/'' @ name @ ''View/'' @ name @ ''View.test.'' @ compExt ext,
                          ''hooks/'' @ hookName @ ''/'' @ hookName @ ''.test.'' @ scriptExt ext]
                       else files),
                    resolvedName = name,
                    resource_type = ''feature'', resource_name = name,
                    directory = featurePath st @ ''/'' @ name,
                    path_note = Some FeatureScaffold \<rparr>))"

definition handleResolveResourcePath ::
  "tables \<Rightarrow> config_file \<Rightarrow> string \<Rightarrow> string \<Rightarrow> string option \<Rightarrow> failure + resolve_payload" where
  "handleResolveResourcePath T cf type name atomicLevel =
     (if type \<notin> set SUPPORTED
      then Inr (ErrorPayload
             (''Unknown type \"'' @ type @ ''\". Supported: '' @ join SUPPORTED '', '' @ ''.''))
      else case cf of
        NoFile \<Rightarrow> Inr (ErrorPayload CONFIG_NOT_FOUND)
      | Malformed \<Rightarrow> Inl (Thrown SyntaxError)
      | Parsed config \<Rightarrow>
          let structure = structure_of T config
          in if type = ''component'' then resolve_component structure config name atomicLevel
             else if type = ''hook'' then resolve_hook structure config name
             else if type = ''page'' then resolve_page structure config name
             else if type = ''service'' then resolve_service structure config name
             else if type = ''context'' then resolve_context structure config name
             else if type = ''store'' then resolve_store structure config name
             else if type = ''type'' then resolve_type structure config name
             else if type = ''api'' then resolve_api structure config name
             else resolve_feature structure config name)"

text \<open>
  The two other handlers. Their payloads are kept as far as they are computed from the
  structure: the fixed description tables are left out.
\<close>

definition handleGetProjectConfig :: "config_file \<Rightarrow> failure + (string + config)" where
  "handleGetProjectConfig cf =
     (case cf of
        NoFile \<Rightarrow> Inr (Inl CONFIG_NOT_FOUND)
      | Malformed \<Rightarrow> Inl (Thrown SyntaxError)
      | Parsed config \<Rightarrow> Inr (Inr config))"

record architecture_guide =
  guide_pattern :: string
  guide_framework :: string
  guide_folders :: "string list"
  resourcePlacement :: "(string \<times> string) list"
  fileExtensions :: "(string \<times> string) list"

definition handleGetArchitectureGuide ::
  "tables \<Rightarrow> config_file \<Rightarrow> failure + (string + architecture_guide)" where
  "handleGetArchitectureGuide T cf =
     (case cf of
        NoFile \<Rightarrow> Inr (Inl CONFIG_NOT_FOUND)
      | Malformed \<Rightarrow> Inl (Thrown SyntaxError)
      | Parsed config \<Rightarrow>
          (case structure_of T config of
             None \<Rightarrow> Inr (Inl (''Unknown pattern \"'' @ pattern config @ ''\" in .rchitect.json.''))
           | Some st \<Rightarrow>
               let ext = getExtensions config
               in if framework config = ''nextjs'' \<and> apiPath st = None then Inl (Thrown TypeError)
                  else Inr (Inr
                    \<lparr> guide_pattern = pattern config,
                      guide_framework = framework config,
                      guide_folders = folders st,
                      resourcePlacement =
                        [(''component'',
                            if pattern config = ''atomic-design''
                            then componentPath st None (Some ''atom'') @
                              '' | molecules | organisms | templates (chosen by atomic level). Each component lives in its own subdirectory.''
                            else componentPath st None None @ ''/<Name>/''),
                         (''hook'', hookPath st @ ''/use<Name>/''),
                         (''page'', pagePath st @ ''/<Name>/''),
                         (''service'', servicePath st @ ''/<name>Service/''),
                         (''context'', contextPath st @ ''/<Name>Context/''),
                         (''store'', storePath st @ ''/use<Name>Store/''),
                         (''type'', typePath st @ ''/<Name>.types.'' @ scriptExt ext @
                            ''  (single file '' @ [CHR 0xE2, CHR 0x80, CHR 0x94] @ '' no subdirectory)''),
                         (''api'',
                            if framework config = ''nextjs''
                            then the (apiPath st) @ ''/<name>/route.'' @ scriptExt ext @ ''  (Next.js only)''
                            else ''Not supported '' @ [CHR 0xE2, CHR 0x80, CHR 0x94] @
                              '' API routes require Next.js.''),
                         (''feature'', featurePath st @ ''/<Name>/  (contains components/, hooks/, services/, types.'' @
                            scriptExt ext @ '', index.'' @ scriptExt ext @ '')'')],
                      fileExtensions =
                        [(''component'', ''.'' @ compExt ext),
                         (''script'', ''.'' @ scriptExt ext),
                         (''style'', ''.module.'' @ styleExt ext),
                         (''test'',
                            if withTests config
                            then ''.test.'' @ compExt ext @ '' or .test.'' @ scriptExt ext
                            else ''disabled (withTests: false)'')] \<rparr>)))"

section \<open>File system\<close>

text \<open>
  The file system is a finite map from the absolute paths the commands address to what is
  found there: a file with its text, or a directory with its entries in the order
  \<^verbatim>\<open>readdir\<close> lists them, each entry holding its own subtree. \<^verbatim>\<open>.rchitect.json\<close> is kept
  apart, as a \<^typ>\<open>config_file\<close>.
\<close>

datatype node = File string | Dir "(string \<times> node) list"

type_synonym entries = "(string \<times> node) list"

type_synonym filesystem = "string \<rightharpoonup> node"

definition pathExists :: "filesystem \<Rightarrow> string \<Rightarrow> bool" where
  "pathExists fs p = (fs p \<noteq> None)"

fun put_entry :: "string \<Rightarrow> node \<Rightarrow> entries \<Rightarrow> entries" where
  \<comment> \<open>replace what the entry \<open>name\<close> holds\<close>
  "put_entry name x [] = []"
| "put_entry name x ((n, y) # es) =
     (if n = name then (n, x) # es else (n, y) # put_entry name x es)"

fun remove_entry :: "string \<Rightarrow> entries \<Rightarrow> entries" where
  "remove_entry name [] = []"
| "remove_entry name ((n, y) # es) = (if n = name then es else (n, y) # remove_entry name es)"

fun rename_key :: "string \<Rightarrow> string \<Rightarrow> entries \<Rightarrow> entries" where
  "rename_key old new [] = []"
| "rename_key old new ((n, y) # es) =
     (if n = old then (new, y) # es else (n, y) # rename_key old new es)"

definition rename_entry :: "string \<Rightarrow> string \<Rightarrow> entries \<Rightarrow> failure + entries" where
  \<comment> \<open>\<^verbatim>\<open>fs.rename\<close> inside one directory: a file replaces a file, a directory replaces an
      empty directory, every other clash is an error\<close>
  "rename_entry old new es =
     (if old = new then Inr es
      else case map_of es old of
        None \<Rightarrow> Inl (Thrown ENOENT)
      | Some src \<Rightarrow>
          (case map_of es new of
             None \<Rightarrow> Inr (rename_key old new es)
           | Some dst \<Rightarrow>
               (case (src, dst) of
                  (File _, File _) \<Rightarrow> Inr (rename_key old new (remove_entry new es))
                | (File _, Dir _) \<Rightarrow> Inl (Thrown EISDIR)
                | (Dir _, File _) \<Rightarrow> Inl (Thrown ENOTDIR)
                | (Dir _, Dir []) \<Rightarrow> Inr (rename_key old new (remove_entry new es))
                | (Dir _, Dir (_ # _)) \<Rightarrow> Inl (Thrown ENOTEMPTY))))"

fun node_size :: "node \<Rightarrow> nat" where
  "node_size (File content) = 1"
| "node_size (Dir es) = Suc (sum_list (map (\<lambda>e. node_size (snd e)) es))"

definition entries_size :: "entries \<Rightarrow> nat" where
  "entries_size es = sum_list (map (\<lambda>e. node_size (snd e)) es)"

section \<open>Console errors\<close>

definition error_text :: "exit_reason \<Rightarrow> string" where
  \<comment> \<open>the error line a command prints before \<^verbatim>\<open>process.exit(1)\<close>, without its colour\<close>
  "error_text r =
     (case r of
        EmptyName type \<Rightarrow> ''Error: '' @ type @ '' name cannot be empty.''
      | InvalidName name type \<Rightarrow> ''Error: \"'' @ name @ ''\" is not a valid '' @ type @ '' name.''
      | UnknownType type \<Rightarrow> ''Error: Unknown type \"'' @ type @ ''\".''
      | ConfigNotFound \<Rightarrow> ''Error: '' @ CONFIG_NOT_FOUND
      | UnknownPattern \<Rightarrow> ''Error: Unknown pattern in config.''
      | ApiOnlyNextjs \<Rightarrow> ''Error: API routes are only supported for Next.js projects.''
      | AlreadyExists kind name rel \<Rightarrow>
          ''Error: '' @ kind @ '' \"'' @ name @ ''\" already exists at '' @ rel
      | NotFound kind name rel \<Rightarrow> ''Error: '' @ kind @ '' \"'' @ name @ ''\" not found at '' @ rel)"

section \<open>The add command (commands/add.js)\<close>

text \<open>
  What a successful \<^verbatim>\<open>add\<close> does to the disk: the directory it fills, the files it writes
  there (their names as the template gives them, in writing order), and the barrel it
  then updates, if any, as parent directory and exported name.
\<close>

record scaffold =
  scaffold_dir :: string
  written :: "string list"
  barrel :: "(string \<times> string) option"

definition loadConfig :: "config_file \<Rightarrow> failure + config" where
  "loadConfig cf =
     (case cf of
        NoFile \<Rightarrow> Inl (Exit 1 ConfigNotFound)
      | Malformed \<Rightarrow> Inl (Thrown SyntaxError)
      | Parsed config \<Rightarrow> Inr config)"

definition getStructure :: "tables \<Rightarrow> config \<Rightarrow> failure + path_structure" where
  "getStructure T config =
     (case structure_of T config of
        None \<Rightarrow> Inl (Exit 1 UnknownPattern)
      | Some structure \<Rightarrow> Inr structure)"

definition addComponent ::
  "string \<Rightarrow> config \<Rightarrow> path_structure \<Rightarrow> string \<Rightarrow> filesystem \<Rightarrow> string \<Rightarrow> failure + scaffold" where
  \<comment> \<open>\<open>answer\<close> is the level chosen at the prompt, asked for under atomic-design only\<close>
  "addComponent name config structure cwd fs answer =
     (case validateName name ''component'' of
        Inl e \<Rightarrow> Inl e
      | Inr _ \<Rightarrow>
          let level = (if pattern config = ''atomic-design'' then Some answer else None);
              componentDir = path_join [cwd, componentPath structure (Some name) level, name]
          in if pathExists fs componentDir
             then Inl (Exit 1 (AlreadyExists ''Component'' name (path_relative cwd componentDir)))
             else Inr \<lparr> scaffold_dir = componentDir,
                        written = componentTemplate name config level,
                        barrel = Some (path_dirname componentDir, name) \<rparr>)"

definition addHook ::
  "string \<Rightarrow> config \<Rightarrow> path_structure \<Rightarrow> string \<Rightarrow> filesystem \<Rightarrow> failure + scaffold" where
  "addHook name config structure cwd fs =
     (case validateName name ''hook'' of
        Inl e \<Rightarrow> Inl e
      | Inr _ \<Rightarrow>
          let t = hookTemplate name config;
              hookDir = path_join [cwd, hookPath structure, resolvedName t]
          in if pathExists fs hookDir
             then Inl (Exit 1 (AlreadyExists ''Hook'' (resolvedName t) (path_relative cwd hookDir)))
             else Inr \<lparr> scaffold_dir = hookDir, written = files t,
                        barrel = Some (path_dirname hookDir, resolvedName t) \<rparr>)"

definition addPage ::
  "string \<Rightarrow> config \<Rightarrow> path_structure \<Rightarrow> string \<Rightarrow> filesystem \<Rightarrow> failure + scaffold" where
  "addPage name config structure cwd fs =
     (case validateName name ''page'' of
        Inl e \<Rightarrow> Inl e
      | Inr _ \<Rightarrow>
          let files = pageTemplate name config;
              pageDir = path_join [cwd, pagePath structure, name]
          in if pathExists fs pageDir
             then Inl (Exit 1 (AlreadyExists ''Page'' name (path_relative cwd pageDir)))
             else Inr \<lparr> scaffold_dir = pageDir, written = files,
                        barrel = Some (path_dirname pageDir, name) \<rparr>)"

definition addService ::
  "string \<Rightarrow> config \<Rightarrow> path_structure \<Rightarrow> string \<Rightarrow> filesystem \<Rightarrow> failure + scaffold" where
  "addService name config structure cwd fs =
     (case validateName name ''service'' of
        Inl e \<Rightarrow> Inl e
      | Inr _ \<Rightarrow>
          let t = serviceTemplate name config;
              serviceDir = path_join [cwd, servicePath structure, resolvedName t]
          in if pathExists fs serviceDir
             then Inl (Exit 1 (AlreadyExists ''Service'' (resolvedName t) (path_relative cwd serviceDir)))
             else Inr \<lparr> scaffold_dir = serviceDir, written = files t,
                        barrel = Some (path_dirname serviceDir, resolvedName t) \<rparr>)"

definition addContext ::
  "string \<Rightarrow> config \<Rightarrow> path_structure \<Rightarrow> string \<Rightarrow> filesystem \<Rightarrow> failure + scaffold" where
  "addContext name config structure cwd fs =
     (case validateName name ''context'' of
        Inl e \<Rightarrow> Inl e
      | Inr _ \<Rightarrow>
          let t = contextTemplate name config;
              contextDir = path_join [cwd, contextPath structure, resolvedName t]
          in if pathExists fs contextDir
             then Inl (Exit 1 (AlreadyExists ''Context'' (resolvedName t) (path_relative cwd contextDir)))
             else Inr \<lparr> scaffold_dir = contextDir, written = files t,
                        barrel = Some (path_dirname contextDir, resolvedName t) \<rparr>)"

definition addStore ::
  "string \<Rightarrow> config \<Rightarrow> path_structure \<Rightarrow> string \<Rightarrow> filesystem \<Rightarrow> failure + scaffold" where
  "addStore name config structure cwd fs =
     (case validateName name ''store'' of
        Inl e \<Rightarrow> Inl e
      | Inr _ \<Rightarrow>
          let t = storeTemplate name config;
              storeDir = path_join [cwd, storePath structure, resolvedName t]
          in if pathExists fs storeDir
             then Inl (Exit 1 (AlreadyExists ''Store'' (resolvedName t) (path_relative cwd storeDir)))
             else Inr \<lparr> scaffold_dir = storeDir, written = files t,
                        barrel = Some (path_dirname storeDir, resolvedName t) \<rparr>)"

definition addType ::
  "string \<Rightarrow> config \<Rightarrow> path_structure \<Rightarrow> string \<Rightarrow> filesystem \<Rightarrow> failure + scaffold" where
  "addType name config structure cwd fs =
     (case validateName name ''type'' of
        Inl e \<Rightarrow> Inl e
      | Inr _ \<Rightarrow>
          let t = typeTemplate name config;
              typeDir = path_join [cwd, typePath structure]
          in Inr \<lparr> scaffold_dir = typeDir, written = files t, barrel = None \<rparr>)"

definition addApi ::
  "string \<Rightarrow> config \<Rightarrow> path_structure \<Rightarrow> string \<Rightarrow> filesystem \<Rightarrow> failure + scaffold" where
  "addApi name config structure cwd fs =
     (case validateName name ''api'' of
        Inl e \<Rightarrow> Inl e
      | Inr _ \<Rightarrow>
          if framework config \<noteq> ''nextjs'' then Inl (Exit 1 ApiOnlyNextjs)
          else
            let t = apiTemplate name config
            in case apiPath structure of
                 None \<Rightarrow> Inl (Thrown TypeError)
               | Some api \<Rightarrow>
                   let apiDir = path_join [cwd, api, resolvedName t]
                   in if pathExists fs apiDir
                      then Inl (Exit 1 (AlreadyExists ''API route'' (resolvedName t)
                                  (path_relative cwd apiDir)))
                      else Inr \<lparr> scaffold_dir = apiDir, written = files t, barrel = None \<rparr>)"

definition addFeature ::
  "string \<Rightarrow> config \<Rightarrow> path_structure \<Rightarrow> string \<Rightarrow> filesystem \<Rightarrow> failure + scaffold" where
  "addFeature name config structure cwd fs =
     (case validateName name ''feature'' of
        Inl e \<Rightarrow> Inl e
      | Inr _ \<Rightarrow>
          let t = featureTemplate name config;
              featureDir = path_join [cwd, featurePath structure, resolvedName t]
          in if pathExists fs featureDir
             then Inl (Exit 1 (AlreadyExists ''Feature'' (resolvedName t) (path_relative cwd featureDir)))
             else Inr \<lparr> scaffold_dir = featureDir, written = files t, barrel = None \<rparr>)"

definition addCommand ::
  "tables \<Rightarrow> config_file \<Rightarrow> string \<Rightarrow> filesystem \<Rightarrow> string \<Rightarrow> string \<Rightarrow> string \<Rightarrow> failure + scaffold" where
  "addCommand T cf cwd fs answer type name =
     (if type \<notin> set SUPPORTED then Inl (Exit 1 (UnknownType type))
      else case loadConfig cf of
        Inl e \<Rightarrow> Inl e
      | Inr config \<Rightarrow>
          (case getStructure T config of
             Inl e \<Rightarrow> Inl e
           | Inr structure \<Rightarrow>
               if type = ''component'' then addComponent name config structure cwd fs answer
               else if type = ''hook'' then addHook name config structure cwd fs
               else if type = ''page'' then addPage name config structure cwd fs
               else if type = ''service'' then addService name config structure cwd fs
               else if type = ''context'' then addContext name config structure cwd fs
               else if type = ''store'' then addStore name config structure cwd fs
               else if type = ''type'' then addType name config structure cwd fs
               else if type = ''api'' then addApi name config structure cwd fs
               else addFeature name config structure cwd fs))"

section \<open>Barrel updater (utils/barrel.js)\<close>

datatype barrel_action = created | updated | skipped

definition quote :: string where
  "quote = [CHR 0x27]"

definition exportLine :: "string \<Rightarrow> string" where
  "exportLine resourceName =
     ''export { default as '' @ resourceName @ '' } from '' @ quote @ ''./'' @ resourceName @ quote @
     '';'' @ [CHR 0x0A]"

definition updateBarrel ::
  "filesystem \<Rightarrow> string \<Rightarrow> string \<Rightarrow> string \<Rightarrow> string \<Rightarrow> failure + (barrel_action \<times> string) \<times> filesystem" where
  \<comment> \<open>the parent directory is taken to exist: \<^verbatim>\<open>writeFile\<close> into a missing directory, which
      raises \<^verbatim>\<open>ENOENT\<close>, is not modelled\<close>
  "updateBarrel fs parentDir resourceName script_ext cwd =
     (let barrelPath = path_join [parentDir, ''index.'' @ script_ext]
      in case fs barrelPath of
           Some (File existing) \<Rightarrow>
             if includes_str existing (''from '' @ quote @ ''./'' @ resourceName @ quote)
             then Inr ((skipped, path_relative cwd barrelPath), fs)
             else Inr ((updated, path_relative cwd barrelPath),
                       fs(barrelPath \<mapsto> File (existing @ exportLine resourceName)))
         | Some (Dir es) \<Rightarrow> Inl (Thrown EISDIR)
         | None \<Rightarrow>
             Inr ((created, path_relative cwd barrelPath),
                  fs(barrelPath \<mapsto> File (exportLine resourceName))))"

section \<open>The rename command (commands/rename.js)\<close>

definition RENAME_SUPPORTED_TYPES :: "string list" where
  "RENAME_SUPPORTED_TYPES =
     [''component'', ''hook'', ''page'', ''service'', ''context'', ''store'', ''feature'']"

definition TEXT_EXTENSIONS :: "string set" where
  "TEXT_EXTENSIONS = {''.ts'', ''.tsx'', ''.js'', ''.jsx'', ''.css'', ''.scss''}"

definition resolveDir ::
  "string \<Rightarrow> string \<Rightarrow> config \<Rightarrow> path_structure \<Rightarrow> string \<Rightarrow> string option" where
  "resolveDir type name config structure cwd =
     (let camel = toCamelCase name
      in if type = ''component'' then Some (path_join [cwd, componentPath structure (Some name) None, name])
         else if type = ''hook'' then Some (path_join [cwd, hookPath structure, ''use'' @ name])
         else if type = ''page'' then Some (path_join [cwd, pagePath structure, name])
         else if type = ''service'' then Some (path_join [cwd, servicePath structure, camel @ ''Service''])
         else if type = ''context'' then Some (path_join [cwd, contextPath structure, name @ ''Context''])
         else if type = ''store'' then Some (path_join [cwd, storePath structure, ''use'' @ name @ ''Store''])
         else if type = ''feature'' then Some (path_join [cwd, featurePath structure, name])
         else None)"

definition buildReplacementPairs :: "string \<Rightarrow> string \<Rightarrow> (string \<times> string) list" where
  "buildReplacementPairs oldName newName =
     (let oldCamel = toCamelCase oldName;
          newCamel = toCamelCase newName
      in filter (\<lambda>(a, b). a \<noteq> b)
           [(''use'' @ oldName @ ''Store'', ''use'' @ newName @ ''Store''),
            (oldName @ ''Context'', newName @ ''Context''),
            (oldName @ ''Provider'', newName @ ''Provider''),
            (oldName @ ''Page'', newName @ ''Page''),
            (''use'' @ oldName, ''use'' @ newName),
            (oldCamel @ ''Service'', newCamel @ ''Service''),
            (oldCamel, newCamel),
            (oldName, newName)])"

definition applyReplacements :: "string \<Rightarrow> (string \<times> string) list \<Rightarrow> string" where
  \<comment> \<open>\<^verbatim>\<open>pairs.reduce((s, [from, to]) => s.split(from).join(to), str)\<close>\<close>
  "applyReplacements str pairs =
     foldl (\<lambda>s (from_token, to_token). join (split s from_token) to_token) str pairs"

text \<open>
  The walk over one directory. \<open>names\<close> is what is left of the listing read when the walk
  entered the directory, \<open>es\<close> the directory as the steps so far have left it. The result
  is the error that stopped the walk, if any, and the directory as it then stands.
\<close>

definition rewrite_file :: "(string \<times> string) list \<Rightarrow> string \<Rightarrow> string \<Rightarrow> entries \<Rightarrow> entries" where
  "rewrite_file pairs entry content es =
     (if path_extname entry \<in> TEXT_EXTENSIONS
      then (let newContent = applyReplacements content pairs
            in if newContent \<noteq> content then put_entry entry (File newContent) es else es)
      else es)"

definition rename_if_changed :: "(string \<times> string) list \<Rightarrow> string \<Rightarrow> entries \<Rightarrow> failure + entries" where
  "rename_if_changed pairs entry es =
     (let newEntry = applyReplacements entry pairs
      in if newEntry \<noteq> entry then rename_entry entry newEntry es else Inr es)"

function rename_entries ::
  "(string \<times> string) list \<Rightarrow> string list \<Rightarrow> entries \<Rightarrow> failure option \<times> entries" where
  "rename_entries pairs [] es = (None, es)"
| "rename_entries pairs (entry # rest) es =
     (case map_of es entry of
        None \<Rightarrow> (Some (Thrown ENOENT), es)
      | Some (Dir sub) \<Rightarrow>
          (case rename_entries pairs (map fst sub) sub of
             (Some e, sub') \<Rightarrow> (Some e, put_entry entry (Dir sub') es)
           | (None, sub') \<Rightarrow>
               (let es1 = put_entry entry (Dir sub') es
                in case rename_if_changed pairs entry es1 of
                     Inl e \<Rightarrow> (Some e, es1)
                   | Inr es2 \<Rightarrow> rename_entries pairs rest es2))
      | Some (File content) \<Rightarrow>
          (let es1 = rewrite_file pairs entry content es
           in case rename_if_changed pairs entry es1 of
                Inl e \<Rightarrow> (Some e, es1)
              | Inr es2 \<Rightarrow> rename_entries pairs rest es2))"
  by pat_completeness auto

text \<open>
  The walk ends because no step makes the directory larger: a rewrite keeps the tree's
  shape, a rename moves or replaces an entry.
\<close>

lemma node_size_map_of: "map_of es n = Some x \<Longrightarrow> node_size x \<le> entries_size es"
  by (induction es) (auto simp: entries_size_def split: if_splits)

lemma entries_size_put:
  "map_of es n = Some y \<Longrightarrow> node_size x \<le> node_size y \<Longrightarrow> entries_size (put_entry n x es) \<le> entries_size es"
  by (induction es) (auto simp: entries_size_def split: if_splits)

lemma entries_size_remove: "entries_size (remove_entry n es) \<le> entries_size es"
  by (induction es) (auto simp: entries_size_def)

lemma entries_size_rename_key: "entries_size (rename_key a b es) = entries_size es"
  by (induction es) (auto simp: entries_size_def)

lemma entries_size_rename_entry: "rename_entry a b es = Inr es' \<Longrightarrow> entries_size es' \<le> entries_size es"
  by (auto simp: rename_entry_def entries_size_rename_key entries_size_remove split: if_splits option.splits node.splits list.splits)

lemma entries_size_rename_if_changed: "rename_if_changed pairs a es = Inr es' \<Longrightarrow> entries_size es' \<le> entries_size es"
  by (auto simp: rename_if_changed_def Let_def dest: entries_size_rename_entry split: if_splits)

lemma entries_size_rewrite_file:
  "map_of es entry = Some (File content) \<Longrightarrow> entries_size (rewrite_file pairs entry content es) \<le> entries_size es"
  by (auto simp: rewrite_file_def Let_def intro: entries_size_put)

lemma rename_entries_size:
  "rename_entries_dom (pairs, names, es) \<Longrightarrow> entries_size (snd (rename_entries pairs names es)) \<le> entries_size es"
proof (induction pairs names es rule: rename_entries.pinduct)
  case (1 pairs es)
  then show ?case by (simp add: rename_entries.psimps)
next
  case (2 pairs entry rest es)
  show ?case
  proof (cases "map_of es entry")
    case None
    then show ?thesis using 2(1) by (simp add: rename_entries.psimps)
  next
    case (Some x)
    show ?thesis
    proof (cases x)
      case (File content)
      let ?es1 = "rewrite_file pairs entry content es"
      have s1: "entries_size ?es1 \<le> entries_size es"
        using Some File by (simp add: entries_size_rewrite_file)
      show ?thesis
      proof (cases "rename_if_changed pairs entry ?es1")
        case (Inl e)
        then show ?thesis using 2(1) Some File s1 by (simp add: rename_entries.psimps)
      next
        case (Inr es2)
        have "entries_size (snd (rename_entries pairs rest es2)) \<le> entries_size es2"
          using 2(2)[OF Some File refl Inr] .
        moreover have "entries_size es2 \<le> entries_size ?es1"
          using Inr by (rule entries_size_rename_if_changed)
        ultimately show ?thesis using 2(1) Some File s1 Inr by (simp add: rename_entries.psimps)
      qed
    next
      case (Dir sub)
      obtain r sub' where res: "rename_entries pairs (map fst sub) sub = (r, sub')"
        by (cases "rename_entries pairs (map fst sub) sub")
      have sub_le: "entries_size sub' \<le> entries_size sub"
        using 2(3)[OF Some Dir] res by simp
      let ?es1 = "put_entry entry (Dir sub') es"
      have "node_size (Dir sub') \<le> node_size (Dir sub)"
        using sub_le by (simp add: entries_size_def)
      then have s1: "entries_size ?es1 \<le> entries_size es"
        using Some Dir by (intro entries_size_put[where y = "Dir sub"]) simp_all
      show ?thesis
      proof (cases r)
        case (Some e)
        then show ?thesis using 2(1) \<open>map_of es entry = Some x\<close> Dir res s1
          by (simp add: rename_entries.psimps)
      next
        case None
        show ?thesis
        proof (cases "rename_if_changed pairs entry ?es1")
          case (Inl e)
          then show ?thesis using 2(1) Some Dir res None s1 by (simp add: rename_entries.psimps)
        next
          case (Inr es2)
          have "entries_size (snd (rename_entries pairs rest es2)) \<le> entries_size es2"
            using 2(4)[OF Some Dir res[symmetric] None refl Inr] .
          moreover have "entries_size es2 \<le> entries_size ?es1"
            using Inr by (rule entries_size_rename_if_changed)
          ultimately show ?thesis using 2(1) Some Dir res None s1 Inr
            by (simp add: rename_entries.psimps)
        qed
      qed
    qed
  qed
qed


termination rename_entries
proof (relation "(\<lambda>(pairs, names, es). entries_size es) <*mlex*> measure (\<lambda>(pairs, names, es). length names)", goal_cases)
  case 1
  then show ?case by (simp add: wf_mlex)
next
  case (2 pairs entry rest es x content es1 es2)
  have "entries_size es2 \<le> entries_size es1"
    using 2 by (auto dest: entries_size_rename_if_changed)
  also have "\<dots> \<le> entries_size es"
    using 2 by (simp add: entries_size_rewrite_file)
  finally show ?case by (auto intro: mlex_leq)
next
  case (3 pairs entry rest es x sub)
  have "entries_size sub < node_size (Dir sub)" by (simp add: entries_size_def)
  also have "\<dots> \<le> entries_size es" using node_size_map_of[of es entry "Dir sub"] 3 by simp
  finally show ?case by (simp add: mlex_less)
next
  case (4 pairs entry rest es x sub r sub' es1 es2)
  have "entries_size sub' \<le> entries_size sub"
    using rename_entries_size[OF 4(7)] 4(3) by (metis snd_conv)
  then have "node_size (Dir sub') \<le> node_size (Dir sub)"
    by (simp add: entries_size_def)
  then have "entries_size (put_entry entry (Dir sub') es) \<le> entries_size es"
    using 4(1,2) by (intro entries_size_put[where y = "Dir sub"]) simp_all
  then have "entries_size es1 \<le> entries_size es"
    using 4(5) by simp
  moreover have "entries_size es2 \<le> entries_size es1"
    using 4 by (auto dest: entries_size_rename_if_changed)
  ultimately show ?case by (auto intro: mlex_leq)
qed


definition applyRenameRecursive ::
  "filesystem \<Rightarrow> string \<Rightarrow> (string \<times> string) list \<Rightarrow> failure option \<times> filesystem" where
  "applyRenameRecursive fs dir pairs =
     (case fs dir of
        None \<Rightarrow> (Some (Thrown ENOENT), fs)
      | Some (File content) \<Rightarrow> (Some (Thrown ENOTDIR), fs)
      | Some (Dir es) \<Rightarrow>
          (case rename_entries pairs (map fst es) es of
             (r, es') \<Rightarrow> (r, fs(dir \<mapsto> Dir es'))))"

definition updateBarrelForRename ::
  "filesystem \<Rightarrow> string \<Rightarrow> string \<Rightarrow> string \<Rightarrow> config \<Rightarrow> failure option \<times> filesystem" where
  "updateBarrelForRename fs parentDir oldBasename newBasename config =
     (let barrelPath = path_join [parentDir, ''index.'' @ scriptExt (getExtensions config)]
      in case fs barrelPath of
           None \<Rightarrow> (None, fs)
         | Some (Dir es) \<Rightarrow> (Some (Thrown EISDIR), fs)
         | Some (File content) \<Rightarrow>
             let newContent =
                   join (split
                     (join (split content (''from '' @ quote @ ''./'' @ oldBasename @ quote))
                        (''from '' @ quote @ ''./'' @ newBasename @ quote))
                     (''as '' @ oldBasename @ '' }''))
                     (''as '' @ newBasename @ '' }'')
             in if newContent \<noteq> content then (None, fs(barrelPath \<mapsto> File newContent))
                else (None, fs))"

definition renameCommand ::
  "tables \<Rightarrow> config_file \<Rightarrow> string \<Rightarrow> filesystem \<Rightarrow> string \<Rightarrow> string \<Rightarrow> string \<Rightarrow>
   failure option \<times> filesystem" where
  "renameCommand T cf cwd fs type oldName newName =
     (if type \<notin> set RENAME_SUPPORTED_TYPES then (Some (Exit 1 (UnknownType type)), fs)
      else case validateName oldName type of
        Inl e \<Rightarrow> (Some e, fs)
      | Inr _ \<Rightarrow>
      (case validateName newName type of
        Inl e \<Rightarrow> (Some e, fs)
      | Inr _ \<Rightarrow>
      (case loadConfig cf of
        Inl e \<Rightarrow> (Some e, fs)
      | Inr config \<Rightarrow>
      (case getStructure T config of
        Inl e \<Rightarrow> (Some e, fs)
      | Inr structure \<Rightarrow>
      (case (resolveDir type oldName config structure cwd,
             resolveDir type newName config structure cwd) of
        (Some oldDir, Some newDir) \<Rightarrow>
          if \<not> pathExists fs oldDir
          then (Some (Exit 1 (NotFound type oldName (path_relative cwd oldDir))), fs)
          else if pathExists fs newDir
          then (Some (Exit 1 (AlreadyExists type newName (path_relative cwd newDir))), fs)
          else
            let pairs = buildReplacementPairs oldName newName
            in (case applyRenameRecursive fs oldDir pairs of
                  (Some e, fs1) \<Rightarrow> (Some e, fs1)
                | (None, fs1) \<Rightarrow>
                    let fs2 = fs1(oldDir := None, newDir := fs1 oldDir)
                    in if type \<noteq> ''feature''
                       then updateBarrelForRename fs2 (path_dirname newDir) (path_basename oldDir)
                              (path_basename newDir) config
                       else (None, fs2))
      | _ \<Rightarrow> (Some (Thrown TypeError), fs))))))"

section \<open>The remove command (commands/remove.js)\<close>

definition REMOVE_SUPPORTED_TYPES :: "string list" where
  "REMOVE_SUPPORTED_TYPES =
     [''component'', ''hook'', ''page'', ''service'', ''context'', ''store'', ''feature'']"

definition resolveTargetDir ::
  "string \<Rightarrow> string \<Rightarrow> config \<Rightarrow> path_structure \<Rightarrow> string \<Rightarrow> string option" where
  "resolveTargetDir type name config structure cwd =
     (let camel = toCamelCase name
      in if type = ''component'' then Some (path_join [cwd, componentPath structure (Some name) None, name])
         else if type = ''hook'' then Some (path_join [cwd, hookPath structure, ''use'' @ name])
         else if type = ''page'' then Some (path_join [cwd, pagePath structure, name])
         else if type = ''service'' then Some (path_join [cwd, servicePath structure, camel @ ''Service''])
         else if type = ''context'' then Some (path_join [cwd, contextPath structure, name @ ''Context''])
         else if type = ''store'' then Some (path_join [cwd, storePath structure, ''use'' @ name @ ''Store''])
         else if type = ''feature'' then Some (path_join [cwd, featurePath structure, name])
         else None)"

definition removeCommand ::
  "tables \<Rightarrow> config_file \<Rightarrow> string \<Rightarrow> filesystem \<Rightarrow> bool \<Rightarrow> string \<Rightarrow> string \<Rightarrow>
   failure option \<times> filesystem" where
  \<comment> \<open>\<open>confirm\<close> is the answer to the yes/no question\<close>
  "removeCommand T cf cwd fs confirm type name =
     (if type \<notin> set REMOVE_SUPPORTED_TYPES then (Some (Exit 1 (UnknownType type)), fs)
      else case validateName name type of
        Inl e \<Rightarrow> (Some e, fs)
      | Inr _ \<Rightarrow>
      (case loadConfig cf of
        Inl e \<Rightarrow> (Some e, fs)
      | Inr config \<Rightarrow>
      (case getStructure T config of
        Inl e \<Rightarrow> (Some e, fs)
      | Inr structure \<Rightarrow>
      (case resolveTargetDir type name config structure cwd of
        None \<Rightarrow> (Some (Thrown TypeError), fs)
      | Some targetDir \<Rightarrow>
          if \<not> pathExists fs targetDir
          then (Some (Exit 1 (NotFound type name (path_relative cwd targetDir))), fs)
          else if \<not> confirm then (None, fs)
          else (None, fs(targetDir := None))))))"

section \<open>The specification's own terms\<close>

definition matches_pascal_case :: "string \<Rightarrow> bool" where
  \<comment> \<open>the language of \<^verbatim>\<open>^[A-Z][a-zA-Z0-9]*$\<close>: not empty, an upper-case letter first, then
      letters and digits only\<close>
  "matches_pascal_case s =
     (s \<noteq> [] \<and> hd s \<in> set upper_chars \<and> set (tl s) \<subseteq> set (lower_chars @ upper_chars @ digit_chars))"

text \<open>
  Modelled from the spec: the structures of the feature-based pattern for both frameworks
  and of the atomic-design pattern for React, with the folders and paths the README and the
  tests give (\<^verbatim>\<open>src/structures\<close> is not at hand). They serve the closed examples only;
  every general statement below is about arbitrary tables.
\<close>

definition react_feature_based :: path_structure where
  "react_feature_based =
     \<lparr> folders = [''src/features'', ''src/components/shared'', ''src/hooks'', ''src/contexts'',
                   ''src/stores'', ''src/services'', ''src/utils'', ''src/types'', ''src/styles'',
                   ''src/assets''],
       componentPath = (\<lambda>name level. ''src/components/shared''),
       hookPath = ''src/hooks'',
       pagePath = ''src/features'',
       servicePath = ''src/services'',
       contextPath = ''src/contexts'',
       storePath = ''src/stores'',
       typePath = ''src/types'',
       featurePath = ''src/features'',
       apiPath = None \<rparr>"

definition react_atomic_design :: path_structure where
  "react_atomic_design =
     \<lparr> folders = [''src/components/atoms'', ''src/components/molecules'', ''src/components/organisms'',
                   ''src/components/templates'', ''src/components/pages'', ''src/hooks'',
                   ''src/contexts'', ''src/stores'', ''src/services'', ''src/utils'', ''src/types'',
                   ''src/styles'', ''src/assets''],
       componentPath = (\<lambda>name level.
          if level = Some ''molecule'' then ''src/components/molecules''
          else if level = Some ''organism'' then ''src/components/organisms''
          else if level = Some ''template'' then ''src/components/templates''
          else if level = Some ''page'' then ''src/components/pages''
          else ''src/components/atoms''),
       hookPath = ''src/hooks'',
       pagePath = ''src/components/pages'',
       servicePath = ''src/services'',
       contextPath = ''src/contexts'',
       storePath = ''src/stores'',
       typePath = ''src/types'',
       featurePath = ''src/features'',
       apiPath = None \<rparr>"

definition nextjs_feature_based :: path_structure where
  "nextjs_feature_based =
     \<lparr> folders = [''features'', ''components/shared'', ''hooks'', ''contexts'', ''stores'',
                   ''services'', ''utils'', ''types'', ''styles''],
       componentPath = (\<lambda>name level. ''components/shared''),
       hookPath = ''hooks'',
       pagePath = ''features'',
       servicePath = ''services'',
       contextPath = ''contexts'',
       storePath = ''stores'',
       typePath = ''types'',
       featurePath = ''features'',
       apiPath = Some ''app/api'' \<rparr>"

definition sample_tables :: tables where
  "sample_tables =
     \<lparr> reactStructures = [''feature-based'' \<mapsto> react_feature_based, ''atomic-design'' \<mapsto> react_atomic_design],
       nextjsStructures = [''feature-based'' \<mapsto> nextjs_feature_based] \<rparr>"

definition nextjs_config :: config where
  "nextjs_config =
     \<lparr> framework = ''nextjs'', pattern = ''feature-based'', language = ''typescript'',
       styling = ''css'', withTests = False, useClient = False \<rparr>"

definition base_config :: config where
  "base_config =
     \<lparr> framework = ''react'', pattern = ''feature-based'', language = ''typescript'',
       styling = ''css'', withTests = False, useClient = False \<rparr>"

text \<open>
  Replacing every occurrence of \<open>old\<close> by \<open>new\<close>: the string is read from the left, an
  occurrence is replaced where it is met and reading resumes behind it, so the occurrences
  replaced do not overlap. The pair list in the specification's notation follows.
\<close>

fun replace_all :: "string \<Rightarrow> string \<Rightarrow> string \<Rightarrow> string" where
  "replace_all old new [] = []"
| "replace_all old new (c # cs) =
     (if old \<noteq> [] \<and> startsWith (c # cs) old
      then new @ replace_all old new (drop (length old - 1) cs)
      else c # replace_all old new cs)"

definition spec_pairs :: "string \<Rightarrow> string \<Rightarrow> (string \<times> string) list" where
  "spec_pairs old new =
     [(''use'' @ old @ ''Store'', ''use'' @ new @ ''Store''),
      (old @ ''Context'', new @ ''Context''),
      (old @ ''Provider'', new @ ''Provider''),
      (old @ ''Page'', new @ ''Page''),
      (''use'' @ old, ''use'' @ new),
      (toCamelCase old @ ''Service'', toCamelCase new @ ''Service''),
      (toCamelCase old, toCamelCase new),
      (old, new)]"

text \<open>Calling \<open>updateBarrel\<close> \<open>k\<close> times in a row with the same arguments.\<close>

fun updateBarrel_times ::
  "nat \<Rightarrow> filesystem \<Rightarrow> string \<Rightarrow> string \<Rightarrow> string \<Rightarrow> string \<Rightarrow> failure + filesystem" where
  "updateBarrel_times 0 fs parentDir resourceName ext cwd = Inr fs"
| "updateBarrel_times (Suc k) fs parentDir resourceName ext cwd =
     (case updateBarrel fs parentDir resourceName ext cwd of
        Inl e \<Rightarrow> Inl e
      | Inr (r, fs') \<Rightarrow> updateBarrel_times k fs' parentDir resourceName ext cwd)"

text \<open>
  A configuration whose pattern is outside the enumerated domain, and the disk after
  \<^verbatim>\<open>add hook UseAuth\<close> in the sample project.
\<close>

definition unknown_pattern_config :: config where
  "unknown_pattern_config = base_config \<lparr> pattern := ''layered'' \<rparr>"

definition added_hook_fs :: filesystem where
  "added_hook_fs =
     [''/proj/src/hooks/useAuth'' \<mapsto>
        Dir [(''useAuth.ts'', File ''export default useAuth;''),
             (''index.ts'', File ''export { default } from ./useAuth;'')]]"

text \<open>
  What the resolution needs of a structure: no path function returns the empty string.
\<close>

definition paths_nonempty :: "path_structure \<Rightarrow> bool" where
  "paths_nonempty st =
     ((\<forall>n l. componentPath st n l \<noteq> []) \<and> hookPath st \<noteq> [] \<and> pagePath st \<noteq> [] \<and>
      servicePath st \<noteq> [] \<and> contextPath st \<noteq> [] \<and> storePath st \<noteq> [] \<and>
      featurePath st \<noteq> [] \<and> apiPath st \<noteq> Some [])"

definition prompt_answer :: "string option \<Rightarrow> string" where
  \<comment> \<open>the level chosen at the prompt of \<^verbatim>\<open>add\<close> that corresponds to the handler's argument\<close>
  "prompt_answer level = (case level of None \<Rightarrow> ''atom'' | Some l \<Rightarrow> if l = [] then ''atom'' else l)"




text \<open>
  What one walk of the rename engine makes of a directory when no renamed entry meets
  another one: every name is rewritten, and so is the content of every file whose name, as
  the walk finds it, has a text extension.
\<close>

fun renamed_node :: "(string \<times> string) list \<Rightarrow> string \<Rightarrow> node \<Rightarrow> node" where
  "renamed_node pairs name (File content) =
     File (if path_extname name \<in> TEXT_EXTENSIONS then applyReplacements content pairs
           else content)"
| "renamed_node pairs name (Dir es) =
     Dir (map (\<lambda>e. (applyReplacements (fst e) pairs, renamed_node pairs (fst e) (snd e))) es)"

definition renamed :: "(string \<times> string) list \<Rightarrow> entries \<Rightarrow> entries" where
  "renamed pairs es =
     map (\<lambda>e. (applyReplacements (fst e) pairs, renamed_node pairs (fst e) (snd e))) es"

text \<open>
  The names of one directory do not collide under a replacement list when they are
  distinct and no name that the list changes becomes the name of another entry.
\<close>

definition no_collision :: "(string \<times> string) list \<Rightarrow> string list \<Rightarrow> bool" where
  "no_collision pairs names =
     (distinct names \<and>
      (\<forall>n \<in> set names. applyReplacements n pairs \<noteq> n \<longrightarrow> applyReplacements n pairs \<notin> set names))"

text \<open>
  What a walk needs to be that map: at every depth the names do not collide and stay distinct
  when rewritten.
\<close>

fun walkable_node :: "(string \<times> string) list \<Rightarrow> node \<Rightarrow> bool" where
  "walkable_node pairs (File content) = True"
| "walkable_node pairs (Dir es) =
     (no_collision pairs (map fst es)
      \<and> distinct (map (\<lambda>e. applyReplacements (fst e) pairs) es)
      \<and> list_all (\<lambda>e. walkable_node pairs (snd e)) es)"

text \<open>
  A directory is restorable by the replacement lists \<open>there\<close> and \<open>home\<close> when, at every
  depth, its names do not collide under \<open>there\<close>, every name is itself again after \<open>there\<close>
  and then \<open>home\<close>, and so is the content of every file: a content is rewritten by
  \<open>there\<close> if the file's name has a text extension, and then by \<open>home\<close> if the rewritten
  name has one.
\<close>

fun restorable_node ::
  "(string \<times> string) list \<Rightarrow> (string \<times> string) list \<Rightarrow> string \<Rightarrow> node \<Rightarrow> bool" where
  "restorable_node there home name (File content) =
     (applyReplacements (applyReplacements name there) home = name
      \<and> renamed_node home (applyReplacements name there) (renamed_node there name (File content))
          = File content)"
| "restorable_node there home name (Dir es) =
     (applyReplacements (applyReplacements name there) home = name
      \<and> no_collision there (map fst es)
      \<and> list_all (\<lambda>e. restorable_node there home (fst e) (snd e)) es)"

definition restorable :: "(string \<times> string) list \<Rightarrow> (string \<times> string) list \<Rightarrow> entries \<Rightarrow> bool" where
  "restorable there home es =
     (no_collision there (map fst es)
      \<and> list_all (\<lambda>e. restorable_node there home (fst e) (snd e)) es)"

text \<open>
  The barrel of the parent directory, as \<open>updateBarrelForRename\<close> finds and rewrites it. It
  is restorable when both resource directories have the same parent, the barrel's path is not
  the new directory's, and the barrel is missing or is a file whose text is itself again after the
  two rewrites.
\<close>

definition barrelPath :: "string \<Rightarrow> config \<Rightarrow> string" where
  "barrelPath dir config =
     path_join [path_dirname dir, ''index.'' @ scriptExt (getExtensions config)]"






text \<open>
  A component \<^verbatim>\<open>Auth\<close> whose file calls the store hook \<^verbatim>\<open>useAuthStore\<close>, the disk after
  renaming it to \<^verbatim>\<open>AuthUser\<close>, and the disk after renaming it back.
\<close>

definition auth_store_call_fs :: filesystem where
  "auth_store_call_fs =
     [''/proj/src/components/shared/Auth'' \<mapsto>
        Dir [(''Auth.tsx'', File ''const s = useAuthStore();'')]]"

definition renamed_to_auth_user :: filesystem where
  "renamed_to_auth_user =
     snd (renameCommand sample_tables (Parsed base_config) ''/proj'' auth_store_call_fs
            ''component'' ''Auth'' ''AuthUser'')"

definition renamed_back_from_auth_user :: filesystem where
  "renamed_back_from_auth_user =
     snd (renameCommand sample_tables (Parsed base_config) ''/proj'' renamed_to_auth_user
            ''component'' ''AuthUser'' ''Auth'')"
section \<open>Letters and names\<close>

lemma toLowerCase_char_code: "is_upper c \<Longrightarrow> (of_char (toLowerCase_char c) :: nat) = of_char c + 32"
  by (auto simp: is_upper_def toLowerCase_char_def upper_chars_def lower_chars_def)

lemma toLowerCase_char_inj:
  assumes "is_upper c" "is_upper d" "toLowerCase_char c = toLowerCase_char d"
  shows "c = d"
proof -
  have "of_char c + 32 = (of_char (toLowerCase_char c) :: nat)"
    using toLowerCase_char_code[OF assms(1)] by (rule sym)
  also have "\<dots> = of_char (toLowerCase_char d)"
    by (simp only: assms(3))
  also have "\<dots> = of_char d + 32"
    by (rule toLowerCase_char_code[OF assms(2)])
  finally have "(of_char c :: nat) = of_char d"
    by (simp only: add_right_cancel)
  then show ?thesis by (simp only: of_char_eq_iff)
qed

lemma toLowerCase_char_lower: "is_upper c \<Longrightarrow> is_lower (toLowerCase_char c)"
  by (auto simp: is_upper_def is_lower_def toLowerCase_char_def upper_chars_def lower_chars_def)

lemma upper_not_lower: "is_upper c \<Longrightarrow> \<not> is_lower c"
  by (auto simp: is_upper_def is_lower_def upper_chars_def lower_chars_def)


lemma valid_name_Cons:
  "PASCAL_CASE_REGEX_test n \<Longrightarrow> \<exists>c cs. n = c # cs \<and> is_upper c"
  by (cases n) (simp_all add: PASCAL_CASE_REGEX_test_def)

lemma toCamelCase_Cons: "toCamelCase (c # cs) = toLowerCase_char c # cs"
  by (simp add: toCamelCase_def)

lemma toCamelCase_inj:
  assumes "PASCAL_CASE_REGEX_test a" "PASCAL_CASE_REGEX_test b" "toCamelCase a = toCamelCase b"
  shows "a = b"
proof -
  obtain c cs where a: "a = c # cs" "is_upper c" using valid_name_Cons[OF assms(1)] by blast
  obtain d ds where b: "b = d # ds" "is_upper d" using valid_name_Cons[OF assms(2)] by blast
  have "toLowerCase_char c = toLowerCase_char d" "cs = ds"
    using assms(3) a(1) b(1) by (simp_all add: toCamelCase_Cons)
  then show ?thesis using a b toLowerCase_char_inj by blast
qed

lemma valid_Auth_Cart: "PASCAL_CASE_REGEX_test ''Auth''" "PASCAL_CASE_REGEX_test ''Cart''"
  by (simp_all add: PASCAL_CASE_REGEX_test_def is_upper_def is_lower_def is_digit_def
      upper_chars_def lower_chars_def digit_chars_def)

section \<open>The sample project\<close>

lemma valid_Users: "PASCAL_CASE_REGEX_test ''Users''"
  by (simp add: PASCAL_CASE_REGEX_test_def is_upper_def is_lower_def is_digit_def
      upper_chars_def lower_chars_def digit_chars_def)

lemma sample_structures:
  "structure_of sample_tables base_config = Some react_feature_based"
  "structure_of sample_tables nextjs_config = Some nextjs_feature_based"
  by (simp_all add: structure_of_def sample_tables_def base_config_def nextjs_config_def)


section \<open>Name validation\<close>

lemma is_upper_not_space: "is_upper c \<Longrightarrow> \<not> is_space c"
  by (auto simp: is_upper_def is_space_def upper_chars_def)

lemma regex_test_iff: "PASCAL_CASE_REGEX_test s = matches_pascal_case s"
  by (cases s) (auto simp: PASCAL_CASE_REGEX_test_def matches_pascal_case_def is_upper_def
      is_lower_def is_digit_def list_all_iff)

lemma trim_nonempty: "PASCAL_CASE_REGEX_test s \<Longrightarrow> trim s \<noteq> []"
proof (cases s)
  case Nil
  then show "PASCAL_CASE_REGEX_test s \<Longrightarrow> ?thesis" by (simp add: PASCAL_CASE_REGEX_test_def)
next
  case (Cons c cs)
  assume "PASCAL_CASE_REGEX_test s"
  with Cons have "\<not> is_space c"
    by (simp add: PASCAL_CASE_REGEX_test_def is_upper_not_space)
  then have "dropWhile is_space s = s" using Cons by simp
  moreover have "dropWhile is_space (rev s) \<noteq> []"
    using Cons \<open>\<not> is_space c\<close> by (auto simp: dropWhile_eq_Nil_conv)
  ultimately show ?thesis by (simp add: trim_def)
qed

lemma validateName_valid: "PASCAL_CASE_REGEX_test name \<Longrightarrow> validateName name type = Inr True"
  using trim_nonempty[of name] by (auto simp: validateName_def PASCAL_CASE_REGEX_test_def)

text \<open>
  C8. \<open>validateName\<close> succeeds exactly on the strings of \<^verbatim>\<open>^[A-Z][a-zA-Z0-9]*$\<close> and ends the
  operation with exit code 1 on every other string; among the rejected are \<^verbatim>\<open>button\<close>,
  \<^verbatim>\<open>123bad\<close>, \<^verbatim>\<open>my-component\<close>, \<^verbatim>\<open>My_Component\<close>, the empty string and three spaces.
\<close>

theorem validateName_accepts_exactly:
  "(validateName name type = Inr True) = matches_pascal_case name
   \<and> (validateName name type = Inr True \<or> (\<exists>r. validateName name type = Inl (Exit 1 r)))
   \<and> validateName ''button'' type = Inl (Exit 1 (InvalidName ''button'' type))
   \<and> validateName ''123bad'' type = Inl (Exit 1 (InvalidName ''123bad'' type))
   \<and> validateName ''my-component'' type = Inl (Exit 1 (InvalidName ''my-component'' type))
   \<and> validateName ''My_Component'' type = Inl (Exit 1 (InvalidName ''My_Component'' type))
   \<and> validateName '''' type = Inl (Exit 1 (EmptyName type))
   \<and> validateName ''   '' type = Inl (Exit 1 (EmptyName type))"
proof -
  have accept: "(validateName name type = Inr True) = matches_pascal_case name"
  proof -
    have "matches_pascal_case name \<Longrightarrow> name \<noteq> [] \<and> trim name \<noteq> []"
      using trim_nonempty[of name] by (simp add: regex_test_iff matches_pascal_case_def)
    then show ?thesis by (auto simp: validateName_def regex_test_iff)
  qed
  have total: "validateName name type = Inr True \<or> (\<exists>r. validateName name type = Inl (Exit 1 r))"
    by (simp add: validateName_def)
  have examples:
    "validateName ''button'' type = Inl (Exit 1 (InvalidName ''button'' type))"
    "validateName ''123bad'' type = Inl (Exit 1 (InvalidName ''123bad'' type))"
    "validateName ''my-component'' type = Inl (Exit 1 (InvalidName ''my-component'' type))"
    "validateName ''My_Component'' type = Inl (Exit 1 (InvalidName ''My_Component'' type))"
    "validateName '''' type = Inl (Exit 1 (EmptyName type))"
    "validateName ''   '' type = Inl (Exit 1 (EmptyName type))"
    by (simp_all add: validateName_def PASCAL_CASE_REGEX_test_def trim_def is_space_def
        is_upper_def is_lower_def is_digit_def upper_chars_def lower_chars_def digit_chars_def)
  from accept total examples show ?thesis by blast
qed

theorem validateName_accepts_exactly_witness:
  "matches_pascal_case ''UserProfile2'' \<and> validateName ''UserProfile2'' ''component'' = Inr True
   \<and> \<not> matches_pascal_case ''userProfile'' \<and> validateName ''userProfile'' ''hook'' \<noteq> Inr True"
proof -
  have m: "matches_pascal_case ''UserProfile2''" "\<not> matches_pascal_case ''userProfile''"
    by (simp_all add: matches_pascal_case_def upper_chars_def lower_chars_def digit_chars_def)
  show ?thesis
    using m validateName_accepts_exactly[of "''UserProfile2''" "''component''"]
      validateName_accepts_exactly[of "''userProfile''" "''hook''"]
    by simp
qed


section \<open>Hook names\<close>

lemma toCamelCase_Auth: "toCamelCase ''Auth'' = ''auth''" "toCamelCase ''UseAuth'' = ''useAuth''"
  by (simp_all add: toCamelCase_def toLowerCase_char_def upper_chars_def lower_chars_def)

lemma hook_name_rule:
  "resolvedName (hookTemplate name config) =
     (if startsWith (toCamelCase name) ''use'' then toCamelCase name else ''use'' @ name)"
  by (simp add: hookTemplate_def Let_def)

text \<open>
  C7. Hook names are not prefixed twice: the template and the query handler both resolve a
  hook to \<^verbatim>\<open>use\<close> followed by the name, unless the camel-case name already starts with
  \<^verbatim>\<open>use\<close>, which is then the resolved name. \<^verbatim>\<open>Auth\<close> and \<^verbatim>\<open>UseAuth\<close> both resolve to
  \<^verbatim>\<open>useAuth\<close>, whatever the configuration, as long as its structure is in the table.
\<close>

theorem hook_name_never_double_prefixed:
  assumes "structure_of T config = Some st"
  shows "resolvedName (hookTemplate name config) =
           (if startsWith (toCamelCase name) ''use'' then toCamelCase name else ''use'' @ name)
       \<and> (\<exists>r. handleResolveResourcePath T (Parsed config) ''hook'' name level = Inr (PathPayload r)
              \<and> resolvedName r =
                  (if startsWith (toCamelCase name) ''use'' then toCamelCase name else ''use'' @ name))
       \<and> resolvedName (hookTemplate ''Auth'' config) = ''useAuth''
       \<and> resolvedName (hookTemplate ''UseAuth'' config) = ''useAuth''
       \<and> (\<exists>r. handleResolveResourcePath T (Parsed config) ''hook'' ''Auth'' level = Inr (PathPayload r)
              \<and> resolvedName r = ''useAuth'')
       \<and> (\<exists>r. handleResolveResourcePath T (Parsed config) ''hook'' ''UseAuth'' level = Inr (PathPayload r)
              \<and> resolvedName r = ''useAuth'')"
proof -
  have handler: "\<exists>r. handleResolveResourcePath T (Parsed config) ''hook'' n level = Inr (PathPayload r)
              \<and> resolvedName r =
                  (if startsWith (toCamelCase n) ''use'' then toCamelCase n else ''use'' @ n)" for n
    using assms by (simp add: handleResolveResourcePath_def SUPPORTED_def resolve_hook_def Let_def)
  have auth: "\<not> startsWith (toCamelCase ''Auth'') ''use''" "startsWith (toCamelCase ''UseAuth'') ''use''"
    by (simp_all add: toCamelCase_Auth startsWith_def)
  show ?thesis
    using handler[of name] handler[of "''Auth''"] handler[of "''UseAuth''"] auth
    by (simp add: hook_name_rule toCamelCase_Auth)
qed

theorem hook_name_never_double_prefixed_witness:
  "structure_of sample_tables base_config = Some react_feature_based
   \<and> resolvedName (hookTemplate ''UseAuth'' base_config) = ''useAuth''
   \<and> (\<exists>r. handleResolveResourcePath sample_tables (Parsed base_config) ''hook'' ''UseAuth'' None
            = Inr (PathPayload r) \<and> resolvedName r = ''useAuth'')"
proof -
  have s: "structure_of sample_tables base_config = Some react_feature_based"
    by (simp add: structure_of_def sample_tables_def base_config_def)
  show ?thesis
    using s hook_name_never_double_prefixed[OF s, of "''UseAuth''" None] by blast
qed

section \<open>Replacement pairs\<close>

lemma split_from_nonempty: "split_from sep acc s \<noteq> []"
  by (induction sep acc s rule: split_from.induct) auto

lemma join_Cons_nonempty: "ps \<noteq> [] \<Longrightarrow> join (p # ps) sep = p @ sep @ join ps sep"
  by (cases ps) simp_all

lemma join_split_from:
  "sep \<noteq> [] \<Longrightarrow> join (split_from sep acc s) new = rev acc @ replace_all sep new s"
  by (induction sep acc s rule: split_from.induct)
     (simp_all add: join_Cons_nonempty split_from_nonempty)

lemma join_split_replace_all: "old \<noteq> [] \<Longrightarrow> join (split s old) new = replace_all old new s"
  by (simp add: split_def join_split_from)

lemma applyReplacements_sequential:
  "\<forall>(a, b) \<in> set pairs. a \<noteq> [] \<Longrightarrow>
   applyReplacements s pairs = foldl (\<lambda>s (a, b). replace_all a b s) s pairs"
  unfolding applyReplacements_def
  by (induction pairs arbitrary: s) (auto simp: join_split_replace_all)

lemma buildReplacementPairs_sources:
  "oldName \<noteq> [] \<Longrightarrow> \<forall>(a, b) \<in> set (buildReplacementPairs oldName newName). a \<noteq> []"
  by (cases oldName) (auto simp: buildReplacementPairs_def Let_def toCamelCase_Cons)

text \<open>
  C5. For valid names the replacement pairs are, in this order, the store, context,
  provider, page, hook, service, camel-case and bare tokens of the old name, each with the
  same token of the new name, without the pairs whose two sides are equal (for valid names:
  all eight pairs when the names differ, none when they are equal). Applying the list
  replaces, pair after pair, every occurrence of the pair's source in the string the
  previous pairs have produced.
\<close>

theorem replacement_pairs_ordered_sequential:
  assumes "PASCAL_CASE_REGEX_test oldName" "PASCAL_CASE_REGEX_test newName"
  shows "buildReplacementPairs oldName newName = filter (\<lambda>(a, b). a \<noteq> b) (spec_pairs oldName newName)
       \<and> buildReplacementPairs oldName newName = (if oldName = newName then [] else spec_pairs oldName newName)
       \<and> applyReplacements s (buildReplacementPairs oldName newName) =
           foldl (\<lambda>s (a, b). replace_all a b s) s (buildReplacementPairs oldName newName)"
proof -
  have filtered: "buildReplacementPairs oldName newName = filter (\<lambda>(a, b). a \<noteq> b) (spec_pairs oldName newName)"
    by (simp add: buildReplacementPairs_def spec_pairs_def Let_def)
  have camel: "toCamelCase oldName = toCamelCase newName \<longleftrightarrow> oldName = newName"
    using toCamelCase_inj[OF assms] by blast
  have kept: "filter (\<lambda>(a, b). a \<noteq> b) (spec_pairs oldName newName) =
              (if oldName = newName then [] else spec_pairs oldName newName)"
    by (simp add: spec_pairs_def camel)
  have "oldName \<noteq> []" using assms(1) by (auto simp: PASCAL_CASE_REGEX_test_def)
  then have seq: "applyReplacements s (buildReplacementPairs oldName newName) =
           foldl (\<lambda>s (a, b). replace_all a b s) s (buildReplacementPairs oldName newName)"
    by (intro applyReplacements_sequential buildReplacementPairs_sources)
  from filtered kept seq show ?thesis by simp
qed

theorem replacement_pairs_ordered_sequential_witness:
  "PASCAL_CASE_REGEX_test ''Auth'' \<and> PASCAL_CASE_REGEX_test ''Cart''
   \<and> buildReplacementPairs ''Auth'' ''Cart'' =
       [(''useAuthStore'', ''useCartStore''), (''AuthContext'', ''CartContext''),
        (''AuthProvider'', ''CartProvider''), (''AuthPage'', ''CartPage''),
        (''useAuth'', ''useCart''), (''authService'', ''cartService''),
        (''auth'', ''cart''), (''Auth'', ''Cart'')]
   \<and> applyReplacements ''useAuthStore'' (buildReplacementPairs ''Auth'' ''Cart'') = ''useCartStore''"
proof -
  have pairs: "spec_pairs ''Auth'' ''Cart'' =
       [(''useAuthStore'', ''useCartStore''), (''AuthContext'', ''CartContext''),
        (''AuthProvider'', ''CartProvider''), (''AuthPage'', ''CartPage''),
        (''useAuth'', ''useCart''), (''authService'', ''cartService''),
        (''auth'', ''cart''), (''Auth'', ''Cart'')]"
    by (simp add: spec_pairs_def toCamelCase_def toLowerCase_char_def upper_chars_def lower_chars_def)
  have run: "foldl (\<lambda>s (a, b). replace_all a b s) ''useAuthStore'' (spec_pairs ''Auth'' ''Cart'') = ''useCartStore''"
    unfolding pairs by (simp add: startsWith_def)
  note t = replacement_pairs_ordered_sequential[OF valid_Auth_Cart, of "''useAuthStore''"]
  have "buildReplacementPairs ''Auth'' ''Cart'' =
          (if ''Auth'' = ''Cart'' then [] else spec_pairs ''Auth'' ''Cart'')"
    by (rule conjunct1[OF conjunct2[OF t]])
  then have b: "buildReplacementPairs ''Auth'' ''Cart'' = spec_pairs ''Auth'' ''Cart''"
    by simp
  have "applyReplacements ''useAuthStore'' (buildReplacementPairs ''Auth'' ''Cart'') =
        foldl (\<lambda>s (a, b). replace_all a b s) ''useAuthStore'' (buildReplacementPairs ''Auth'' ''Cart'')"
    by (rule conjunct2[OF conjunct2[OF t]])
  also have "\<dots> = ''useCartStore''"
    by (simp only: b run)
  finally show ?thesis
    using valid_Auth_Cart b pairs by simp
qed

section \<open>Types the commands support\<close>

lemma rename_entry_thrown: "rename_entry a b es = Inl e \<Longrightarrow> \<exists>x. e = Thrown x"
  by (auto simp: rename_entry_def split: if_splits option.splits node.splits list.splits)

lemma rename_if_changed_thrown: "rename_if_changed pairs a es = Inl e \<Longrightarrow> \<exists>x. e = Thrown x"
  by (auto simp: rename_if_changed_def Let_def dest: rename_entry_thrown split: if_splits)

lemma rename_entries_thrown:
  "rename_entries pairs names es = (Some e, es') \<Longrightarrow> \<exists>x. e = Thrown x"
proof (induction pairs names es arbitrary: e es' rule: rename_entries.induct)
  case (1 pairs es)
  then show ?case by simp
next
  case (2 pairs entry rest es)
  show ?case
  proof (cases "map_of es entry")
    case None
    then show ?thesis using 2(4) by auto
  next
    case (Some x)
    show ?thesis
    proof (cases x)
      case (File content)
      then show ?thesis
        using 2(1)[OF Some File refl] 2(4) Some
        by (auto simp: Let_def dest: rename_if_changed_thrown split: sum.splits)
    next
      case (Dir sub)
      obtain r sub' where res: "rename_entries pairs (map fst sub) sub = (r, sub')"
        by (cases "rename_entries pairs (map fst sub) sub")
      show ?thesis
      proof (cases r)
        case None
        then show ?thesis
          using 2(3)[OF Some Dir res[symmetric] None refl] 2(4) Some Dir res
          by (auto simp: Let_def dest: rename_if_changed_thrown split: sum.splits)
      next
        case (Some e0)
        then show ?thesis
          using 2(2)[OF \<open>map_of es entry = Some x\<close> Dir, of e0 sub'] 2(4) \<open>map_of es entry = Some x\<close> Dir res
          by auto
      qed
    qed
  qed
qed

lemma validateName_not_unknown: "validateName n t \<noteq> Inl (Exit 1 (UnknownType u))"
  by (simp add: validateName_def)

lemma applyRenameRecursive_thrown:
  "applyRenameRecursive fs0 d ps = (Some e, fs') \<Longrightarrow> \<exists>x. e = Thrown x"
  by (auto simp: applyRenameRecursive_def split: option.splits node.splits prod.splits
      dest: rename_entries_thrown)

lemma updateBarrelForRename_thrown:
  "updateBarrelForRename fs0 p a b c = (Some e, fs') \<Longrightarrow> \<exists>x. e = Thrown x"
  by (auto simp: updateBarrelForRename_def Let_def split: option.splits node.splits if_splits)

lemma updateBarrelForRename_not_exit:
  "fst (updateBarrelForRename fs0 p a b c) \<noteq> Some (Exit k r)"
  using updateBarrelForRename_thrown[of fs0 p a b c "Exit k r"]
  by (cases "updateBarrelForRename fs0 p a b c") auto

lemma renameCommand_known_type:
  assumes "type \<in> set RENAME_SUPPORTED_TYPES"
  shows "fst (renameCommand T cf cwd fs type oldName newName) \<noteq> Some (Exit 1 (UnknownType u))"
  using assms validateName_not_unknown
  by (auto simp: renameCommand_def loadConfig_def getStructure_def Let_def
      split: sum.splits config_file.splits option.splits prod.splits if_splits
      dest: applyRenameRecursive_thrown simp: updateBarrelForRename_not_exit)

lemma removeCommand_known_type:
  assumes "type \<in> set REMOVE_SUPPORTED_TYPES"
  shows "fst (removeCommand T cf cwd fs confirm type name) \<noteq> Some (Exit 1 (UnknownType u))"
  using assms validateName_not_unknown
  by (auto simp: removeCommand_def loadConfig_def getStructure_def Let_def
      split: sum.splits config_file.splits option.splits if_splits)

text \<open>
  C10. \<^verbatim>\<open>rename\<close> and \<^verbatim>\<open>remove\<close> support the types component, hook, page, service, context,
  store and feature, and no other: they end with the unknown-type error, the file system
  as it was, exactly for the types outside this list, whatever the names. \<^verbatim>\<open>type\<close> and
  \<^verbatim>\<open>api\<close> are outside it, though \<^verbatim>\<open>add\<close> supports both.
\<close>

theorem rename_remove_supported_types:
  "(type \<notin> set [''component'', ''hook'', ''page'', ''service'', ''context'', ''store'', ''feature'']
      \<longrightarrow> renameCommand T cf cwd fs type oldName newName = (Some (Exit 1 (UnknownType type)), fs)
        \<and> removeCommand T cf cwd fs confirm type name = (Some (Exit 1 (UnknownType type)), fs))
   \<and> renameCommand T cf cwd fs ''type'' oldName newName = (Some (Exit 1 (UnknownType ''type'')), fs)
   \<and> renameCommand T cf cwd fs ''api'' oldName newName = (Some (Exit 1 (UnknownType ''api'')), fs)
   \<and> removeCommand T cf cwd fs confirm ''type'' name = (Some (Exit 1 (UnknownType ''type'')), fs)
   \<and> removeCommand T cf cwd fs confirm ''api'' name = (Some (Exit 1 (UnknownType ''api'')), fs)
   \<and> ''type'' \<in> set SUPPORTED \<and> ''api'' \<in> set SUPPORTED
   \<and> addCommand T cf cwd fs answer ''type'' name \<noteq> Inl (Exit 1 (UnknownType ''type''))
   \<and> addCommand T cf cwd fs answer ''api'' name \<noteq> Inl (Exit 1 (UnknownType ''api''))
   \<and> (fst (renameCommand T cf cwd fs type oldName newName) = Some (Exit 1 (UnknownType type))) =
       (type \<notin> set [''component'', ''hook'', ''page'', ''service'', ''context'', ''store'', ''feature''])
   \<and> (fst (removeCommand T cf cwd fs confirm type name) = Some (Exit 1 (UnknownType type))) =
       (type \<notin> set [''component'', ''hook'', ''page'', ''service'', ''context'', ''store'', ''feature''])"
proof -
  have known: "type \<in> set RENAME_SUPPORTED_TYPES \<Longrightarrow>
      fst (renameCommand T cf cwd fs type oldName newName) \<noteq> Some (Exit 1 (UnknownType type))
      \<and> fst (removeCommand T cf cwd fs confirm type name) \<noteq> Some (Exit 1 (UnknownType type))"
    using renameCommand_known_type removeCommand_known_type
    by (simp add: RENAME_SUPPORTED_TYPES_def REMOVE_SUPPORTED_TYPES_def)
  have unknown: "type \<notin> set RENAME_SUPPORTED_TYPES \<Longrightarrow>
      renameCommand T cf cwd fs type oldName newName = (Some (Exit 1 (UnknownType type)), fs)
      \<and> removeCommand T cf cwd fs confirm type name = (Some (Exit 1 (UnknownType type)), fs)" for type
    by (simp add: renameCommand_def removeCommand_def RENAME_SUPPORTED_TYPES_def
        REMOVE_SUPPORTED_TYPES_def)
  have t: "''type'' \<notin> set RENAME_SUPPORTED_TYPES" "''api'' \<notin> set RENAME_SUPPORTED_TYPES"
    by (simp_all add: RENAME_SUPPORTED_TYPES_def)
  have add_type: "addCommand T cf cwd fs answer ''type'' name \<noteq> Inl (Exit 1 (UnknownType ''type''))"
    by (auto simp: addCommand_def SUPPORTED_def loadConfig_def getStructure_def addType_def
        validateName_def Let_def split: config_file.splits option.splits sum.splits)
  have add_api: "addCommand T cf cwd fs answer ''api'' name \<noteq> Inl (Exit 1 (UnknownType ''api''))"
    by (auto simp: addCommand_def SUPPORTED_def loadConfig_def getStructure_def addApi_def
        validateName_def Let_def split: config_file.splits option.splits sum.splits)
  have iff: "(fst (renameCommand T cf cwd fs type oldName newName) = Some (Exit 1 (UnknownType type))) =
       (type \<notin> set RENAME_SUPPORTED_TYPES)"
     "(fst (removeCommand T cf cwd fs confirm type name) = Some (Exit 1 (UnknownType type))) =
       (type \<notin> set RENAME_SUPPORTED_TYPES)"
    using known unknown[of type] by auto
  have sup: "''type'' \<in> set SUPPORTED" "''api'' \<in> set SUPPORTED"
    by (simp_all add: SUPPORTED_def)
  show ?thesis
    using unknown[of type] unknown[OF t(1)] unknown[OF t(2)] add_type add_api iff sup
    unfolding RENAME_SUPPORTED_TYPES_def by blast
qed

theorem rename_remove_supported_types_witness:
  "''widget'' \<notin> set [''component'', ''hook'', ''page'', ''service'', ''context'', ''store'', ''feature'']
   \<and> renameCommand \<lparr>reactStructures = Map.empty, nextjsStructures = Map.empty\<rparr> NoFile ''/proj'' Map.empty
         ''widget'' ''Button'' ''PrimaryButton'' = (Some (Exit 1 (UnknownType ''widget'')), Map.empty)
   \<and> removeCommand \<lparr>reactStructures = Map.empty, nextjsStructures = Map.empty\<rparr> NoFile ''/proj'' Map.empty
         True ''widget'' ''Button'' = (Some (Exit 1 (UnknownType ''widget'')), Map.empty)"
  using rename_remove_supported_types[of "''widget''"
      "\<lparr>reactStructures = Map.empty, nextjsStructures = Map.empty\<rparr>" NoFile "''/proj''" Map.empty
      "''Button''" "''PrimaryButton''" True "''Button''"]
  by simp

section \<open>Barrel updater\<close>

lemma includes_str_here: "includes_str (p @ b) p"
proof (cases "p @ b")
  case Nil
  then show ?thesis by simp
next
  case (Cons a l)
  have "startsWith (p @ b) p" by (simp add: startsWith_def)
  then show ?thesis unfolding Cons by simp
qed

lemma includes_str_append_left: "includes_str s p \<Longrightarrow> includes_str (a @ s) p"
  by (induction a) (auto simp: startsWith_def)

lemma includes_str_middle: "includes_str (a @ p @ b) p"
  by (rule includes_str_append_left) (rule includes_str_here)

lemma exportLine_includes:
  "includes_str (existing @ exportLine n) (''from '' @ quote @ ''./'' @ n @ quote)"
proof -
  have "existing @ exportLine n =
        (existing @ ''export { default as '' @ n @ '' } '') @ (''from '' @ quote @ ''./'' @ n @ quote) @ ('';'' @ [CHR 0x0A])"
    by (simp add: exportLine_def)
  then show ?thesis by (simp only: includes_str_middle)
qed

lemma updateBarrel_skips:
  assumes "fs (path_join [parentDir, ''index.'' @ ext]) = Some (File c)"
    "includes_str c (''from '' @ quote @ ''./'' @ n @ quote)"
  shows "updateBarrel fs parentDir n ext cwd =
           Inr ((skipped, path_relative cwd (path_join [parentDir, ''index.'' @ ext])), fs)"
  using assms by (simp add: updateBarrel_def Let_def)

lemma updateBarrel_times_skips:
  assumes "fs (path_join [parentDir, ''index.'' @ ext]) = Some (File c)"
    "includes_str c (''from '' @ quote @ ''./'' @ n @ quote)"
  shows "updateBarrel_times k fs parentDir n ext cwd = Inr fs"
  using updateBarrel_skips[where fs = fs and parentDir = parentDir and ext = ext and c = c and n = n and cwd = cwd] assms
  by (induction k) simp_all

lemma updateBarrel_first:
  assumes "updateBarrel fs parentDir n ext cwd = Inr ((a, rel), fs1)"
  shows "rel = path_relative cwd (path_join [parentDir, ''index.'' @ ext])
       \<and> (\<exists>c. fs1 (path_join [parentDir, ''index.'' @ ext]) = Some (File c)
              \<and> includes_str c (''from '' @ quote @ ''./'' @ n @ quote))
       \<and> (fs1 = fs
          \<or> (\<exists>existing. fs (path_join [parentDir, ''index.'' @ ext]) = Some (File existing)
                \<and> fs1 = fs(path_join [parentDir, ''index.'' @ ext] \<mapsto> File (existing @ exportLine n)))
          \<or> (fs (path_join [parentDir, ''index.'' @ ext]) = None
                \<and> fs1 = fs(path_join [parentDir, ''index.'' @ ext] \<mapsto> File (exportLine n))))"
  using assms exportLine_includes[of "[]" n] exportLine_includes[of _ n]
  by (auto simp: updateBarrel_def Let_def split: option.splits node.splits if_splits)

text \<open>
  C6. \<open>updateBarrel\<close> is idempotent: after a call that returned, a second call with the
  same arguments reports \<^verbatim>\<open>skipped\<close> and leaves the file system, the barrel with it, as the
  first call left it; so does any number of further calls. The first call leaves the
  barrel as it was, or appends the export line once, or creates the barrel with that one
  line: no sequence of calls writes the line twice.
\<close>

theorem updateBarrel_idempotent:
  assumes "updateBarrel fs parentDir resourceName ext cwd = Inr ((action, rel), fs1)"
  shows "updateBarrel fs1 parentDir resourceName ext cwd = Inr ((skipped, rel), fs1)
       \<and> updateBarrel_times (Suc k) fs parentDir resourceName ext cwd = Inr fs1
       \<and> (fs1 = fs
          \<or> (\<exists>existing. fs (path_join [parentDir, ''index.'' @ ext]) = Some (File existing)
                \<and> fs1 = fs(path_join [parentDir, ''index.'' @ ext] \<mapsto> File (existing @ exportLine resourceName)))
          \<or> (fs (path_join [parentDir, ''index.'' @ ext]) = None
                \<and> fs1 = fs(path_join [parentDir, ''index.'' @ ext] \<mapsto> File (exportLine resourceName))))"
proof -
  note first = updateBarrel_first[OF assms]
  then obtain c where c: "fs1 (path_join [parentDir, ''index.'' @ ext]) = Some (File c)"
      "includes_str c (''from '' @ quote @ ''./'' @ resourceName @ quote)"
    by blast
  have second: "updateBarrel fs1 parentDir resourceName ext cwd = Inr ((skipped, rel), fs1)"
    using updateBarrel_skips[where fs = fs1 and parentDir = parentDir and ext = ext and c = c
        and n = resourceName and cwd = cwd] c first by simp
  have many: "updateBarrel_times (Suc k) fs parentDir resourceName ext cwd = Inr fs1"
    using assms updateBarrel_times_skips[where fs = fs1 and parentDir = parentDir and ext = ext
        and c = c and n = resourceName and cwd = cwd and k = k] c by simp
  show ?thesis using second many first by blast
qed

theorem updateBarrel_idempotent_witness:
  "updateBarrel Map.empty ''/proj/src/hooks'' ''useAuth'' ''ts'' ''/proj'' =
     Inr ((created, ''src/hooks/index.ts''), [''/proj/src/hooks/index.ts'' \<mapsto> File (exportLine ''useAuth'')])
   \<and> updateBarrel [''/proj/src/hooks/index.ts'' \<mapsto> File (exportLine ''useAuth'')]
        ''/proj/src/hooks'' ''useAuth'' ''ts'' ''/proj'' =
     Inr ((skipped, ''src/hooks/index.ts''), [''/proj/src/hooks/index.ts'' \<mapsto> File (exportLine ''useAuth'')])"
proof -
  have p: "path_join [''/proj/src/hooks'', ''index.ts''] = ''/proj/src/hooks/index.ts''"
    by (simp add: path_join_def path_normalize_def split_def startsWith_def)
  have r: "path_relative ''/proj'' ''/proj/src/hooks/index.ts'' = ''src/hooks/index.ts''"
    by (simp add: path_relative_def path_normalize_def split_def startsWith_def)
  have first: "updateBarrel Map.empty ''/proj/src/hooks'' ''useAuth'' ''ts'' ''/proj'' =
     Inr ((created, ''src/hooks/index.ts''), [''/proj/src/hooks/index.ts'' \<mapsto> File (exportLine ''useAuth'')])"
    by (simp add: updateBarrel_def p r)
  show ?thesis
    using first conjunct1[OF updateBarrel_idempotent[OF first, of 0]] by simp
qed

section \<open>API routes\<close>

lemma api_message_mentions_nextjs:
  "includes_str ''API routes are only supported for Next.js projects.'' ''Next.js''"
  "includes_str (error_text ApiOnlyNextjs) ''Next.js''"
  by (simp_all add: error_text_def startsWith_def)

text \<open>
  C9. For a valid name and a configuration whose structure is in the table: under the
  framework \<^verbatim>\<open>react\<close>, resolving an \<^verbatim>\<open>api\<close> resource returns an error payload, and adding
  one exits with code 1, both errors mentioning Next.js, and neither gives a directory;
  under \<^verbatim>\<open>nextjs\<close>, resolving returns the directory \<^verbatim>\<open>apiPath()/camelCase(name)\<close> with the
  files \<^verbatim>\<open>[route.S]\<close>, and adding writes \<^verbatim>\<open>route.S\<close> into that directory under the project
  root, provided the directory does not exist yet.
\<close>

theorem api_requires_nextjs:
  assumes "PASCAL_CASE_REGEX_test name" "structure_of T config = Some st"
  shows "(framework config = ''react'' \<longrightarrow>
            (\<exists>msg. handleResolveResourcePath T (Parsed config) ''api'' name level = Inr (ErrorPayload msg)
                   \<and> includes_str msg ''Next.js'')
          \<and> (\<exists>reason. addCommand T (Parsed config) cwd fs answer ''api'' name = Inl (Exit 1 reason)
                   \<and> includes_str (error_text reason) ''Next.js''))
       \<and> (framework config = ''nextjs'' \<longrightarrow> (\<forall>api. apiPath st = Some api \<longrightarrow>
            handleResolveResourcePath T (Parsed config) ''api'' name level =
              Inr (PathPayload
                \<lparr> files = [''route.'' @ scriptExt (getExtensions config)],
                  resolvedName = toCamelCase name,
                  resource_type = ''api'', resource_name = name,
                  directory = api @ ''/'' @ toCamelCase name,
                  path_note = Some (ApiNormalized (toCamelCase name)) \<rparr>)
          \<and> (\<not> pathExists fs (path_join [cwd, api, toCamelCase name]) \<longrightarrow>
               addCommand T (Parsed config) cwd fs answer ''api'' name =
                 Inr \<lparr> scaffold_dir = path_join [cwd, api, toCamelCase name],
                       written = [''route.'' @ scriptExt (getExtensions config)],
                       barrel = None \<rparr>)))"
proof (intro conjI impI allI)
  assume "framework config = ''react''"
  then show "\<exists>msg. handleResolveResourcePath T (Parsed config) ''api'' name level = Inr (ErrorPayload msg)
                   \<and> includes_str msg ''Next.js''"
    using api_message_mentions_nextjs
    by (simp add: handleResolveResourcePath_def SUPPORTED_def resolve_api_def Let_def)
next
  assume "framework config = ''react''"
  then have "addCommand T (Parsed config) cwd fs answer ''api'' name = Inl (Exit 1 ApiOnlyNextjs)"
    using assms
    by (simp add: addCommand_def SUPPORTED_def loadConfig_def getStructure_def addApi_def
        validateName_valid)
  then show "\<exists>reason. addCommand T (Parsed config) cwd fs answer ''api'' name = Inl (Exit 1 reason)
                   \<and> includes_str (error_text reason) ''Next.js''"
    using api_message_mentions_nextjs by simp
next
  fix api assume "framework config = ''nextjs''" "apiPath st = Some api"
  then show "handleResolveResourcePath T (Parsed config) ''api'' name level =
              Inr (PathPayload
                \<lparr> files = [''route.'' @ scriptExt (getExtensions config)],
                  resolvedName = toCamelCase name,
                  resource_type = ''api'', resource_name = name,
                  directory = api @ ''/'' @ toCamelCase name,
                  path_note = Some (ApiNormalized (toCamelCase name)) \<rparr>)"
    using assms
    by (simp add: handleResolveResourcePath_def SUPPORTED_def resolve_api_def Let_def)
next
  fix api assume "framework config = ''nextjs''" "apiPath st = Some api"
    "\<not> pathExists fs (path_join [cwd, api, toCamelCase name])"
  then show "addCommand T (Parsed config) cwd fs answer ''api'' name =
                 Inr \<lparr> scaffold_dir = path_join [cwd, api, toCamelCase name],
                       written = [''route.'' @ scriptExt (getExtensions config)],
                       barrel = None \<rparr>"
    using assms
    by (simp add: addCommand_def SUPPORTED_def loadConfig_def getStructure_def addApi_def
        validateName_valid apiTemplate_def object_keys_def assign_key_def getExtensions_def Let_def)
qed


theorem api_requires_nextjs_witness:
  "PASCAL_CASE_REGEX_test ''Users''
   \<and> structure_of sample_tables base_config = Some react_feature_based
   \<and> framework base_config = ''react''
   \<and> (\<exists>msg. handleResolveResourcePath sample_tables (Parsed base_config) ''api'' ''Users'' None = Inr (ErrorPayload msg)
            \<and> includes_str msg ''Next.js'')
   \<and> (\<exists>reason. addCommand sample_tables (Parsed base_config) ''/proj'' Map.empty ''atom'' ''api'' ''Users'' = Inl (Exit 1 reason)
            \<and> includes_str (error_text reason) ''Next.js'')
   \<and> structure_of sample_tables nextjs_config = Some nextjs_feature_based
   \<and> framework nextjs_config = ''nextjs''
   \<and> apiPath nextjs_feature_based = Some ''app/api''
   \<and> \<not> pathExists Map.empty (path_join [''/proj'', ''app/api'', toCamelCase ''Users''])
   \<and> addCommand sample_tables (Parsed nextjs_config) ''/proj'' Map.empty ''atom'' ''api'' ''Users'' =
        Inr \<lparr> scaffold_dir = ''/proj/app/api/users'', written = [''route.ts''], barrel = None \<rparr>"
proof -
  note react = api_requires_nextjs[OF valid_Users sample_structures(1),
      of None "''/proj''" Map.empty "''atom''"]
  note nextjs = api_requires_nextjs[OF valid_Users sample_structures(2),
      of None "''/proj''" Map.empty "''atom''"]
  have fr: "framework base_config = ''react''" "framework nextjs_config = ''nextjs''"
    by (simp_all add: base_config_def nextjs_config_def)
  have api: "apiPath nextjs_feature_based = Some ''app/api''"
    by (simp add: nextjs_feature_based_def)
  have free: "\<not> pathExists Map.empty (path_join [''/proj'', ''app/api'', toCamelCase ''Users''])"
    by (simp add: pathExists_def)
  have dir: "path_join [''/proj'', ''app/api'', toCamelCase ''Users''] = ''/proj/app/api/users''"
    by (simp add: path_join_def path_normalize_def split_def startsWith_def toCamelCase_def
        toLowerCase_char_def upper_chars_def lower_chars_def)
  have ext: "scriptExt (getExtensions nextjs_config) = ''ts''"
    by (simp add: getExtensions_def nextjs_config_def)
  have "addCommand sample_tables (Parsed nextjs_config) ''/proj'' Map.empty ''atom'' ''api'' ''Users'' =
        Inr \<lparr> scaffold_dir = ''/proj/app/api/users'', written = [''route.ts''], barrel = None \<rparr>"
    using nextjs fr(2) api free by (simp add: dir ext)
  then show ?thesis
    using react fr api free valid_Users sample_structures by simp
qed

section \<open>Errors of the query handlers\<close>

lemma handler_raises_without_structure:
  assumes "structure_of T config = None" "type \<in> set SUPPORTED"
    "type = ''api'' \<longrightarrow> framework config = ''nextjs''"
  shows "handleResolveResourcePath T (Parsed config) type name level = Inl (Thrown TypeError)"
  using assms
  by (auto simp: handleResolveResourcePath_def SUPPORTED_def resolve_component_def resolve_hook_def
      resolve_page_def resolve_service_def resolve_context_def resolve_store_def resolve_type_def
      resolve_api_def resolve_feature_def Let_def)

text \<open>
  C3. The handlers do raise. With a configuration whose pattern the table does not hold,
  \<open>handleResolveResourcePath\<close> calls a path function of an undefined structure and a
  \<^verbatim>\<open>TypeError\<close> escapes, where \<open>handleGetArchitectureGuide\<close>, which tests the structure
  first, returns the error payload; and a configuration file that is not JSON makes every
  handler raise from \<^verbatim>\<open>readJsonSync\<close>.
\<close>

theorem resolve_raises_on_unknown_pattern:
  "handleResolveResourcePath sample_tables (Parsed unknown_pattern_config) ''hook'' ''Auth'' None
     = Inl (Thrown TypeError)
   \<and> handleGetArchitectureGuide sample_tables (Parsed unknown_pattern_config)
     = Inr (Inl ''Unknown pattern \"layered\" in .rchitect.json.'')
   \<and> handleGetProjectConfig Malformed = Inl (Thrown SyntaxError)"
proof -
  have s: "structure_of sample_tables unknown_pattern_config = None"
    by (simp add: structure_of_def sample_tables_def unknown_pattern_config_def base_config_def)
  have "handleResolveResourcePath sample_tables (Parsed unknown_pattern_config) ''hook'' ''Auth'' None
     = Inl (Thrown TypeError)"
    by (rule handler_raises_without_structure[OF s]) (simp_all add: SUPPORTED_def)
  moreover have "handleGetArchitectureGuide sample_tables (Parsed unknown_pattern_config)
     = Inr (Inl ''Unknown pattern \"layered\" in .rchitect.json.'')"
    by (simp add: handleGetArchitectureGuide_def s) (simp add: unknown_pattern_config_def)
  moreover have "handleGetProjectConfig Malformed = Inl (Thrown SyntaxError)"
    by (simp add: handleGetProjectConfig_def)
  ultimately show ?thesis by simp
qed

section \<open>The two resolutions agree\<close>

lemma join_two: "a \<noteq> [] \<Longrightarrow> b \<noteq> [] \<Longrightarrow>
  join (filter (\<lambda>a. a \<noteq> []) [cwd, a, b]) ''/'' = join (filter (\<lambda>a. a \<noteq> []) [cwd, a @ ''/'' @ b]) ''/''"
  by simp

lemma path_join_nested:
  assumes "a \<noteq> []" "b \<noteq> []"
  shows "path_join [cwd, a, b] = path_join [cwd, a @ ''/'' @ b]"
  unfolding path_join_def join_two[OF assms, of cwd] by (rule refl)

lemma object_keys_acc:
  "distinct (acc @ ks) \<Longrightarrow> foldl (\<lambda>acc k. assign_key k acc) acc ks = acc @ ks"
  by (induction ks arbitrary: acc) (simp_all add: assign_key_def)

lemma object_keys_distinct: "distinct ks \<Longrightarrow> object_keys ks = ks"
  using object_keys_acc[of "[]" ks] by (simp add: object_keys_def)

lemma assign_key_new: "k \<notin> set ks \<Longrightarrow> assign_key k ks = ks @ [k]"
  by (simp add: assign_key_def)

lemma valid_append_neq_lower:
  assumes "PASCAL_CASE_REGEX_test n" "is_lower c"
  shows "n @ s \<noteq> c # t" "c # t \<noteq> n @ s"
proof -
  obtain d ds where n: "n = d # ds" "is_upper d" using valid_name_Cons[OF assms(1)] by blast
  have "d \<noteq> c" using n(2) assms(2) upper_not_lower by blast
  then show "n @ s \<noteq> c # t" "c # t \<noteq> n @ s" using n(1) by auto
qed

lemma append_neq_short:
  "length b < length s \<Longrightarrow> a @ s \<noteq> b" "length b < length s \<Longrightarrow> b \<noteq> a @ s"
  by (auto dest: arg_cong[where f = length])

lemma is_lower_i: "is_lower (CHR ''i'')"
  by (simp add: is_lower_def lower_chars_def)

lemma componentTemplate_keys:
  assumes "PASCAL_CASE_REGEX_test name"
  shows "componentTemplate name config lvl =
           [name @ ''.'' @ compExt (getExtensions config),
            name @ ''.module.'' @ styleExt (getExtensions config),
            ''index.'' @ scriptExt (getExtensions config)]
           @ (if withTests config then [name @ ''.test.'' @ compExt (getExtensions config)] else [])"
proof -
  note neq = valid_append_neq_lower[OF assms is_lower_i]
  have d: "distinct [name @ ''.'' @ compExt (getExtensions config),
            name @ ''.module.'' @ styleExt (getExtensions config),
            ''index.'' @ scriptExt (getExtensions config)]"
    using neq by (simp add: getExtensions_def)
  have t: "name @ ''.test.'' @ compExt (getExtensions config) \<notin> set [name @ ''.'' @ compExt (getExtensions config),
            name @ ''.module.'' @ styleExt (getExtensions config),
            ''index.'' @ scriptExt (getExtensions config)]"
    using neq by (simp add: getExtensions_def)
  show ?thesis
    unfolding componentTemplate_def Let_def object_keys_distinct[OF d]
    using assign_key_new[OF t] by simp
qed


lemma pageTemplate_keys:
  assumes "PASCAL_CASE_REGEX_test name"
  shows "pageTemplate name config =
           [name @ ''Page.'' @ compExt (getExtensions config),
            name @ ''Page.module.'' @ styleExt (getExtensions config),
            ''index.'' @ scriptExt (getExtensions config)]
           @ (if withTests config then [name @ ''Page.test.'' @ compExt (getExtensions config)] else [])"
proof -
  note neq = valid_append_neq_lower[OF assms is_lower_i]
  have d: "distinct [name @ ''Page.'' @ compExt (getExtensions config),
            name @ ''Page.module.'' @ styleExt (getExtensions config),
            ''index.'' @ scriptExt (getExtensions config)]"
    using neq by (simp add: getExtensions_def)
  have t: "name @ ''Page.test.'' @ compExt (getExtensions config) \<notin> set [name @ ''Page.'' @ compExt (getExtensions config),
            name @ ''Page.module.'' @ styleExt (getExtensions config),
            ''index.'' @ scriptExt (getExtensions config)]"
    using neq by (simp add: getExtensions_def)
  show ?thesis
    unfolding pageTemplate_def Let_def object_keys_distinct[OF d]
    using assign_key_new[OF t] by simp
qed

lemma two_keys:
  assumes "n @ ''.'' @ e \<noteq> ''index.'' @ e'" "n @ ''.test.'' @ e \<noteq> ''index.'' @ e'"
  shows "object_keys [n @ ''.'' @ e, ''index.'' @ e'] = [n @ ''.'' @ e, ''index.'' @ e']"
    "assign_key (n @ ''.test.'' @ e) [n @ ''.'' @ e, ''index.'' @ e'] =
       [n @ ''.'' @ e, ''index.'' @ e', n @ ''.test.'' @ e]"
  using assms by (simp_all add: object_keys_distinct assign_key_new)

lemma use_name_neq_index: "(''use'' @ n) @ s \<noteq> ''index.'' @ e"
  by simp

lemma hookName_neq_index:
  "(if startsWith (toCamelCase name) ''use'' then toCamelCase name else ''use'' @ name) @ s \<noteq> ''index.'' @ e"
proof (cases "startsWith (toCamelCase name) ''use''")
  case True
  then obtain rest where "toCamelCase name = ''use'' @ rest"
    by (metis append_take_drop_id startsWith_def)
  then show ?thesis using True by simp
next
  case False
  then show ?thesis by simp
qed

lemma hookTemplate_keys:
  "hookTemplate name config =
     \<lparr> files =
         [(if startsWith (toCamelCase name) ''use'' then toCamelCase name else ''use'' @ name) @ ''.'' @
            scriptExt (getExtensions config),
          ''index.'' @ scriptExt (getExtensions config)]
         @ (if withTests config
            then [(if startsWith (toCamelCase name) ''use'' then toCamelCase name else ''use'' @ name) @
                    ''.test.'' @ scriptExt (getExtensions config)]
            else []),
       resolvedName = (if startsWith (toCamelCase name) ''use'' then toCamelCase name else ''use'' @ name) \<rparr>"
  unfolding hookTemplate_def Let_def
  using two_keys[OF hookName_neq_index hookName_neq_index, of name "scriptExt (getExtensions config)"
      "scriptExt (getExtensions config)"]
  by simp

lemma service_neq_index: "(c @ ''Service'') @ ''.'' @ e \<noteq> ''index.'' @ e'"
  "(c @ ''Service'') @ ''.test.'' @ e \<noteq> ''index.'' @ e'"
  if "length e = length e'" for c e e'
  using that by (auto dest: arg_cong[where f = length])

lemma scriptExt_length: "length (scriptExt (getExtensions config)) = 2"
  by (simp add: getExtensions_def)

lemma serviceTemplate_keys:
  "serviceTemplate name config =
     \<lparr> files =
         [(toCamelCase name @ ''Service'') @ ''.'' @ scriptExt (getExtensions config),
          ''index.'' @ scriptExt (getExtensions config)]
         @ (if withTests config
            then [(toCamelCase name @ ''Service'') @ ''.test.'' @ scriptExt (getExtensions config)]
            else []),
       resolvedName = toCamelCase name @ ''Service'' \<rparr>"
  unfolding serviceTemplate_def Let_def
  using two_keys[OF service_neq_index[OF refl] , of "toCamelCase name" "scriptExt (getExtensions config)"]
  by simp

lemma contextTemplate_keys:
  assumes "PASCAL_CASE_REGEX_test name"
  shows "contextTemplate name config =
     \<lparr> files =
         [(name @ ''Context'') @ ''.'' @ compExt (getExtensions config),
          ''index.'' @ scriptExt (getExtensions config)]
         @ (if withTests config
            then [(name @ ''Context'') @ ''.test.'' @ compExt (getExtensions config)]
            else []),
       resolvedName = name @ ''Context'' \<rparr>"
proof -
  note neq = valid_append_neq_lower[OF assms is_lower_i]
  have "(name @ ''Context'') @ ''.'' @ compExt (getExtensions config) \<noteq> ''index.'' @ scriptExt (getExtensions config)"
    "(name @ ''Context'') @ ''.test.'' @ compExt (getExtensions config) \<noteq> ''index.'' @ scriptExt (getExtensions config)"
    using neq by simp_all
  from two_keys[OF this] show ?thesis
    unfolding contextTemplate_def Let_def by simp
qed

lemma storeTemplate_keys:
  "storeTemplate name config =
     \<lparr> files =
         [(''use'' @ name @ ''Store'') @ ''.'' @ scriptExt (getExtensions config),
          ''index.'' @ scriptExt (getExtensions config)]
         @ (if withTests config
            then [(''use'' @ name @ ''Store'') @ ''.test.'' @ scriptExt (getExtensions config)]
            else []),
       resolvedName = ''use'' @ name @ ''Store'' \<rparr>"
proof -
  have "(''use'' @ name @ ''Store'') @ ''.'' @ scriptExt (getExtensions config) \<noteq> ''index.'' @ scriptExt (getExtensions config)"
    "(''use'' @ name @ ''Store'') @ ''.test.'' @ scriptExt (getExtensions config) \<noteq> ''index.'' @ scriptExt (getExtensions config)"
    by simp_all
  from two_keys[OF this] show ?thesis
    unfolding storeTemplate_def Let_def by simp
qed

lemma typeTemplate_keys:
  "typeTemplate name config =
     \<lparr> files = [(name @ ''.types'') @ ''.'' @ scriptExt (getExtensions config)],
       resolvedName = name @ ''.types'' \<rparr>"
  by (simp add: typeTemplate_def Let_def object_keys_def assign_key_def)

lemma apiTemplate_keys:
  "apiTemplate name config =
     \<lparr> files = [''route.'' @ scriptExt (getExtensions config)], resolvedName = toCamelCase name \<rparr>"
  by (simp add: apiTemplate_def Let_def object_keys_def assign_key_def getExtensions_def)


lemma featureTemplate_keys:
  assumes "PASCAL_CASE_REGEX_test name"
  shows "featureTemplate name config =
     \<lparr> files =
         [''components/'' @ name @ ''View/'' @ name @ ''View.'' @ compExt (getExtensions config),
          ''components/'' @ name @ ''View/'' @ name @ ''View.module.'' @ styleExt (getExtensions config),
          ''components/'' @ name @ ''View/index.'' @ scriptExt (getExtensions config),
          ''hooks/'' @ (''use'' @ name) @ ''/'' @ (''use'' @ name) @ ''.'' @ scriptExt (getExtensions config),
          ''hooks/'' @ (''use'' @ name) @ ''/index.'' @ scriptExt (getExtensions config),
          ''services/'' @ (toCamelCase name @ ''Service'') @ ''/'' @ (toCamelCase name @ ''Service'') @ ''.'' @
            scriptExt (getExtensions config),
          ''services/'' @ (toCamelCase name @ ''Service'') @ ''/index.'' @ scriptExt (getExtensions config),
          ''types.'' @ scriptExt (getExtensions config),
          ''index.'' @ scriptExt (getExtensions config)]
         @ (if withTests config
            then [''components/'' @ name @ ''View/'' @ name @ ''View.test.'' @ compExt (getExtensions config),
                  ''hooks/'' @ (''use'' @ name) @ ''/'' @ (''use'' @ name) @ ''.test.'' @
                    scriptExt (getExtensions config)]
            else []),
       resolvedName = name \<rparr>"
proof -
  let ?ce = "compExt (getExtensions config)"
  let ?se = "scriptExt (getExtensions config)"
  let ?ye = "styleExt (getExtensions config)"
  let ?S = "toCamelCase name @ ''Service''"
  let ?ks = "[''components/'' @ name @ ''View/'' @ name @ ''View.'' @ ?ce,
          ''components/'' @ name @ ''View/'' @ name @ ''View.module.'' @ ?ye,
          ''components/'' @ name @ ''View/index.'' @ ?se,
          ''hooks/'' @ (''use'' @ name) @ ''/'' @ (''use'' @ name) @ ''.'' @ ?se,
          ''hooks/'' @ (''use'' @ name) @ ''/index.'' @ ?se,
          ''services/'' @ ?S @ ''/'' @ ?S @ ''.'' @ ?se,
          ''services/'' @ ?S @ ''/index.'' @ ?se,
          ''types.'' @ ?se,
          ''index.'' @ ?se]"
  note neq = valid_append_neq_lower[OF assms is_lower_i]
  have d: "distinct ?ks"
    using neq by (simp add: append_neq_short getExtensions_def)
  have t1: "''components/'' @ name @ ''View/'' @ name @ ''View.test.'' @ ?ce \<notin> set ?ks"
    using neq by (simp add: getExtensions_def)
  have t2: "''hooks/'' @ (''use'' @ name) @ ''/'' @ (''use'' @ name) @ ''.test.'' @ ?se
      \<notin> set (?ks @ [''components/'' @ name @ ''View/'' @ name @ ''View.test.'' @ ?ce])"
    by simp
  show ?thesis
    unfolding featureTemplate_def Let_def object_keys_distinct[OF d]
    using assign_key_new[OF t1] assign_key_new[OF t2] by simp
qed


lemma valid_nonempty: "PASCAL_CASE_REGEX_test name \<Longrightarrow> name \<noteq> []"
  by (auto simp: PASCAL_CASE_REGEX_test_def)

lemma handler_dispatch:
  assumes "structure_of T config = Some st"
  shows "handleResolveResourcePath T (Parsed config) type name level =
     (if type = ''component'' then resolve_component (Some st) config name level
      else if type = ''hook'' then resolve_hook (Some st) config name
      else if type = ''page'' then resolve_page (Some st) config name
      else if type = ''service'' then resolve_service (Some st) config name
      else if type = ''context'' then resolve_context (Some st) config name
      else if type = ''store'' then resolve_store (Some st) config name
      else if type = ''type'' then resolve_type (Some st) config name
      else if type = ''api'' then resolve_api (Some st) config name
      else if type = ''feature'' then resolve_feature (Some st) config name
      else Inr (ErrorPayload (''Unknown type \"'' @ type @ ''\". Supported: '' @ join SUPPORTED '', '' @ ''.'')))"
  using assms by (simp add: handleResolveResourcePath_def SUPPORTED_def)

lemma add_dispatch:
  assumes "structure_of T config = Some st"
  shows "addCommand T (Parsed config) cwd fs answer type name =
     (if type = ''component'' then addComponent name config st cwd fs answer
      else if type = ''hook'' then addHook name config st cwd fs
      else if type = ''page'' then addPage name config st cwd fs
      else if type = ''service'' then addService name config st cwd fs
      else if type = ''context'' then addContext name config st cwd fs
      else if type = ''store'' then addStore name config st cwd fs
      else if type = ''type'' then addType name config st cwd fs
      else if type = ''api'' then addApi name config st cwd fs
      else if type = ''feature'' then addFeature name config st cwd fs
      else Inl (Exit 1 (UnknownType type)))"
  using assms by (simp add: addCommand_def SUPPORTED_def loadConfig_def getStructure_def)

lemma agree_component:
  assumes "PASCAL_CASE_REGEX_test name" "paths_nonempty st"
    "resolve_component (Some st) config name level = Inr (PathPayload r)"
    "\<not> pathExists fs (path_join [cwd, directory r])"
  shows "\<exists>b. addComponent name config st cwd fs (prompt_answer level) =
           Inr \<lparr> scaffold_dir = path_join [cwd, directory r], written = files r, barrel = b \<rparr>"
    "componentTemplate name config lvl = files r"
    "resolvedName r = name" "hd (files r) = resolvedName r @ ''.'' @ compExt (getExtensions config)"
proof -
  have ne: "name \<noteq> []" "\<And>n l. componentPath st n l \<noteq> []"
    using assms(1,2) by (simp_all add: valid_nonempty paths_nonempty_def)
  have lvl: "(if \<not> truthy level then Some ''atom'' else level) = Some (prompt_answer level)"
    by (auto simp: truthy_def prompt_answer_def split: option.splits)
  have r: "r = \<lparr> files = componentTemplate name config lvl, resolvedName = name,
             resource_type = ''component'', resource_name = name,
             directory = componentPath st (Some name)
                (if pattern config = ''atomic-design'' then Some (prompt_answer level) else None) @ ''/'' @ name,
             path_note = path_note r \<rparr>"
    using assms(3) lvl
    by (auto simp: resolve_component_def Let_def componentTemplate_keys[OF assms(1)])
  show c: "componentTemplate name config lvl = files r" using r by (metis template_result.select_convs(1))
  show "resolvedName r = name" using r by (metis template_result.select_convs(2))
  then show "hd (files r) = resolvedName r @ ''.'' @ compExt (getExtensions config)"
    using c[symmetric] by (simp add: componentTemplate_keys[OF assms(1)])
  have d: "directory r = componentPath st (Some name)
                (if pattern config = ''atomic-design'' then Some (prompt_answer level) else None) @ ''/'' @ name"
    using r by (metis resolved_path.select_convs(3))
  have f: "componentTemplate name config l' = files r" for l'
    using c by (simp add: componentTemplate_keys[OF assms(1)])
  have pj: "path_join [cwd, componentPath st (Some name) l', name] =
            path_join [cwd, componentPath st (Some name) l' @ ''/'' @ name]" for l'
    by (rule path_join_nested) (use ne in auto)
  show "\<exists>b. addComponent name config st cwd fs (prompt_answer level) =
           Inr \<lparr> scaffold_dir = path_join [cwd, directory r], written = files r, barrel = b \<rparr>"
  proof (cases "pattern config = ''atomic-design''")
    case True
    then show ?thesis
      using assms(4) pj[of "Some (prompt_answer level)"]
      by (simp add: addComponent_def validateName_valid[OF assms(1)] Let_def d f)
  next
    case False
    then show ?thesis
      using assms(4) pj[of None]
      by (simp add: addComponent_def validateName_valid[OF assms(1)] Let_def d f)
  qed
qed


lemma agree_hook:
  assumes "PASCAL_CASE_REGEX_test name" "paths_nonempty st"
    "resolve_hook (Some st) config name = Inr (PathPayload r)"
    "\<not> pathExists fs (path_join [cwd, directory r])"
  shows "\<exists>b. addHook name config st cwd fs =
           Inr \<lparr> scaffold_dir = path_join [cwd, directory r], written = files r, barrel = b \<rparr>"
    "files (hookTemplate name config) = files r"
    "resolvedName (hookTemplate name config) = resolvedName r"
proof -
  have ne: "hookPath st \<noteq> []" "(if startsWith (toCamelCase name) ''use'' then toCamelCase name else ''use'' @ name) \<noteq> []"
    using assms(1,2) by (auto simp: valid_nonempty paths_nonempty_def startsWith_def)
  have r: "files r = files (hookTemplate name config)"
    "resolvedName r = (if startsWith (toCamelCase name) ''use'' then toCamelCase name else ''use'' @ name)"
    "directory r = hookPath st @ ''/'' @ (if startsWith (toCamelCase name) ''use'' then toCamelCase name else ''use'' @ name)"
    using assms(3) by (auto simp: resolve_hook_def Let_def hookTemplate_keys)
  show "files (hookTemplate name config) = files r" using r(1) by simp
  show n: "resolvedName (hookTemplate name config) = resolvedName r"
    using r(2) by (simp add: hookTemplate_keys)
  have pj: "path_join [cwd, hookPath st, (if startsWith (toCamelCase name) ''use'' then toCamelCase name else ''use'' @ name)] = path_join [cwd, directory r]"
    unfolding r(3) by (rule path_join_nested) (use ne in auto)
  show "\<exists>b. addHook name config st cwd fs =
           Inr \<lparr> scaffold_dir = path_join [cwd, directory r], written = files r, barrel = b \<rparr>"
    using assms(4) pj n r
    by (simp add: addHook_def validateName_valid[OF assms(1)] Let_def)
qed

lemma agree_service:
  assumes "PASCAL_CASE_REGEX_test name" "paths_nonempty st"
    "resolve_service (Some st) config name = Inr (PathPayload r)"
    "\<not> pathExists fs (path_join [cwd, directory r])"
  shows "\<exists>b. addService name config st cwd fs =
           Inr \<lparr> scaffold_dir = path_join [cwd, directory r], written = files r, barrel = b \<rparr>"
    "files (serviceTemplate name config) = files r"
    "resolvedName (serviceTemplate name config) = resolvedName r"
proof -
  have ne: "servicePath st \<noteq> []" "(toCamelCase name @ ''Service'') \<noteq> []"
    using assms(1,2) by (auto simp: valid_nonempty paths_nonempty_def startsWith_def)
  have r: "files r = files (serviceTemplate name config)"
    "resolvedName r = (toCamelCase name @ ''Service'')"
    "directory r = servicePath st @ ''/'' @ (toCamelCase name @ ''Service'')"
    using assms(3) by (auto simp: resolve_service_def Let_def serviceTemplate_keys)
  show "files (serviceTemplate name config) = files r" using r(1) by simp
  show n: "resolvedName (serviceTemplate name config) = resolvedName r"
    using r(2) by (simp add: serviceTemplate_keys)
  have pj: "path_join [cwd, servicePath st, (toCamelCase name @ ''Service'')] = path_join [cwd, directory r]"
    unfolding r(3) by (rule path_join_nested) (use ne in auto)
  show "\<exists>b. addService name config st cwd fs =
           Inr \<lparr> scaffold_dir = path_join [cwd, directory r], written = files r, barrel = b \<rparr>"
    using assms(4) pj n r
    by (simp add: addService_def validateName_valid[OF assms(1)] Let_def)
qed

lemma agree_context:
  assumes "PASCAL_CASE_REGEX_test name" "paths_nonempty st"
    "resolve_context (Some st) config name = Inr (PathPayload r)"
    "\<not> pathExists fs (path_join [cwd, directory r])"
  shows "\<exists>b. addContext name config st cwd fs =
           Inr \<lparr> scaffold_dir = path_join [cwd, directory r], written = files r, barrel = b \<rparr>"
    "files (contextTemplate name config) = files r"
    "resolvedName (contextTemplate name config) = resolvedName r"
proof -
  have ne: "contextPath st \<noteq> []" "(name @ ''Context'') \<noteq> []"
    using assms(1,2) by (auto simp: valid_nonempty paths_nonempty_def startsWith_def)
  have r: "files r = files (contextTemplate name config)"
    "resolvedName r = (name @ ''Context'')"
    "directory r = contextPath st @ ''/'' @ (name @ ''Context'')"
    using assms(3) by (auto simp: resolve_context_def Let_def contextTemplate_keys[OF assms(1)])
  show "files (contextTemplate name config) = files r" using r(1) by simp
  show n: "resolvedName (contextTemplate name config) = resolvedName r"
    using r(2) by (simp add: contextTemplate_keys[OF assms(1)])
  have pj: "path_join [cwd, contextPath st, (name @ ''Context'')] = path_join [cwd, directory r]"
    unfolding r(3) by (rule path_join_nested) (use ne in auto)
  show "\<exists>b. addContext name config st cwd fs =
           Inr \<lparr> scaffold_dir = path_join [cwd, directory r], written = files r, barrel = b \<rparr>"
    using assms(4) pj n r
    by (simp add: addContext_def validateName_valid[OF assms(1)] Let_def)
qed

lemma agree_store:
  assumes "PASCAL_CASE_REGEX_test name" "paths_nonempty st"
    "resolve_store (Some st) config name = Inr (PathPayload r)"
    "\<not> pathExists fs (path_join [cwd, directory r])"
  shows "\<exists>b. addStore name config st cwd fs =
           Inr \<lparr> scaffold_dir = path_join [cwd, directory r], written = files r, barrel = b \<rparr>"
    "files (storeTemplate name config) = files r"
    "resolvedName (storeTemplate name config) = resolvedName r"
proof -
  have ne: "storePath st \<noteq> []" "(''use'' @ name @ ''Store'') \<noteq> []"
    using assms(1,2) by (auto simp: valid_nonempty paths_nonempty_def startsWith_def)
  have r: "files r = files (storeTemplate name config)"
    "resolvedName r = (''use'' @ name @ ''Store'')"
    "directory r = storePath st @ ''/'' @ (''use'' @ name @ ''Store'')"
    using assms(3) by (auto simp: resolve_store_def Let_def storeTemplate_keys)
  show "files (storeTemplate name config) = files r" using r(1) by simp
  show n: "resolvedName (storeTemplate name config) = resolvedName r"
    using r(2) by (simp add: storeTemplate_keys)
  have pj: "path_join [cwd, storePath st, (''use'' @ name @ ''Store'')] = path_join [cwd, directory r]"
    unfolding r(3) by (rule path_join_nested) (use ne in auto)
  show "\<exists>b. addStore name config st cwd fs =
           Inr \<lparr> scaffold_dir = path_join [cwd, directory r], written = files r, barrel = b \<rparr>"
    using assms(4) pj n r
    by (simp add: addStore_def validateName_valid[OF assms(1)] Let_def)
qed


lemma agree_page:
  assumes "PASCAL_CASE_REGEX_test name" "paths_nonempty st"
    "resolve_page (Some st) config name = Inr (PathPayload r)"
    "\<not> pathExists fs (path_join [cwd, directory r])"
  shows "\<exists>b. addPage name config st cwd fs =
           Inr \<lparr> scaffold_dir = path_join [cwd, directory r], written = files r, barrel = b \<rparr>"
    "pageTemplate name config = files r"
    "resolvedName r = name @ ''Page''"
    "hd (files r) = resolvedName r @ ''.'' @ compExt (getExtensions config)"
proof -
  have ne: "pagePath st \<noteq> []" "name \<noteq> []"
    using assms(1,2) by (auto simp: valid_nonempty paths_nonempty_def)
  have r: "files r = pageTemplate name config"
    "resolvedName r = name @ ''Page''"
    "directory r = pagePath st @ ''/'' @ name"
    using assms(3) by (auto simp: resolve_page_def Let_def pageTemplate_keys[OF assms(1)])
  show "pageTemplate name config = files r" using r(1) by simp
  show "resolvedName r = name @ ''Page''" by (rule r(2))
  show "hd (files r) = resolvedName r @ ''.'' @ compExt (getExtensions config)"
    unfolding r(1,2) by (simp add: pageTemplate_keys[OF assms(1)])
  have pj: "path_join [cwd, pagePath st, name] = path_join [cwd, directory r]"
    unfolding r(3) by (rule path_join_nested) (use ne in auto)
  show "\<exists>b. addPage name config st cwd fs =
           Inr \<lparr> scaffold_dir = path_join [cwd, directory r], written = files r, barrel = b \<rparr>"
    using assms(4) pj r
    by (simp add: addPage_def validateName_valid[OF assms(1)] Let_def)
qed

lemma agree_type:
  assumes "PASCAL_CASE_REGEX_test name"
    "resolve_type (Some st) config name = Inr (PathPayload r)"
  shows "\<exists>b. addType name config st cwd fs =
           Inr \<lparr> scaffold_dir = path_join [cwd, directory r], written = files r, barrel = b \<rparr>"
    "files (typeTemplate name config) = files r"
    "resolvedName (typeTemplate name config) = resolvedName r"
proof -
  have r: "files r = files (typeTemplate name config)"
    "resolvedName r = name @ ''.types''"
    "directory r = typePath st"
    using assms(2) by (auto simp: resolve_type_def Let_def typeTemplate_keys)
  show "files (typeTemplate name config) = files r" using r(1) by simp
  show "resolvedName (typeTemplate name config) = resolvedName r"
    using r(2) by (simp add: typeTemplate_keys)
  show "\<exists>b. addType name config st cwd fs =
           Inr \<lparr> scaffold_dir = path_join [cwd, directory r], written = files r, barrel = b \<rparr>"
    using r by (simp add: addType_def validateName_valid[OF assms(1)] Let_def)
qed

lemma agree_api:
  assumes "PASCAL_CASE_REGEX_test name" "paths_nonempty st"
    "resolve_api (Some st) config name = Inr (PathPayload r)"
    "\<not> pathExists fs (path_join [cwd, directory r])"
  shows "\<exists>b. addApi name config st cwd fs =
           Inr \<lparr> scaffold_dir = path_join [cwd, directory r], written = files r, barrel = b \<rparr>"
    "files (apiTemplate name config) = files r"
    "resolvedName (apiTemplate name config) = resolvedName r"
proof -
  have fw: "framework config = ''nextjs''"
    using assms(3) by (auto simp: resolve_api_def Let_def split: if_splits)
  then obtain api where api: "apiPath st = Some api"
    using assms(3) by (auto simp: resolve_api_def Let_def split: option.splits)
  have ne: "api \<noteq> []" "toCamelCase name \<noteq> []"
    using assms(1,2) api valid_name_Cons[OF assms(1)]
    by (auto simp: paths_nonempty_def toCamelCase_Cons)
  have r: "files r = files (apiTemplate name config)"
    "resolvedName r = toCamelCase name"
    "directory r = api @ ''/'' @ toCamelCase name"
    using assms(3) fw api by (auto simp: resolve_api_def Let_def apiTemplate_keys)
  show "files (apiTemplate name config) = files r" using r(1) by simp
  show n: "resolvedName (apiTemplate name config) = resolvedName r"
    using r(2) by (simp add: apiTemplate_keys)
  have pj: "path_join [cwd, api, toCamelCase name] = path_join [cwd, directory r]"
    unfolding r(3) by (rule path_join_nested) (use ne in auto)
  show "\<exists>b. addApi name config st cwd fs =
           Inr \<lparr> scaffold_dir = path_join [cwd, directory r], written = files r, barrel = b \<rparr>"
    using assms(4) pj n r fw api
    by (simp add: addApi_def validateName_valid[OF assms(1)] Let_def)
qed

lemma agree_feature:
  assumes "PASCAL_CASE_REGEX_test name" "paths_nonempty st"
    "resolve_feature (Some st) config name = Inr (PathPayload r)"
    "\<not> pathExists fs (path_join [cwd, directory r])"
  shows "\<exists>b. addFeature name config st cwd fs =
           Inr \<lparr> scaffold_dir = path_join [cwd, directory r], written = files r, barrel = b \<rparr>"
    "files (featureTemplate name config) = files r"
    "resolvedName (featureTemplate name config) = resolvedName r"
proof -
  have ne: "featurePath st \<noteq> []" "name \<noteq> []"
    using assms(1,2) by (auto simp: valid_nonempty paths_nonempty_def)
  have r: "files r = files (featureTemplate name config)"
    "resolvedName r = name"
    "directory r = featurePath st @ ''/'' @ name"
    using assms(3) by (auto simp: resolve_feature_def Let_def featureTemplate_keys[OF assms(1)])
  show "files (featureTemplate name config) = files r" using r(1) by simp
  show n: "resolvedName (featureTemplate name config) = resolvedName r"
    using r(2) by (simp add: featureTemplate_keys[OF assms(1)])
  have pj: "path_join [cwd, featurePath st, name] = path_join [cwd, directory r]"
    unfolding r(3) by (rule path_join_nested) (use ne in auto)
  show "\<exists>b. addFeature name config st cwd fs =
           Inr \<lparr> scaffold_dir = path_join [cwd, directory r], written = files r, barrel = b \<rparr>"
    using assms(4) pj n r
    by (simp add: addFeature_def validateName_valid[OF assms(1)] Let_def featureTemplate_keys[OF assms(1)])
qed


lemma resolution_agrees_resolved:
  assumes "PASCAL_CASE_REGEX_test name" "structure_of T config = Some st" "paths_nonempty st"
    "handleResolveResourcePath T (Parsed config) type name level = Inr (PathPayload r)"
    "type = ''type'' \<or> \<not> pathExists fs (path_join [cwd, directory r])"
  shows "(\<exists>b. addCommand T (Parsed config) cwd fs (prompt_answer level) type name =
             Inr \<lparr> scaffold_dir = path_join [cwd, directory r], written = files r, barrel = b \<rparr>)
       \<and> (type = ''component'' \<longrightarrow>
             componentTemplate name config lvl = files r
           \<and> hd (files r) = resolvedName r @ ''.'' @ compExt (getExtensions config))
       \<and> (type = ''page'' \<longrightarrow>
             pageTemplate name config = files r
           \<and> hd (files r) = resolvedName r @ ''.'' @ compExt (getExtensions config))
       \<and> (type = ''hook'' \<longrightarrow>
             files (hookTemplate name config) = files r
           \<and> resolvedName (hookTemplate name config) = resolvedName r)
       \<and> (type = ''service'' \<longrightarrow>
             files (serviceTemplate name config) = files r
           \<and> resolvedName (serviceTemplate name config) = resolvedName r)
       \<and> (type = ''context'' \<longrightarrow>
             files (contextTemplate name config) = files r
           \<and> resolvedName (contextTemplate name config) = resolvedName r)
       \<and> (type = ''store'' \<longrightarrow>
             files (storeTemplate name config) = files r
           \<and> resolvedName (storeTemplate name config) = resolvedName r)
       \<and> (type = ''type'' \<longrightarrow>
             files (typeTemplate name config) = files r
           \<and> resolvedName (typeTemplate name config) = resolvedName r)
       \<and> (type = ''api'' \<longrightarrow>
             files (apiTemplate name config) = files r
           \<and> resolvedName (apiTemplate name config) = resolvedName r)
       \<and> (type = ''feature'' \<longrightarrow>
             files (featureTemplate name config) = files r
           \<and> resolvedName (featureTemplate name config) = resolvedName r)"
proof -
  note h = assms(4)[unfolded handler_dispatch[OF assms(2)]]
  note a = add_dispatch[OF assms(2)]
  have "type \<in> set SUPPORTED"
    using assms(4) by (simp add: handleResolveResourcePath_def split: if_splits)
  then have "type = ''component'' \<or> type = ''page'' \<or> type = ''hook'' \<or> type = ''service'' \<or> type = ''context'' \<or> type = ''store'' \<or> type = ''type'' \<or> type = ''api'' \<or> type = ''feature''"
    by (simp add: SUPPORTED_def) argo
  then consider (is_component) "type = ''component''" | (is_page) "type = ''page''" | (is_hook) "type = ''hook''" | (is_service) "type = ''service''" | (is_context) "type = ''context''" | (is_store) "type = ''store''" | (is_type) "type = ''type''" | (is_api) "type = ''api''" | (is_feature) "type = ''feature''"
    by argo
  then show ?thesis
  proof cases
    case is_component
    then have rx: "resolve_component (Some st) config name level = Inr (PathPayload r)"
      using h by simp
    have ne: "\<not> pathExists fs (path_join [cwd, directory r])"
      using assms(5) is_component by simp
    show ?thesis
      using is_component agree_component(1,3,4)[OF assms(1,3) rx ne]
        agree_component(2)[OF assms(1,3) rx ne, where lvl = lvl] by (simp add: a)
  next
    case is_page
    then have rx: "resolve_page (Some st) config name  = Inr (PathPayload r)"
      using h by simp
    have ne: "\<not> pathExists fs (path_join [cwd, directory r])"
      using assms(5) is_page by simp
    show ?thesis
      using is_page agree_page[OF assms(1,3) rx ne] by (simp add: a)
  next
    case is_hook
    then have rx: "resolve_hook (Some st) config name  = Inr (PathPayload r)"
      using h by simp
    have ne: "\<not> pathExists fs (path_join [cwd, directory r])"
      using assms(5) is_hook by simp
    show ?thesis
      using is_hook agree_hook[OF assms(1,3) rx ne] by (simp add: a)
  next
    case is_service
    then have rx: "resolve_service (Some st) config name  = Inr (PathPayload r)"
      using h by simp
    have ne: "\<not> pathExists fs (path_join [cwd, directory r])"
      using assms(5) is_service by simp
    show ?thesis
      using is_service agree_service[OF assms(1,3) rx ne] by (simp add: a)
  next
    case is_context
    then have rx: "resolve_context (Some st) config name  = Inr (PathPayload r)"
      using h by simp
    have ne: "\<not> pathExists fs (path_join [cwd, directory r])"
      using assms(5) is_context by simp
    show ?thesis
      using is_context agree_context[OF assms(1,3) rx ne] by (simp add: a)
  next
    case is_store
    then have rx: "resolve_store (Some st) config name  = Inr (PathPayload r)"
      using h by simp
    have ne: "\<not> pathExists fs (path_join [cwd, directory r])"
      using assms(5) is_store by simp
    show ?thesis
      using is_store agree_store[OF assms(1,3) rx ne] by (simp add: a)
  next
    case is_type
    then have rx: "resolve_type (Some st) config name  = Inr (PathPayload r)"
      using h by simp
    show ?thesis
      using is_type agree_type[OF assms(1) rx] by (simp add: a)
  next
    case is_api
    then have rx: "resolve_api (Some st) config name  = Inr (PathPayload r)"
      using h by simp
    have ne: "\<not> pathExists fs (path_join [cwd, directory r])"
      using assms(5) is_api by simp
    show ?thesis
      using is_api agree_api[OF assms(1,3) rx ne] by (simp add: a)
  next
    case is_feature
    then have rx: "resolve_feature (Some st) config name  = Inr (PathPayload r)"
      using h by simp
    have ne: "\<not> pathExists fs (path_join [cwd, directory r])"
      using assms(5) is_feature by simp
    show ?thesis
      using is_feature agree_feature[OF assms(1,3) rx ne] by (simp add: a)
  qed
qed

lemma handler_resolves:
  assumes "structure_of T config = Some st" "type \<in> set SUPPORTED"
    "type = ''api'' \<longrightarrow> framework config = ''nextjs'' \<and> apiPath st \<noteq> None"
  shows "\<exists>r. handleResolveResourcePath T (Parsed config) type name level = Inr (PathPayload r)"
proof -
  have "type = ''component'' \<or> type = ''page'' \<or> type = ''hook'' \<or> type = ''service'' \<or> type = ''context'' \<or> type = ''store'' \<or> type = ''type'' \<or> type = ''api'' \<or> type = ''feature''"
    using assms(2) by (simp add: SUPPORTED_def) argo
  then consider (is_component) "type = ''component''" | (is_page) "type = ''page''" | (is_hook) "type = ''hook''" | (is_service) "type = ''service''" | (is_context) "type = ''context''" | (is_store) "type = ''store''" | (is_type) "type = ''type''" | (is_api) "type = ''api''" | (is_feature) "type = ''feature''"
    by argo
  then show ?thesis
  proof cases
    case is_component
    then show ?thesis unfolding handler_dispatch[OF assms(1)] by (simp add: resolve_component_def Let_def)
  next
    case is_page
    then show ?thesis unfolding handler_dispatch[OF assms(1)] by (simp add: resolve_page_def Let_def)
  next
    case is_hook
    then show ?thesis unfolding handler_dispatch[OF assms(1)] by (simp add: resolve_hook_def Let_def)
  next
    case is_service
    then show ?thesis unfolding handler_dispatch[OF assms(1)] by (simp add: resolve_service_def Let_def)
  next
    case is_context
    then show ?thesis unfolding handler_dispatch[OF assms(1)] by (simp add: resolve_context_def Let_def)
  next
    case is_store
    then show ?thesis unfolding handler_dispatch[OF assms(1)] by (simp add: resolve_store_def Let_def)
  next
    case is_type
    then show ?thesis unfolding handler_dispatch[OF assms(1)] by (simp add: resolve_type_def Let_def)
  next
    case is_api
    then obtain p where "framework config = ''nextjs''" "apiPath st = Some p"
      using assms(3) by auto
    then show ?thesis using is_api unfolding handler_dispatch[OF assms(1)]
      by (simp add: resolve_api_def Let_def)
  next
    case is_feature
    then show ?thesis unfolding handler_dispatch[OF assms(1)] by (simp add: resolve_feature_def Let_def)
  qed
qed

text \<open>
  C1. For every supported type, every valid name, every atomic level and every configuration
  whose structure is in the table (for \<^verbatim>\<open>api\<close>: a Next.js project whose structure has an API
  path), the query handler resolves a path, and \<^verbatim>\<open>add\<close> (given the same atomic level at its
  prompt, and a target that does not exist yet) writes exactly the handler's \<open>files\<close>, in the
  same order, into the handler's \<open>directory\<close> taken under the project root; the template's
  file names are the handler's \<open>files\<close>, and the template's resolved name is the handler's
  \<open>resolvedName\<close>. The component and page templates return no resolved name: there the
  handler's \<open>resolvedName\<close> is the base name of the first file the template generates.
\<close>

theorem resolution_agrees:
  assumes "PASCAL_CASE_REGEX_test name" "structure_of T config = Some st" "paths_nonempty st"
    "type \<in> set SUPPORTED"
    "type = ''api'' \<longrightarrow> framework config = ''nextjs'' \<and> apiPath st \<noteq> None"
  shows "\<exists>r. handleResolveResourcePath T (Parsed config) type name level = Inr (PathPayload r)
       \<and> (type = ''type'' \<or> \<not> pathExists fs (path_join [cwd, directory r]) \<longrightarrow>
            (\<exists>b. addCommand T (Parsed config) cwd fs (prompt_answer level) type name =
             Inr \<lparr> scaffold_dir = path_join [cwd, directory r], written = files r, barrel = b \<rparr>))
       \<and> (type = ''component'' \<longrightarrow>
             componentTemplate name config lvl = files r
           \<and> hd (files r) = resolvedName r @ ''.'' @ compExt (getExtensions config))
       \<and> (type = ''page'' \<longrightarrow>
             pageTemplate name config = files r
           \<and> hd (files r) = resolvedName r @ ''.'' @ compExt (getExtensions config))
       \<and> (type = ''hook'' \<longrightarrow>
             files (hookTemplate name config) = files r
           \<and> resolvedName (hookTemplate name config) = resolvedName r)
       \<and> (type = ''service'' \<longrightarrow>
             files (serviceTemplate name config) = files r
           \<and> resolvedName (serviceTemplate name config) = resolvedName r)
       \<and> (type = ''context'' \<longrightarrow>
             files (contextTemplate name config) = files r
           \<and> resolvedName (contextTemplate name config) = resolvedName r)
       \<and> (type = ''store'' \<longrightarrow>
             files (storeTemplate name config) = files r
           \<and> resolvedName (storeTemplate name config) = resolvedName r)
       \<and> (type = ''type'' \<longrightarrow>
             files (typeTemplate name config) = files r
           \<and> resolvedName (typeTemplate name config) = resolvedName r)
       \<and> (type = ''api'' \<longrightarrow>
             files (apiTemplate name config) = files r
           \<and> resolvedName (apiTemplate name config) = resolvedName r)
       \<and> (type = ''feature'' \<longrightarrow>
             files (featureTemplate name config) = files r
           \<and> resolvedName (featureTemplate name config) = resolvedName r)"
proof -
  obtain r where r: "handleResolveResourcePath T (Parsed config) type name level = Inr (PathPayload r)"
    using handler_resolves[OF assms(2,4,5)] by blast
  have free: "type = ''type'' \<or> \<not> pathExists Map.empty (path_join [cwd, directory r])"
    by (simp add: pathExists_def)
  note templates = resolution_agrees_resolved[OF assms(1,2,3) r free, where lvl = lvl, THEN conjunct2]
  have add: "\<exists>b. addCommand T (Parsed config) cwd fs (prompt_answer level) type name =
             Inr \<lparr> scaffold_dir = path_join [cwd, directory r], written = files r, barrel = b \<rparr>"
    if "type = ''type'' \<or> \<not> pathExists fs (path_join [cwd, directory r])"
    using resolution_agrees_resolved[OF assms(1,2,3) r that, THEN conjunct1] .
  show ?thesis
    apply (rule exI[of _ r])
    apply (rule conjI[OF r])
    apply (rule conjI)
     apply (rule impI)
     apply (erule add)
    apply (rule templates)
    done
qed

lemma valid_Button: "PASCAL_CASE_REGEX_test ''Button''"
  by (simp add: PASCAL_CASE_REGEX_test_def is_upper_def is_lower_def is_digit_def
      upper_chars_def lower_chars_def digit_chars_def)

lemma sample_paths_nonempty: "paths_nonempty react_feature_based" "paths_nonempty nextjs_feature_based"
  by (simp_all add: paths_nonempty_def react_feature_based_def nextjs_feature_based_def)

theorem resolution_agrees_witness:
  "PASCAL_CASE_REGEX_test ''Button''
   \<and> structure_of sample_tables base_config = Some react_feature_based
   \<and> paths_nonempty react_feature_based
   \<and> ''component'' \<in> set SUPPORTED
   \<and> \<not> pathExists Map.empty (path_join [''/proj'', ''src/components/shared/Button''])
   \<and> (\<exists>r. handleResolveResourcePath sample_tables (Parsed base_config) ''component'' ''Button'' None
            = Inr (PathPayload r)
          \<and> directory r = ''src/components/shared/Button''
          \<and> files r = [''Button.tsx'', ''Button.module.css'', ''index.ts'']
          \<and> resolvedName r = ''Button''
          \<and> (\<exists>b. addCommand sample_tables (Parsed base_config) ''/proj'' Map.empty ''atom''
                     ''component'' ''Button'' =
                 Inr \<lparr> scaffold_dir = path_join [''/proj'', directory r], written = files r,
                       barrel = b \<rparr>)
          \<and> componentTemplate ''Button'' base_config None = files r)"
proof -
  have h: "handleResolveResourcePath sample_tables (Parsed base_config) ''component'' ''Button'' None =
       Inr (PathPayload
         \<lparr> files = [''Button.tsx'', ''Button.module.css'', ''index.ts''], resolvedName = ''Button'',
           resource_type = ''component'', resource_name = ''Button'',
           directory = ''src/components/shared/Button'', path_note = None \<rparr>)"
    unfolding handler_dispatch[OF sample_structures(1)]
    by (simp add: resolve_component_def Let_def truthy_def
        base_config_def getExtensions_def react_feature_based_def)
  have free: "\<not> pathExists Map.empty (path_join [''/proj'', ''src/components/shared/Button''])"
    by (simp add: pathExists_def)
  have sup: "''component'' \<in> set SUPPORTED"
    by (simp add: SUPPORTED_def)
  have ans: "prompt_answer None = ''atom''"
    by (simp add: prompt_answer_def)
  have no_api: "''component'' = ''api'' \<longrightarrow>
      framework base_config = ''nextjs'' \<and> apiPath react_feature_based \<noteq> None"
    by simp
  from resolution_agrees[OF valid_Button sample_structures(1) sample_paths_nonempty(1) sup no_api,
      of None Map.empty "''/proj''" None, unfolded ans]
  obtain r where r:
    "handleResolveResourcePath sample_tables (Parsed base_config) ''component'' ''Button'' None
       = Inr (PathPayload r)"
    "''component'' = ''type'' \<or> \<not> pathExists Map.empty (path_join [''/proj'', directory r]) \<longrightarrow>
       (\<exists>b. addCommand sample_tables (Parsed base_config) ''/proj'' Map.empty ''atom''
               ''component'' ''Button'' =
             Inr \<lparr> scaffold_dir = path_join [''/proj'', directory r], written = files r, barrel = b \<rparr>)"
    "''component'' = ''component'' \<longrightarrow>
       componentTemplate ''Button'' base_config None = files r
       \<and> hd (files r) = resolvedName r @ ''.'' @ compExt (getExtensions base_config)"
    apply (elim exE conjE)
    apply (erule that)
     apply assumption+
    done
  have rv: "directory r = ''src/components/shared/Button''"
    "files r = [''Button.tsx'', ''Button.module.css'', ''index.ts'']"
    "resolvedName r = ''Button''"
    using r(1) h by auto
  have added: "\<exists>b. addCommand sample_tables (Parsed base_config) ''/proj'' Map.empty ''atom''
               ''component'' ''Button'' =
             Inr \<lparr> scaffold_dir = path_join [''/proj'', directory r], written = files r, barrel = b \<rparr>"
    using r(2) by (simp add: pathExists_def)
  have templ: "componentTemplate ''Button'' base_config None = files r"
    using r(3) by simp
  have "\<exists>r. handleResolveResourcePath sample_tables (Parsed base_config) ''component'' ''Button'' None
            = Inr (PathPayload r)
          \<and> directory r = ''src/components/shared/Button''
          \<and> files r = [''Button.tsx'', ''Button.module.css'', ''index.ts'']
          \<and> resolvedName r = ''Button''
          \<and> (\<exists>b. addCommand sample_tables (Parsed base_config) ''/proj'' Map.empty ''atom''
                     ''component'' ''Button'' =
                 Inr \<lparr> scaffold_dir = path_join [''/proj'', directory r], written = files r,
                       barrel = b \<rparr>)
          \<and> componentTemplate ''Button'' base_config None = files r"
    using r(1) rv added templ by (intro exI[of _ r] conjI)
  then show ?thesis
    using valid_Button sample_structures(1) sample_paths_nonempty(1) sup free by (intro conjI)
qed
section \<open>The directory the rename engine resolves\<close>

text \<open>
  For pages, services, contexts, stores and features, and for hooks whose camel-case name does
  not start with \<^verbatim>\<open>use\<close>, \<open>resolveDir\<close> is the directory of the query handler under the project
  root.
\<close>

lemma resolveDir_agrees_elsewhere:
  assumes st: "structure_of T config = Some st" and ne: "paths_nonempty st"
    and valid: "PASCAL_CASE_REGEX_test name"
    and ty: "type = ''page'' \<or> type = ''service'' \<or> type = ''context'' \<or> type = ''store''
             \<or> type = ''feature''
             \<or> type = ''hook'' \<and> \<not> startsWith (toCamelCase name) ''use''"
    and r: "handleResolveResourcePath T (Parsed config) type name level = Inr (PathPayload r)"
  shows "resolveDir type name config st cwd = Some (path_join [cwd, directory r])"
proof -
  have n: "name \<noteq> []" using valid by (simp add: valid_nonempty)
  have p: "hookPath st \<noteq> []" "pagePath st \<noteq> []" "servicePath st \<noteq> []" "contextPath st \<noteq> []"
    "storePath st \<noteq> []" "featurePath st \<noteq> []"
    using ne by (simp_all add: paths_nonempty_def)
  note h = r[unfolded handler_dispatch[OF st]]
  from ty consider (is_page) "type = ''page''" | (is_service) "type = ''service''"
    | (is_context) "type = ''context''" | (is_store) "type = ''store''"
    | (is_feature) "type = ''feature''"
    | (is_hook) "type = ''hook''" "\<not> startsWith (toCamelCase name) ''use''"
    by argo
  then show ?thesis
  proof cases
    case is_page
    then have "directory r = pagePath st @ ''/'' @ name"
      using h by (auto simp: resolve_page_def Let_def)
    then show ?thesis using is_page path_join_nested[OF p(2) n, of cwd]
      by (simp add: resolveDir_def)
  next
    case is_service
    then have "directory r = servicePath st @ ''/'' @ (toCamelCase name @ ''Service'')"
      using h by (auto simp: resolve_service_def Let_def)
    then show ?thesis
      using is_service path_join_nested[OF p(3), of "toCamelCase name @ ''Service''" cwd]
      by (simp add: resolveDir_def)
  next
    case is_context
    then have "directory r = contextPath st @ ''/'' @ (name @ ''Context'')"
      using h by (auto simp: resolve_context_def Let_def)
    then show ?thesis
      using is_context path_join_nested[OF p(4), of "name @ ''Context''" cwd]
      by (simp add: resolveDir_def)
  next
    case is_store
    then have "directory r = storePath st @ ''/'' @ (''use'' @ name @ ''Store'')"
      using h by (auto simp: resolve_store_def Let_def)
    then show ?thesis
      using is_store path_join_nested[OF p(5), of "''use'' @ name @ ''Store''" cwd]
      by (simp add: resolveDir_def)
  next
    case is_feature
    then have "directory r = featurePath st @ ''/'' @ name"
      using h by (auto simp: resolve_feature_def Let_def)
    then show ?thesis using is_feature path_join_nested[OF p(6) n, of cwd]
      by (simp add: resolveDir_def)
  next
    case is_hook
    then have "directory r = hookPath st @ ''/'' @ (''use'' @ name)"
      using h by (auto simp: resolve_hook_def Let_def)
    then show ?thesis
      using is_hook path_join_nested[OF p(1), of "''use'' @ name" cwd]
      by (simp add: resolveDir_def)
  qed
qed

text \<open>
  C2. For the hook \<^verbatim>\<open>UseAuth\<close> the rename engine resolves \<^verbatim>\<open>src/hooks/useUseAuth\<close> under the
  project root, while the query handler resolves \<^verbatim>\<open>src/hooks/useAuth\<close> and \<^verbatim>\<open>add\<close> creates
  the hook there: \<open>resolveDir\<close> prefixes \<^verbatim>\<open>use\<close> without looking at the name, so \<^verbatim>\<open>rename\<close>
  does not find the hook that \<^verbatim>\<open>add\<close> created.
\<close>

theorem rename_hook_dir_double_prefix:
  "resolveDir ''hook'' ''UseAuth'' base_config react_feature_based ''/proj''
     = Some ''/proj/src/hooks/useUseAuth''
   \<and> handleResolveResourcePath sample_tables (Parsed base_config) ''hook'' ''UseAuth'' None
     = Inr (PathPayload
         \<lparr> files = [''useAuth.ts'', ''index.ts''], resolvedName = ''useAuth'',
           resource_type = ''hook'', resource_name = ''UseAuth'',
           directory = ''src/hooks/useAuth'', path_note = None \<rparr>)
   \<and> addCommand sample_tables (Parsed base_config) ''/proj'' Map.empty ''atom'' ''hook'' ''UseAuth''
     = Inr \<lparr> scaffold_dir = ''/proj/src/hooks/useAuth'', written = [''useAuth.ts'', ''index.ts''],
             barrel = Some (''/proj/src/hooks'', ''useAuth'') \<rparr>
   \<and> renameCommand sample_tables (Parsed base_config) ''/proj'' added_hook_fs ''hook'' ''UseAuth'' ''UsePayment''
     = (Some (Exit 1 (NotFound ''hook'' ''UseAuth'' ''src/hooks/useUseAuth'')), added_hook_fs)"
proof -
  have camel: "toCamelCase ''UseAuth'' = ''useAuth''" "toCamelCase ''UsePayment'' = ''usePayment''"
    by (simp_all add: toCamelCase_def toLowerCase_char_def upper_chars_def lower_chars_def)
  have valid: "PASCAL_CASE_REGEX_test ''UseAuth''" "PASCAL_CASE_REGEX_test ''UsePayment''"
    by (simp_all add: PASCAL_CASE_REGEX_test_def is_upper_def is_lower_def is_digit_def
        upper_chars_def lower_chars_def digit_chars_def)
  have joins:
    "path_join [''/proj'', ''src/hooks'', ''useUseAuth''] = ''/proj/src/hooks/useUseAuth''"
    "path_join [''/proj'', ''src/hooks'', ''useUsePayment''] = ''/proj/src/hooks/useUsePayment''"
    "path_join [''/proj'', ''src/hooks'', ''useAuth''] = ''/proj/src/hooks/useAuth''"
    by (simp_all add: path_join_def path_normalize_def split_def startsWith_def)
  have rel: "path_relative ''/proj'' ''/proj/src/hooks/useUseAuth'' = ''src/hooks/useUseAuth''"
    by (simp add: path_relative_def path_normalize_def split_def startsWith_def)
  have parent: "path_dirname ''/proj/src/hooks/useAuth'' = ''/proj/src/hooks''"
    by (simp add: path_dirname_def)
  have hp: "hookPath react_feature_based = ''src/hooks''"
    by (simp add: react_feature_based_def)
  have ext: "getExtensions base_config = \<lparr> compExt = ''tsx'', scriptExt = ''ts'', styleExt = ''css'' \<rparr>"
    "withTests base_config = False"
    by (simp_all add: getExtensions_def base_config_def)
  have r: "resolveDir ''hook'' ''UseAuth'' base_config react_feature_based ''/proj''
     = Some ''/proj/src/hooks/useUseAuth''"
    "resolveDir ''hook'' ''UsePayment'' base_config react_feature_based ''/proj''
     = Some ''/proj/src/hooks/useUsePayment''"
    by (simp_all add: resolveDir_def hp joins)
  have h: "handleResolveResourcePath sample_tables (Parsed base_config) ''hook'' ''UseAuth'' None
     = Inr (PathPayload
         \<lparr> files = [''useAuth.ts'', ''index.ts''], resolvedName = ''useAuth'',
           resource_type = ''hook'', resource_name = ''UseAuth'',
           directory = ''src/hooks/useAuth'', path_note = None \<rparr>)"
    by (simp add: handleResolveResourcePath_def SUPPORTED_def sample_structures resolve_hook_def
        camel startsWith_def ext hp Let_def)
  have a: "addCommand sample_tables (Parsed base_config) ''/proj'' Map.empty ''atom'' ''hook'' ''UseAuth''
     = Inr \<lparr> scaffold_dir = ''/proj/src/hooks/useAuth'', written = [''useAuth.ts'', ''index.ts''],
             barrel = Some (''/proj/src/hooks'', ''useAuth'') \<rparr>"
    by (simp add: addCommand_def SUPPORTED_def loadConfig_def getStructure_def sample_structures
        addHook_def validateName_valid[OF valid(1)] hookTemplate_def camel startsWith_def ext hp
        object_keys_def assign_key_def joins pathExists_def parent Let_def)
  have c: "renameCommand sample_tables (Parsed base_config) ''/proj'' added_hook_fs ''hook'' ''UseAuth'' ''UsePayment''
     = (Some (Exit 1 (NotFound ''hook'' ''UseAuth'' ''src/hooks/useUseAuth'')), added_hook_fs)"
    by (simp add: renameCommand_def RENAME_SUPPORTED_TYPES_def validateName_valid[OF valid(1)]
        validateName_valid[OF valid(2)] loadConfig_def getStructure_def sample_structures r
        pathExists_def added_hook_fs_def rel Let_def)
  from r(1) h a c show ?thesis by simp
qed

section \<open>Renaming there and back\<close>

lemma pairs_Auth_Cart:
  "buildReplacementPairs ''Auth'' ''Cart'' =
       [(''useAuthStore'', ''useCartStore''), (''AuthContext'', ''CartContext''),
        (''AuthProvider'', ''CartProvider''), (''AuthPage'', ''CartPage''),
        (''useAuth'', ''useCart''), (''authService'', ''cartService''),
        (''auth'', ''cart''), (''Auth'', ''Cart'')]"
  "buildReplacementPairs ''Cart'' ''Auth'' =
       [(''useCartStore'', ''useAuthStore''), (''CartContext'', ''AuthContext''),
        (''CartProvider'', ''AuthProvider''), (''CartPage'', ''AuthPage''),
        (''useCart'', ''useAuth''), (''cartService'', ''authService''),
        (''cart'', ''auth''), (''Cart'', ''Auth'')]"
  by (simp_all add: buildReplacementPairs_def toCamelCase_def toLowerCase_char_def
      upper_chars_def lower_chars_def)

lemma replace_Auth_Cart:
  "applyReplacements ''Auth.tsx'' (buildReplacementPairs ''Auth'' ''Cart'') = ''Cart.tsx''"
  "applyReplacements ''const Auth = () => useCart();'' (buildReplacementPairs ''Auth'' ''Cart'')
     = ''const Cart = () => useCart();''"
  "applyReplacements ''Cart.tsx'' (buildReplacementPairs ''Cart'' ''Auth'') = ''Auth.tsx''"
  "applyReplacements ''const Cart = () => useCart();'' (buildReplacementPairs ''Cart'' ''Auth'')
     = ''const Auth = () => useAuth();''"
  unfolding pairs_Auth_Cart
  by (simp_all add: applyReplacements_def split_def startsWith_def)



lemma component_dirs:
  "resolveDir ''component'' ''Auth'' base_config react_feature_based ''/proj''
     = Some ''/proj/src/components/shared/Auth''"
  "resolveDir ''component'' ''Cart'' base_config react_feature_based ''/proj''
     = Some ''/proj/src/components/shared/Cart''"
  by (simp_all add: resolveDir_def react_feature_based_def path_join_def path_normalize_def
      split_def startsWith_def)

lemma component_barrel:
  "scriptExt (getExtensions base_config) = ''ts''"
  "path_dirname ''/proj/src/components/shared/Auth'' = ''/proj/src/components/shared''"
  "path_dirname ''/proj/src/components/shared/Cart'' = ''/proj/src/components/shared''"
  "path_join [''/proj/src/components/shared'', ''index.ts''] = ''/proj/src/components/shared/index.ts''"
  by (simp_all add: path_dirname_def getExtensions_def base_config_def path_join_def
      path_normalize_def split_def startsWith_def)

lemma tsx_is_text: "path_extname ''Auth.tsx'' \<in> TEXT_EXTENSIONS" "path_extname ''Cart.tsx'' \<in> TEXT_EXTENSIONS"
  by (simp_all add: path_extname_def TEXT_EXTENSIONS_def)






subsection \<open>The root directory comes back\<close>

text \<open>
  Whatever the directory holds: when both renames complete, the root directory is a
  directory at the path of \<^verbatim>\<open>A\<close> again and nothing is left at the path of \<^verbatim>\<open>B\<close>.
\<close>

lemma barrel_keeps:
  assumes "updateBarrelForRename fs0 p a b c = (None, fs1)" "\<forall>content. fs0 q \<noteq> Some (File content)"
  shows "fs1 q = fs0 q"
  using assms
  by (auto simp: updateBarrelForRename_def Let_def split: option.splits node.splits if_splits)

lemma renameCommand_success:
  assumes "structure_of T config = Some st"
    "resolveDir type a config st cwd = Some oldDir" "resolveDir type b config st cwd = Some newDir"
    "renameCommand T (Parsed config) cwd fs type a b = (None, fs1)"
  shows "\<exists>es es'. fs oldDir = Some (Dir es) \<and> fs newDir = None
           \<and> rename_entries (buildReplacementPairs a b) (map fst es) es = (None, es')
           \<and> fs1 oldDir = None \<and> fs1 newDir = Some (Dir es')"
proof -
  have pre: "fs oldDir \<noteq> None" "fs newDir = None"
    using assms
    by (auto simp: renameCommand_def loadConfig_def getStructure_def pathExists_def Let_def
        split: if_splits sum.splits prod.splits option.splits)
  then have ne: "oldDir \<noteq> newDir" by auto
  obtain r fsA where walk: "applyRenameRecursive fs oldDir (buildReplacementPairs a b) = (r, fsA)"
    by (cases "applyRenameRecursive fs oldDir (buildReplacementPairs a b)")
  have r: "r = None"
    using assms pre walk
    by (auto simp: renameCommand_def loadConfig_def getStructure_def pathExists_def Let_def
        split: if_splits sum.splits option.splits)
  obtain es es' where es: "fs oldDir = Some (Dir es)"
      "rename_entries (buildReplacementPairs a b) (map fst es) es = (None, es')"
      "fsA = fs(oldDir \<mapsto> Dir es')"
    using walk r
    by (auto simp: applyRenameRecursive_def split: option.splits node.splits prod.splits)
  let ?fsB = "fsA(oldDir := None, newDir := fsA oldDir)"
  have B: "?fsB oldDir = None" "?fsB newDir = Some (Dir es')"
    using es(3) ne by simp_all
  have fin: "fs1 = ?fsB \<or> updateBarrelForRename ?fsB (path_dirname newDir) (path_basename oldDir)
                (path_basename newDir) config = (None, fs1)"
    using assms pre walk r
    by (auto simp: renameCommand_def loadConfig_def getStructure_def pathExists_def Let_def
        split: if_splits sum.splits option.splits)
  have "fs1 oldDir = ?fsB oldDir \<and> fs1 newDir = ?fsB newDir"
    using fin B barrel_keeps[where q = oldDir and ?fs0.0 = ?fsB and ?fs1.0 = fs1]
      barrel_keeps[where q = newDir and ?fs0.0 = ?fsB and ?fs1.0 = fs1]
    by (metis node.distinct(1) option.distinct(1) option.inject)
  then show ?thesis using es(1,2) pre(2) B by auto
qed

lemma rename_round_trip_root:
  assumes "structure_of T config = Some st"
    "resolveDir type a config st cwd = Some oldDir" "resolveDir type b config st cwd = Some newDir"
    "renameCommand T (Parsed config) cwd fs type a b = (None, fs1)"
    "renameCommand T (Parsed config) cwd fs1 type b a = (None, fs2)"
  shows "(\<exists>es. fs oldDir = Some (Dir es)) \<and> fs newDir = None
       \<and> (\<exists>es2. fs2 oldDir = Some (Dir es2)) \<and> fs2 newDir = None"
  using renameCommand_success[OF assms(1,2,3,4)] renameCommand_success[OF assms(1,3,2,5)]
  by blast

subsection \<open>One walk as a map over the tree\<close>

lemma map_of_middle:
  "n \<notin> fst ` set xs \<Longrightarrow> map_of (xs @ (n, x) # ys) n = Some x"
  by (induction xs) auto

lemma map_of_absent:
  "m \<notin> fst ` set xs \<Longrightarrow> m \<noteq> n \<Longrightarrow> m \<notin> fst ` set ys \<Longrightarrow> map_of (xs @ (n, x) # ys) m = None"
  by (simp add: map_of_eq_None_iff image_Un)

lemma put_entry_middle:
  "n \<notin> fst ` set xs \<Longrightarrow> put_entry n y (xs @ (n, x) # ys) = xs @ (n, y) # ys"
  by (induction xs) auto

lemma rename_key_middle:
  "n \<notin> fst ` set xs \<Longrightarrow> rename_key n m (xs @ (n, x) # ys) = xs @ (m, x) # ys"
  by (induction xs) auto

lemma rename_if_changed_middle:
  assumes "n \<notin> fst ` set xs" "applyReplacements n pairs \<notin> fst ` set xs"
    "applyReplacements n pairs \<noteq> n \<longrightarrow> applyReplacements n pairs \<notin> fst ` set ys"
  shows "rename_if_changed pairs n (xs @ (n, x) # ys) = Inr (xs @ (applyReplacements n pairs, x) # ys)"
proof (cases "applyReplacements n pairs = n")
  case True
  then show ?thesis by (simp add: rename_if_changed_def)
next
  case False
  have "map_of (xs @ (n, x) # ys) (applyReplacements n pairs) = None"
    using assms False by (intro map_of_absent) auto
  then show ?thesis
    using False assms(1)
    by (simp add: rename_if_changed_def rename_entry_def map_of_middle rename_key_middle
        del: map_of_append)
qed

lemma renamed_append: "renamed pairs (xs @ ys) = renamed pairs xs @ renamed pairs ys"
  by (simp add: renamed_def)

lemma renamed_names: "fst ` set (renamed pairs xs) = (\<lambda>n. applyReplacements n pairs) ` fst ` set xs"
  by (simp add: renamed_def image_image)

lemma rename_entries_walk:
  assumes "names = map fst post" "es = renamed pairs pre @ post"
    "no_collision pairs (map fst (pre @ post))"
    "distinct (map (\<lambda>e. applyReplacements (fst e) pairs) (pre @ post))"
    "list_all (\<lambda>e. walkable_node pairs (snd e)) post"
  shows "rename_entries pairs names es = (None, renamed pairs (pre @ post))"
  using assms
proof (induction pairs names es arbitrary: pre post rule: rename_entries.induct)
  case (1 pairs es)
  then show ?case by simp
next
  case (2 pairs entry rest es)
  let ?f = "\<lambda>n. applyReplacements n pairs"
  from "2.prems"(1) obtain x post' where post: "post = (entry, x) # post'" "rest = map fst post'"
    by (cases post) auto
  have es: "es = renamed pairs pre @ (entry, x) # post'"
    using "2.prems"(2) post by simp
  have names: "distinct (map fst pre @ entry # map fst post')"
    "\<forall>n \<in> set (map fst pre @ entry # map fst post'). ?f n \<noteq> n \<longrightarrow> ?f n \<notin> set (map fst pre @ entry # map fst post')"
    using "2.prems"(3) post by (simp_all add: no_collision_def)
  have inj: "distinct (map ?f (map fst pre) @ ?f entry # map ?f (map fst post'))"
    using "2.prems"(4) post by (simp add: comp_def)
  have fresh: "entry \<notin> fst ` set (renamed pairs pre)"
  proof
    assume "entry \<in> fst ` set (renamed pairs pre)"
    then obtain m where m: "m \<in> fst ` set pre" "?f m = entry"
      by (auto simp: renamed_names)
    have "m \<noteq> entry" using names(1) m(1) by auto
    then have "?f m \<noteq> m" using m by simp
    moreover have "m \<in> set (map fst pre @ entry # map fst post')" using m by simp
    ultimately have "?f m \<notin> set (map fst pre @ entry # map fst post')" using names(2) by blast
    then show False using m by simp
  qed
  have new_fresh: "?f entry \<notin> fst ` set (renamed pairs pre)"
    using inj by (auto simp: renamed_names)
  have new_free: "?f entry \<noteq> entry \<longrightarrow> ?f entry \<notin> fst ` set post'"
    using names(2) by auto
  have x: "map_of es entry = Some x"
    unfolding es using fresh by (rule map_of_middle)
  have step: "rename_if_changed pairs entry (renamed pairs pre @ (entry, y) # post')
                = Inr (renamed pairs pre @ (?f entry, y) # post')" for y
    using fresh new_fresh new_free by (rule rename_if_changed_middle)
  have next_prems:
    "no_collision pairs (map fst ((pre @ [(entry, x)]) @ post'))"
    "distinct (map (\<lambda>e. applyReplacements (fst e) pairs) ((pre @ [(entry, x)]) @ post'))"
    "list_all (\<lambda>e. walkable_node pairs (snd e)) post'"
    using "2.prems"(3,4,5) post by simp_all
  show ?case
  proof (cases x)
    case (File content)
    define y where "y = renamed_node pairs entry (File content)"
    have es1: "rewrite_file pairs entry content es = renamed pairs pre @ (entry, y) # post'"
      unfolding es y_def using fresh File
      by (auto simp: rewrite_file_def Let_def put_entry_middle)
    have es2: "renamed pairs pre @ (?f entry, y) # post' = renamed pairs (pre @ [(entry, x)]) @ post'"
      using File by (simp add: renamed_def y_def)
    have "rename_entries pairs rest (renamed pairs (pre @ [(entry, x)]) @ post')
            = (None, renamed pairs ((pre @ [(entry, x)]) @ post'))"
      using "2.IH"(1)[OF x File es1[symmetric, folded es] _ post(2) refl next_prems]
        step[of y] es1 es2 by simp
    then show ?thesis
      using x File es1 step[of y] es2 post(1) by simp
  next
    case (Dir sub)
    have sub: "no_collision pairs (map fst sub)"
      "distinct (map (\<lambda>e. applyReplacements (fst e) pairs) sub)"
      "list_all (\<lambda>e. walkable_node pairs (snd e)) sub"
      using "2.prems"(5) post Dir by simp_all
    have inner: "rename_entries pairs (map fst sub) sub = (None, renamed pairs sub)"
      using "2.IH"(2)[OF x Dir, where pre = "[]" and post = sub] sub by (simp add: renamed_def)
    define y where "y = renamed_node pairs entry (Dir sub)"
    have y: "y = Dir (renamed pairs sub)" by (simp add: renamed_def y_def)
    have es1: "put_entry entry (Dir (renamed pairs sub)) es = renamed pairs pre @ (entry, y) # post'"
      unfolding es y using fresh by (simp add: put_entry_middle)
    have es2: "renamed pairs pre @ (?f entry, y) # post' = renamed pairs (pre @ [(entry, x)]) @ post'"
      using Dir by (simp add: renamed_def y_def)
    have "rename_entries pairs rest (renamed pairs (pre @ [(entry, x)]) @ post')
            = (None, renamed pairs ((pre @ [(entry, x)]) @ post'))"
      using "2.IH"(3)[OF x Dir inner[symmetric] refl es1[symmetric] _ post(2) refl next_prems]
        step[of y] es1 es2 by simp
    then show ?thesis
      using x Dir inner es1 step[of y] es2 post(1) by simp
  qed
qed

lemma rename_entries_renamed:
  assumes "walkable_node pairs (Dir es)"
  shows "rename_entries pairs (map fst es) es = (None, renamed pairs es)"
  using rename_entries_walk[of "map fst es" es es pairs "[]"] assms by (simp add: renamed_def)

subsection \<open>A restorable directory\<close>

lemma applyReplacements_Nil: "applyReplacements [] pairs = []"
  unfolding applyReplacements_def
  by (induction pairs) (auto simp: split_def)

lemma restorable_node_name:
  "restorable_node there home n x \<Longrightarrow> applyReplacements (applyReplacements n there) home = n"
  by (cases x) simp_all

lemma restorable_names:
  assumes "list_all (\<lambda>e. restorable_node there home (fst e) (snd e)) es"
  shows "\<forall>n \<in> set (map fst es). applyReplacements (applyReplacements n there) home = n"
  using assms by (auto simp: list_all_iff dest: restorable_node_name)

lemma distinct_rewritten:
  assumes "distinct names" "\<forall>n \<in> set names. applyReplacements (applyReplacements n there) home = n"
  shows "distinct (map (\<lambda>n. applyReplacements n there) names)"
proof -
  have "inj_on (\<lambda>n. applyReplacements n there) (set names)"
    using assms(2) by (intro inj_on_inverseI[where g = "\<lambda>n. applyReplacements n home"]) simp
  then show ?thesis using assms(1) by (simp add: distinct_map)
qed

lemma no_collision_back:
  assumes "no_collision there names"
    "\<forall>n \<in> set names. applyReplacements (applyReplacements n there) home = n"
  shows "no_collision home (map (\<lambda>n. applyReplacements n there) names)"
proof -
  have d: "distinct (map (\<lambda>n. applyReplacements n there) names)"
    using assms by (intro distinct_rewritten[where home = home]) (simp_all add: no_collision_def)
  have "applyReplacements n' home \<notin> set (map (\<lambda>n. applyReplacements n there) names)"
    if n': "n' \<in> set (map (\<lambda>n. applyReplacements n there) names)" "applyReplacements n' home \<noteq> n'" for n'
  proof
    assume inside: "applyReplacements n' home \<in> set (map (\<lambda>n. applyReplacements n there) names)"
    from n'(1) obtain n where n: "n \<in> set names" "n' = applyReplacements n there" by auto
    then have home: "applyReplacements n' home = n" using assms(2) by simp
    from inside home obtain m where m: "m \<in> set names" "n = applyReplacements m there" by auto
    have "m \<noteq> n" using m(2) n(2) n'(2) home by auto
    then have "applyReplacements m there \<noteq> m" using m(2) by simp
    then have "applyReplacements m there \<notin> set names"
      using assms(1) m(1) by (simp add: no_collision_def)
    then show False using m(2) n(1) by simp
  qed
  then show ?thesis using d by (simp add: no_collision_def)
qed

lemma restorable_node_walk:
  "restorable_node there home n x \<Longrightarrow>
     walkable_node there x \<and> walkable_node home (renamed_node there n x)
     \<and> renamed_node home (applyReplacements n there) (renamed_node there n x) = x"
proof (induction there home n x rule: restorable_node.induct)
  case (1 there home name content)
  then show ?case by auto
next
  case (2 there home name es)
  let ?f = "\<lambda>n. applyReplacements n there"
  let ?g = "\<lambda>n. applyReplacements n home"
  have all: "list_all (\<lambda>e. restorable_node there home (fst e) (snd e)) es"
    and nc: "no_collision there (map fst es)"
    using "2.prems" by simp_all
  have names: "\<forall>n \<in> set (map fst es). ?g (?f n) = n"
    using all by (rule restorable_names)
  have each: "walkable_node there (snd e) \<and> walkable_node home (renamed_node there (fst e) (snd e))
     \<and> renamed_node home (?f (fst e)) (renamed_node there (fst e) (snd e)) = snd e
     \<and> ?g (?f (fst e)) = fst e" if "e \<in> set es" for e
    using "2.IH"[OF that] all that names by (auto simp: list_all_iff)
  have d1: "distinct (map (\<lambda>e. ?f (fst e)) es)"
    using distinct_rewritten[OF _ names] nc by (simp add: no_collision_def comp_def)
  have w1: "walkable_node there (Dir es)"
    using nc d1 each by (simp add: list_all_iff)
  have nc2: "no_collision home (map (\<lambda>e. ?f (fst e)) es)"
    using no_collision_back[OF nc names] by (simp add: comp_def)
  have d2: "distinct (map (\<lambda>e. ?g (?f (fst e))) es)"
  proof -
    have eq: "map (\<lambda>e. ?g (?f (fst e))) es = map fst es"
      using each by (intro map_cong) auto
    have "distinct (map fst es)" using nc by (simp add: no_collision_def)
    then show ?thesis by (simp only: eq)
  qed
  have w2: "walkable_node home (renamed_node there name (Dir es))"
    using nc2 d2 each by (simp add: list_all_iff comp_def)
  have "map (\<lambda>e. (?g (fst e), renamed_node home (fst e) (snd e)))
          (map (\<lambda>e. (?f (fst e), renamed_node there (fst e) (snd e))) es) = es"
    unfolding map_map using each by (intro map_idI) (simp add: prod_eq_iff)
  then have r: "renamed_node home (?f name) (renamed_node there name (Dir es)) = Dir es"
    by simp
  show ?case using w1 w2 r by blast
qed

lemma restorable_walk:
  assumes "restorable there home es"
  shows "walkable_node there (Dir es)" "walkable_node home (Dir (renamed there es))"
    "renamed home (renamed there es) = es"
proof -
  have "restorable_node there home [] (Dir es)"
    using assms by (simp add: restorable_def applyReplacements_Nil)
  from restorable_node_walk[OF this]
  show "walkable_node there (Dir es)" "walkable_node home (Dir (renamed there es))"
    "renamed home (renamed there es) = es"
    by (simp_all add: renamed_def applyReplacements_Nil)
qed

subsection \<open>The rename command on a directory the walk maps\<close>





subsection \<open>A generated context goes there and back\<close>










subsection \<open>Without collisions, only restorable directories come back\<close>

lemma walkable_restorable_node:
  "walkable_node there x \<Longrightarrow> walkable_node home (renamed_node there n x) \<Longrightarrow>
   applyReplacements (applyReplacements n there) home = n \<Longrightarrow>
   renamed_node home (applyReplacements n there) (renamed_node there n x) = x \<Longrightarrow>
   restorable_node there home n x"
proof (induction there home n x rule: restorable_node.induct)
  case (1 there home name content)
  then show ?case by simp
next
  case (2 there home name es)
  let ?f = "\<lambda>n. applyReplacements n there"
  let ?g = "\<lambda>n. applyReplacements n home"
  have same: "map (\<lambda>e. (?g (?f (fst e)), renamed_node home (?f (fst e)) (renamed_node there (fst e) (snd e)))) es
      = map (\<lambda>e. e) es"
    using "2.prems"(4) by (simp add: comp_def)
  have each: "?g (?f (fst e)) = fst e
      \<and> renamed_node home (?f (fst e)) (renamed_node there (fst e) (snd e)) = snd e"
    if "e \<in> set es" for e
    using same that unfolding map_eq_conv by (metis fst_conv snd_conv)
  have w1: "walkable_node there (snd e)" if "e \<in> set es" for e
    using "2.prems"(1) that by (simp add: list_all_iff)
  have w2: "walkable_node home (renamed_node there (fst e) (snd e))" if "e \<in> set es" for e
    using "2.prems"(2) that by (simp add: list_all_iff)
  have "restorable_node there home (fst e) (snd e)" if "e \<in> set es" for e
    using "2.IH"[OF that w1[OF that] w2[OF that]] each[OF that] by simp
  then show ?case
    using "2.prems"(1,3) by (simp add: list_all_iff)
qed

lemma restorable_exact:
  assumes "walkable_node there (Dir es)" "walkable_node home (Dir (renamed there es))"
  shows "restorable there home es \<longleftrightarrow> renamed home (renamed there es) = es"
proof
  assume "restorable there home es"
  then show "renamed home (renamed there es) = es" by (rule restorable_walk(3))
next
  assume r: "renamed home (renamed there es) = es"
  have "restorable_node there home [] (Dir es)"
    using assms r
    by (intro walkable_restorable_node) (simp_all add: renamed_def applyReplacements_Nil)
  then show "restorable there home es"
    by (simp add: restorable_def)
qed

text \<open>
  When both renames complete and no names collide on the way there or on the way home, the
  directory that comes back is the original one exactly if the original one is restorable.
\<close>

lemma rename_round_trip_exact:
  assumes "structure_of T config = Some st"
    "resolveDir type a config st cwd = Some oldDir" "resolveDir type b config st cwd = Some newDir"
    "renameCommand T (Parsed config) cwd fs type a b = (None, fs1)"
    "renameCommand T (Parsed config) cwd fs1 type b a = (None, fs2)"
    "fs oldDir = Some (Dir es)"
    "walkable_node (buildReplacementPairs a b) (Dir es)"
    "walkable_node (buildReplacementPairs b a) (Dir (renamed (buildReplacementPairs a b) es))"
  shows "fs2 oldDir = Some (Dir es)
     \<longleftrightarrow> restorable (buildReplacementPairs a b) (buildReplacementPairs b a) es"
proof -
  let ?P = "buildReplacementPairs a b" and ?Q = "buildReplacementPairs b a"
  obtain es0 es' where one: "fs oldDir = Some (Dir es0)"
      "rename_entries ?P (map fst es0) es0 = (None, es')" "fs1 newDir = Some (Dir es')"
    using renameCommand_success[OF assms(1,2,3,4)] by blast
  have es': "es' = renamed ?P es"
    using one(1,2) assms(6) rename_entries_renamed[OF assms(7)] by simp
  obtain ds ds' where two: "fs1 newDir = Some (Dir ds)"
      "rename_entries ?Q (map fst ds) ds = (None, ds')" "fs2 oldDir = Some (Dir ds')"
    using renameCommand_success[OF assms(1,3,2,5)] by blast
  have "ds = renamed ?P es" using one(3) two(1) es' by simp
  then have "ds' = renamed ?Q (renamed ?P es)"
    using two(2) rename_entries_renamed[OF assms(8)] by simp
  then have "fs2 oldDir = Some (Dir (renamed ?Q (renamed ?P es)))"
    using two(3) by simp
  then show ?thesis
    using restorable_exact[OF assms(7,8)] by auto
qed

subsection \<open>A name inside the other name\<close>

lemma valid_AuthUser: "PASCAL_CASE_REGEX_test ''AuthUser''"
  by (simp add: PASCAL_CASE_REGEX_test_def is_upper_def is_lower_def is_digit_def
      upper_chars_def lower_chars_def digit_chars_def)

lemma pairs_Auth_AuthUser:
  "buildReplacementPairs ''Auth'' ''AuthUser'' =
       [(''useAuthStore'', ''useAuthUserStore''), (''AuthContext'', ''AuthUserContext''),
        (''AuthProvider'', ''AuthUserProvider''), (''AuthPage'', ''AuthUserPage''),
        (''useAuth'', ''useAuthUser''), (''authService'', ''authUserService''),
        (''auth'', ''authUser''), (''Auth'', ''AuthUser'')]"
  "buildReplacementPairs ''AuthUser'' ''Auth'' =
       [(''useAuthUserStore'', ''useAuthStore''), (''AuthUserContext'', ''AuthContext''),
        (''AuthUserProvider'', ''AuthProvider''), (''AuthUserPage'', ''AuthPage''),
        (''useAuthUser'', ''useAuth''), (''authUserService'', ''authService''),
        (''authUser'', ''auth''), (''AuthUser'', ''Auth'')]"
  by (simp_all add: buildReplacementPairs_def toCamelCase_def toLowerCase_char_def
      upper_chars_def lower_chars_def)

lemma replace_Auth_AuthUser:
  "applyReplacements ''Auth.tsx'' (buildReplacementPairs ''Auth'' ''AuthUser'') = ''AuthUser.tsx''"
  "applyReplacements ''const s = useAuthStore();'' (buildReplacementPairs ''Auth'' ''AuthUser'')
     = ''const s = useAuthUserUserUserStore();''"
  "applyReplacements ''AuthUser.tsx'' (buildReplacementPairs ''AuthUser'' ''Auth'') = ''Auth.tsx''"
  "applyReplacements ''const s = useAuthUserUserUserStore();'' (buildReplacementPairs ''AuthUser'' ''Auth'')
     = ''const s = useAuthUserStore();''"
  unfolding pairs_Auth_AuthUser
  by (simp_all add: applyReplacements_def split_def startsWith_def)

lemma auth_user_dir:
  "resolveDir ''component'' ''AuthUser'' base_config react_feature_based ''/proj''
     = Some ''/proj/src/components/shared/AuthUser''"
  "path_dirname ''/proj/src/components/shared/AuthUser'' = ''/proj/src/components/shared''"
  "path_extname ''AuthUser.tsx'' \<in> TEXT_EXTENSIONS"
  by (simp_all add: resolveDir_def react_feature_based_def path_join_def path_normalize_def
      split_def startsWith_def path_dirname_def path_extname_def TEXT_EXTENSIONS_def)

lemma walk_Auth_AuthUser:
  "rename_entries (buildReplacementPairs ''Auth'' ''AuthUser'') [''Auth.tsx'']
     [(''Auth.tsx'', File ''const s = useAuthStore();'')]
   = (None, [(''AuthUser.tsx'', File ''const s = useAuthUserUserUserStore();'')])"
  by (simp add: rewrite_file_def rename_if_changed_def rename_entry_def tsx_is_text
      replace_Auth_AuthUser)

lemma walk_AuthUser_Auth:
  "rename_entries (buildReplacementPairs ''AuthUser'' ''Auth'') [''AuthUser.tsx'']
     [(''AuthUser.tsx'', File ''const s = useAuthUserUserUserStore();'')]
   = (None, [(''Auth.tsx'', File ''const s = useAuthUserStore();'')])"
  by (simp add: rewrite_file_def rename_if_changed_def rename_entry_def auth_user_dir(3)
      replace_Auth_AuthUser)

lemma first_rename_to_auth_user:
  "renameCommand sample_tables (Parsed base_config) ''/proj'' auth_store_call_fs
     ''component'' ''Auth'' ''AuthUser''
   = (None, [''/proj/src/components/shared/AuthUser'' \<mapsto>
               Dir [(''AuthUser.tsx'', File ''const s = useAuthUserUserUserStore();'')]])"
  by (simp add: renameCommand_def RENAME_SUPPORTED_TYPES_def validateName_valid valid_Auth_Cart
      valid_AuthUser loadConfig_def
      getStructure_def sample_structures component_dirs auth_user_dir pathExists_def
      auth_store_call_fs_def
      applyRenameRecursive_def walk_Auth_AuthUser updateBarrelForRename_def component_barrel
      fun_upd_twist del: rename_entries.simps)

lemma second_rename_from_auth_user:
  "renameCommand sample_tables (Parsed base_config) ''/proj'' renamed_to_auth_user
     ''component'' ''AuthUser'' ''Auth''
   = (None, [''/proj/src/components/shared/Auth'' \<mapsto>
               Dir [(''Auth.tsx'', File ''const s = useAuthUserStore();'')]])"
  unfolding renamed_to_auth_user_def first_rename_to_auth_user
  by (simp add: renameCommand_def RENAME_SUPPORTED_TYPES_def validateName_valid valid_Auth_Cart
      valid_AuthUser loadConfig_def
      getStructure_def sample_structures component_dirs auth_user_dir pathExists_def
      applyRenameRecursive_def walk_AuthUser_Auth updateBarrelForRename_def component_barrel
      fun_upd_twist del: rename_entries.simps)

text \<open>
  The round trip can change a file that holds no token of the other name: when \<^verbatim>\<open>Auth\<close> is
  renamed to \<^verbatim>\<open>AuthUser\<close>, whose tokens hold those of \<^verbatim>\<open>Auth\<close>, a call of \<^verbatim>\<open>useAuthStore\<close>
  becomes \<^verbatim>\<open>useAuthUserUserUserStore\<close>, and comes back as \<^verbatim>\<open>useAuthUserStore\<close>. Both renames
  complete.
\<close>

lemma rename_round_trip_nested_name:
  "fst (renameCommand sample_tables (Parsed base_config) ''/proj'' auth_store_call_fs
          ''component'' ''Auth'' ''AuthUser'') = None
   \<and> fst (renameCommand sample_tables (Parsed base_config) ''/proj'' renamed_to_auth_user
          ''component'' ''AuthUser'' ''Auth'') = None
   \<and> auth_store_call_fs ''/proj/src/components/shared/Auth''
       = Some (Dir [(''Auth.tsx'', File ''const s = useAuthStore();'')])
   \<and> renamed_to_auth_user ''/proj/src/components/shared/AuthUser''
       = Some (Dir [(''AuthUser.tsx'', File ''const s = useAuthUserUserUserStore();'')])
   \<and> renamed_back_from_auth_user ''/proj/src/components/shared/Auth''
       = Some (Dir [(''Auth.tsx'', File ''const s = useAuthUserStore();'')])"
proof -
  have start: "auth_store_call_fs ''/proj/src/components/shared/Auth''
       = Some (Dir [(''Auth.tsx'', File ''const s = useAuthStore();'')])"
    by (simp add: auth_store_call_fs_def)
  have mid: "renamed_to_auth_user ''/proj/src/components/shared/AuthUser''
       = Some (Dir [(''AuthUser.tsx'', File ''const s = useAuthUserUserUserStore();'')])"
    by (simp add: renamed_to_auth_user_def first_rename_to_auth_user)
  show ?thesis
    by (simp add: start mid first_rename_to_auth_user second_rename_from_auth_user
        renamed_back_from_auth_user_def)
qed

text \<open>
  Neither of the two directories that do not come back is restorable.
\<close>

lemma changed_directories_not_restorable:
  "\<not> restorable (buildReplacementPairs ''Auth'' ''Cart'') (buildReplacementPairs ''Cart'' ''Auth'')
       [(''Auth.tsx'', File ''const Auth = () => useCart();'')]"
  "\<not> restorable (buildReplacementPairs ''Auth'' ''AuthUser'') (buildReplacementPairs ''AuthUser'' ''Auth'')
       [(''Auth.tsx'', File ''const s = useAuthStore();'')]"
  by (simp_all add: restorable_def replace_Auth_Cart replace_Auth_AuthUser tsx_is_text)
end
